(* ===== verification/Prelude.thy ===== *)
theory Prelude
  imports Main "HOL-Library.Word"
begin

section \<open>Shared vocabulary\<close>

text \<open>
  The machine types, the result type and the byte-string encodings that every component uses:
  \<^item> bytes are 8-bit words, the Rust slices, arrays and vectors of \<^verbatim>\<open>u8\<close> are lists of them
    (an array \<^verbatim>\<open>[u8; n]\<close> is a list of length \<open>n\<close>, stated where a theorem needs it);
  \<^item> Rust's \<^verbatim>\<open>Result<T, E>\<close> is the sum type, \<open>Inl\<close> the error; \<open>rbind\<close> is the \<^verbatim>\<open>?\<close> operator;
  \<^item> \<open>be_bytes\<close> is \<^verbatim>\<open>to_be_bytes\<close>, \<open>lp\<close> the length-prefixed field \<^verbatim>\<open>u32_be(len) || bytes\<close> that the
    transparency log, the delegation channel and the key-derivation inputs all use.
  The locale \<open>prefix_code\<close> is the contract the byte layouts rely on: a field that can be read off
  the front of a byte string in one way only. It is interpreted for every field encoding used.
\<close>

named_theorems result_simps \<open>inversion of the result operators\<close>
named_theorems layout_simps \<open>reading a byte layout field by field\<close>

type_synonym byte = "8 word"
type_synonym bytes = "byte list"
type_synonym u16 = "16 word"
type_synonym u32 = "32 word"
type_synonym u64 = "64 word"

subsection \<open>Results\<close>

definition rbind :: "'e + 'a \<Rightarrow> ('a \<Rightarrow> 'e + 'b) \<Rightarrow> 'e + 'b" where
  "rbind m f = (case m of Inl e \<Rightarrow> Inl e | Inr x \<Rightarrow> f x)"

definition ok_or :: "'e \<Rightarrow> 'a option \<Rightarrow> 'e + 'a" where
  "ok_or e m = (case m of None \<Rightarrow> Inl e | Some x \<Rightarrow> Inr x)"

definition map_err :: "('e \<Rightarrow> 'f) \<Rightarrow> 'e + 'a \<Rightarrow> 'f + 'a" where
  "map_err g m = (case m of Inl e \<Rightarrow> Inl (g e) | Inr x \<Rightarrow> Inr x)"

definition guard :: "bool \<Rightarrow> 'e \<Rightarrow> 'e + unit" where
  "guard b e = (if b then Inr () else Inl e)"

subsection \<open>Big-endian integers and length-prefixed fields\<close>

primrec be_bytes :: "nat \<Rightarrow> nat \<Rightarrow> bytes" where
  "be_bytes 0 v = []"
| "be_bytes (Suc n) v = be_bytes n (v div 256) @ [of_nat v]"

definition be_value :: "bytes \<Rightarrow> nat" where
  "be_value bs = foldl (\<lambda>a b. a * 256 + unat b) 0 bs"

definition be16 :: "u16 \<Rightarrow> bytes" where "be16 x = be_bytes 2 (unat x)"
definition be32 :: "u32 \<Rightarrow> bytes" where "be32 x = be_bytes 4 (unat x)"
definition be64 :: "u64 \<Rightarrow> bytes" where "be64 x = be_bytes 8 (unat x)"

definition from_be32 :: "bytes \<Rightarrow> u32" where "from_be32 bs = of_nat (be_value bs)"

definition lp :: "bytes \<Rightarrow> bytes" where
  "lp field = be32 (of_nat (length field)) @ field"

abbreviation lp_ok :: "bytes \<Rightarrow> bool" where
  "lp_ok field \<equiv> length field < 4294967296"

definition utf8 :: "string \<Rightarrow> bytes" where
  "utf8 s = map (\<lambda>c. of_nat (of_char c)) s"

subsection \<open>Signed 64-bit integers\<close>

text \<open>
  An \<^verbatim>\<open>i64\<close> is an integer; the saturating operations, the wrap-around of plain addition and the cast of a
  \<^verbatim>\<open>u64\<close> are written out.
\<close>

definition i64_min :: int where "i64_min = - (2 ^ 63)"
definition i64_max :: int where "i64_max = 2 ^ 63 - 1"

definition saturating_add :: "int \<Rightarrow> int \<Rightarrow> int" where
  "saturating_add a b = max i64_min (min i64_max (a + b))"

definition saturating_sub :: "int \<Rightarrow> int \<Rightarrow> int" where
  "saturating_sub a b = max i64_min (min i64_max (a - b))"

definition wrap_i64 :: "int \<Rightarrow> int" where
  "wrap_i64 n = (n + 2 ^ 63) mod 2 ^ 64 - 2 ^ 63"

definition u64_as_i64 :: "nat \<Rightarrow> int" where
  "u64_as_i64 n = (let m = int n mod 2 ^ 64 in if m < 2 ^ 63 then m else m - 2 ^ 64)"

lemma wrap_i64_id: "i64_min \<le> n \<Longrightarrow> n \<le> i64_max \<Longrightarrow> wrap_i64 n = n"
  by (simp add: wrap_i64_def i64_min_def i64_max_def)

subsection \<open>Strings\<close>

text \<open>\<open>split_on\<close> is \<^verbatim>\<open>str::split\<close> with a character, \<open>strip_prefix\<close> is \<^verbatim>\<open>str::strip_prefix\<close>.\<close>

fun split_on :: "char \<Rightarrow> string \<Rightarrow> string list" where
  "split_on d [] = [[]]"
| "split_on d (c # s) =
     (if c = d then [] # split_on d s
      else (case split_on d s of [] \<Rightarrow> [[c]] | p # ps \<Rightarrow> (c # p) # ps))"

definition strip_prefix :: "string \<Rightarrow> string \<Rightarrow> string option" where
  "strip_prefix p s = (if take (length p) s = p then Some (drop (length p) s) else None)"

definition strip_suffix :: "string \<Rightarrow> string \<Rightarrow> string option" where
  "strip_suffix p s = map_option rev (strip_prefix (rev p) (rev s))"

text \<open>
  \<open>trim\<close> is \<^verbatim>\<open>str::trim\<close>: it removes the Unicode white space, given by its UTF-8 forms, at both ends.
  \<open>path_join\<close> is \<^verbatim>\<open>Path::join\<close> on Unix, where an absolute second path replaces the first.
\<close>

definition white_spaces :: "string list" where
  "white_spaces =
     [[CHR 0x09], [CHR 0x0A], [CHR 0x0B], [CHR 0x0C], [CHR 0x0D], [CHR 0x20],
      [CHR 0xC2, CHR 0x85], [CHR 0xC2, CHR 0xA0], [CHR 0xE1, CHR 0x9A, CHR 0x80]] @
     map (\<lambda>n. [CHR 0xE2, CHR 0x80, char_of (n :: nat)]) ([0x80..<0x8B] @ [0xA8, 0xA9, 0xAF]) @
     [[CHR 0xE2, CHR 0x81, CHR 0x9F], [CHR 0xE3, CHR 0x80, CHR 0x80]]"

definition strip_white :: "(string \<Rightarrow> string \<Rightarrow> string option) \<Rightarrow> string \<Rightarrow> string option" where
  "strip_white strip s =
     (case List.find (\<lambda>w. strip w s \<noteq> None) white_spaces of None \<Rightarrow> None | Some w \<Rightarrow> strip w s)"

fun trim_with :: "nat \<Rightarrow> (string \<Rightarrow> string \<Rightarrow> string option) \<Rightarrow> string \<Rightarrow> string" where
  "trim_with 0 strip s = s"
| "trim_with (Suc n) strip s = (case strip_white strip s of None \<Rightarrow> s | Some r \<Rightarrow> trim_with n strip r)"

definition trim :: "string \<Rightarrow> string" where
  "trim s = (let t = trim_with (length s) strip_prefix s in trim_with (length t) strip_suffix t)"

definition path_join :: "string \<Rightarrow> string \<Rightarrow> string" where
  "path_join a b =
     (if b \<noteq> [] \<and> hd b = CHR ''/'' then b
      else if a = [] then b
      else if last a = CHR ''/'' then a @ b else a @ ''/'' @ b)"

text \<open>\<open>file_split\<close> gives \<^verbatim>\<open>Path::file_stem\<close> and \<^verbatim>\<open>Path::extension\<close> of a file name: the last dot separates them, unless it leads.\<close>

definition file_split :: "string \<Rightarrow> string \<times> string option" where
  "file_split name =
     (let r = rev name in
      case dropWhile (\<lambda>c. c \<noteq> CHR ''.'') r of
        [] \<Rightarrow> (name, None)
      | _ # before \<Rightarrow>
          (if before = [] then (name, None) else (rev before, Some (rev (takeWhile (\<lambda>c. c \<noteq> CHR ''.'') r)))))"

definition file_stem :: "string \<Rightarrow> string" where "file_stem name = fst (file_split name)"
definition path_extension :: "string \<Rightarrow> string option" where "path_extension name = snd (file_split name)"

lemma file_split_dot:
  "s \<noteq> [] \<Longrightarrow> CHR ''.'' \<notin> set e \<Longrightarrow> file_split (s @ CHR ''.'' # e) = (s, Some e)"
proof -
  assume "s \<noteq> []" and e: "CHR ''.'' \<notin> set e"
  have all: "x \<in> set (rev e) \<Longrightarrow> x \<noteq> CHR ''.''" for x using e by auto
  have "takeWhile (\<lambda>c. c \<noteq> CHR ''.'') (rev e @ CHR ''.'' # rev s) = rev e"
    "dropWhile (\<lambda>c. c \<noteq> CHR ''.'') (rev e @ CHR ''.'' # rev s) = CHR ''.'' # rev s"
    using all takeWhile_append2 [of "rev e" "\<lambda>c. c \<noteq> CHR ''.''"] dropWhile_append2 [of "rev e" "\<lambda>c. c \<noteq> CHR ''.''"]
    by simp_all
  with \<open>s \<noteq> []\<close> show ?thesis by (simp add: file_split_def Let_def)
qed

lemma strip_prefix_iff [result_simps]: "strip_prefix p s = Some r \<longleftrightarrow> s = p @ r"
  by (auto simp: strip_prefix_def) (metis append_take_drop_id)

lemma strip_prefix_append [simp]: "strip_prefix p (p @ r) = Some r"
  by (simp add: strip_prefix_iff)

lemma strip_suffix_iff [result_simps]: "strip_suffix p s = Some r \<longleftrightarrow> s = r @ p"
  by (auto simp: strip_suffix_def strip_prefix_iff) (metis rev_append rev_rev_ident)

lemma split_on_not_Nil [simp]: "split_on d s \<noteq> []"
  by (induction s) (auto split: list.split)

lemma split_on_none [simp]: "d \<notin> set s \<Longrightarrow> split_on d s = [s]"
  by (induction s) auto

lemma split_on_append [simp]: "d \<notin> set p \<Longrightarrow> split_on d (p @ d # s) = p # split_on d s"
  by (induction p) auto

lemma split_on_single: "split_on d s = [p] \<Longrightarrow> s = p \<and> d \<notin> set p"
proof (induction s arbitrary: p)
  case (Cons c s)
  then show ?case by (auto split: if_splits list.splits)
qed simp

lemma split_on_Cons:
  "split_on d s = p # q # ps \<Longrightarrow> \<exists>t. s = p @ d # t \<and> d \<notin> set p \<and> split_on d t = q # ps"
proof (induction s arbitrary: p)
  case (Cons c s)
  show ?case
  proof (cases "c = d")
    case False
    then obtain p' where "p = c # p'" "split_on d s = p' # q # ps"
      using Cons.prems by (auto split: list.splits)
    with Cons.IH [of p'] False show ?thesis by auto
  qed (use Cons.prems in auto)
qed simp

lemma split_on_3:
  "split_on d s = [a, b, c] \<longleftrightarrow> s = a @ d # b @ d # c \<and> d \<notin> set a \<and> d \<notin> set b \<and> d \<notin> set c"
  by (auto dest!: split_on_Cons split_on_single)

lemma split_on_2: "split_on d s = [a, b] \<longleftrightarrow> s = a @ d # b \<and> d \<notin> set a \<and> d \<notin> set b"
  by (auto dest!: split_on_Cons split_on_single)

subsection \<open>Result lemmas\<close>

lemma rbind_simps [simp]:
  "rbind (Inl e) f = Inl e"
  "rbind (Inr x) f = f x"
  by (simp_all add: rbind_def)

lemma rbind_eq_Inr [result_simps]:
  "rbind m f = Inr y \<longleftrightarrow> (\<exists>x. m = Inr x \<and> f x = Inr y)"
  by (cases m) auto

lemma rbind_eq_Inl [result_simps]:
  "rbind m f = Inl e \<longleftrightarrow> m = Inl e \<or> (\<exists>x. m = Inr x \<and> f x = Inl e)"
  by (cases m) auto

lemma rbind_assoc: "rbind (rbind m f) g = rbind m (\<lambda>x. rbind (f x) g)"
  by (cases m) auto

lemma ok_or_simps [simp]: "ok_or e None = Inl e" "ok_or e (Some x) = Inr x"
  by (simp_all add: ok_or_def)

lemma ok_or_eq [result_simps]:
  "ok_or e m = Inr x \<longleftrightarrow> m = Some x"
  "ok_or e m = Inl e' \<longleftrightarrow> m = None \<and> e' = e"
  by (cases m; auto)+

lemma map_err_simps [simp]: "map_err g (Inl e) = Inl (g e)" "map_err g (Inr x) = Inr x"
  by (simp_all add: map_err_def)

lemma map_err_eq_Inr [result_simps]: "map_err g m = Inr x \<longleftrightarrow> m = Inr x"
  by (cases m) auto

lemma guard_simps [simp]: "guard True e = Inr ()" "guard False e = Inl e"
  by (simp_all add: guard_def)

lemma guard_eq [result_simps]:
  "guard b e = Inr u \<longleftrightarrow> b"
  "guard b e = Inl e' \<longleftrightarrow> \<not> b \<and> e' = e"
  by (cases b; auto)+

lemma inj_on_pair: "inj_on f {x, y} \<Longrightarrow> f x = f y \<Longrightarrow> x = y"
  by (erule inj_onD) simp_all

subsection \<open>Big-endian lemmas\<close>

lemma length_be_bytes [simp]: "length (be_bytes n v) = n"
  by (induction n arbitrary: v) auto

lemma length_be [simp]: "length (be16 x) = 2" "length (be32 y) = 4" "length (be64 z) = 8"
  by (simp_all add: be16_def be32_def be64_def)

lemma be_bytes_Cons: "be_bytes (Suc n) v = of_nat (v div 256 ^ n) # be_bytes n v"
proof (induction n arbitrary: v)
  case (Suc n)
  have "be_bytes (Suc (Suc n)) v = be_bytes (Suc n) (v div 256) @ [of_nat v]" by simp
  also have "\<dots> = of_nat (v div 256 div 256 ^ n) # be_bytes n (v div 256) @ [of_nat v]"
    using Suc.IH [of "v div 256"] by simp
  also have "v div 256 div 256 ^ n = v div 256 ^ Suc n" by (simp add: div_mult2_eq)
  finally show ?case by simp
qed simp

lemma be64_first: "be64 x = of_nat (unat x div 2 ^ 56) # be_bytes 7 (unat x)"
  using be_bytes_Cons [of 7 "unat x"] by (simp add: be64_def)

lemma be_value_snoc: "be_value (bs @ [b]) = be_value bs * 256 + unat b"
  by (simp add: be_value_def)

lemma be_value_be_bytes: "be_value (be_bytes n v) = v mod 256 ^ n"
proof (induction n arbitrary: v)
  case 0
  then show ?case by (simp add: be_value_def)
next
  case (Suc n)
  have "unat (of_nat v :: byte) = v mod 256"
    by (simp add: unat_of_nat)
  then show ?case
    using Suc.IH [of "v div 256"]
    by (simp add: be_value_snoc mod_mult2_eq algebra_simps)
qed

lemma be_bytes_inj:
  assumes "v < 256 ^ n" "w < 256 ^ n" "be_bytes n v = be_bytes n w"
  shows "v = w"
proof -
  have "be_value (be_bytes n v) = be_value (be_bytes n w)"
    using assms(3) by simp
  with assms(1,2) show ?thesis by (simp add: be_value_be_bytes)
qed

lemma be16_inj [simp]: "be16 x = be16 y \<longleftrightarrow> x = y"
  using be_bytes_inj [of "unat x" 2 "unat y"] unsigned_less [of x, where ?'a = nat]
    unsigned_less [of y, where ?'a = nat]
  by (auto simp: be16_def word_unat_eq_iff)

lemma be32_inj [simp]: "be32 x = be32 y \<longleftrightarrow> x = y"
  using be_bytes_inj [of "unat x" 4 "unat y"] unsigned_less [of x, where ?'a = nat]
    unsigned_less [of y, where ?'a = nat]
  by (auto simp: be32_def word_unat_eq_iff)

lemma be64_inj [simp]: "be64 x = be64 y \<longleftrightarrow> x = y"
  using be_bytes_inj [of "unat x" 8 "unat y"] unsigned_less [of x, where ?'a = nat]
    unsigned_less [of y, where ?'a = nat]
  by (auto simp: be64_def word_unat_eq_iff)

lemma from_be32_be32 [simp]: "from_be32 (be32 x) = x"
  using unsigned_less [of x, where ?'a = nat]
  by (simp add: from_be32_def be32_def be_value_be_bytes)

lemma length_lp [simp]: "length (lp f) = 4 + length f"
  by (simp add: lp_def)

lemma of_nat_u32_inj:
  assumes "m < 4294967296" "n < 4294967296" "(of_nat m :: u32) = of_nat n"
  shows "m = n"
proof -
  have "unat (of_nat m :: u32) = unat (of_nat n :: u32)"
    using assms(3) by simp
  with assms(1,2) show ?thesis by (simp add: unat_of_nat)
qed

subsection \<open>Text\<close>

lemma length_utf8 [simp]: "length (utf8 s) = length s"
  by (simp add: utf8_def)

lemma char_byte_inj: "(of_nat (of_char c) :: byte) = of_nat (of_char d) \<longleftrightarrow> c = d"
proof
  assume "(of_nat (of_char c) :: byte) = of_nat (of_char d)"
  then have "unat (of_nat (of_char c) :: byte) = unat (of_nat (of_char d) :: byte)"
    by simp
  then show "c = d" by (simp add: unat_of_nat)
qed simp

lemma utf8_inj [simp]: "utf8 s = utf8 t \<longleftrightarrow> s = t"
proof -
  have "inj (\<lambda>c. of_nat (of_char c) :: byte)"
    by (rule injI) (simp only: char_byte_inj)
  then show ?thesis by (simp add: utf8_def inj_map_eq_map)
qed

subsection \<open>Fields that can be read in one way only\<close>

locale prefix_code =
  fixes enc :: "'a \<Rightarrow> bytes" and ok :: "'a \<Rightarrow> bool"
  assumes cancel: "ok x \<Longrightarrow> ok y \<Longrightarrow> enc x @ r = enc y @ s \<Longrightarrow> x = y \<and> r = s"
begin

lemma cancel_iff: "ok x \<Longrightarrow> ok y \<Longrightarrow> enc x @ r = enc y @ s \<longleftrightarrow> x = y \<and> r = s"
  using cancel by blast

lemma last_iff: "ok x \<Longrightarrow> ok y \<Longrightarrow> enc x = enc y \<longleftrightarrow> x = y"
  using cancel [of x y "[]" "[]"] by auto

end

interpretation be16: prefix_code be16 "\<lambda>_. True"
  by unfold_locales (simp add: append_eq_append_conv)

interpretation be32: prefix_code be32 "\<lambda>_. True"
  by unfold_locales (simp add: append_eq_append_conv)

interpretation be64: prefix_code be64 "\<lambda>_. True"
  by unfold_locales (simp add: append_eq_append_conv)

interpretation fixed: prefix_code "\<lambda>x. x" "\<lambda>x. length x = n" for n
  by unfold_locales simp

interpretation lp: prefix_code lp "\<lambda>x. lp_ok x"
proof
  fix x y r s :: bytes
  assume ok: "lp_ok x" "lp_ok y" and eq: "lp x @ r = lp y @ s"
  from eq have len: "(of_nat (length x) :: u32) = of_nat (length y)"
    and rest: "x @ r = y @ s"
    by (simp_all add: lp_def be32.cancel_iff)
  from len ok have "length x = length y" by (auto dest: of_nat_u32_inj)
  with rest show "x = y \<and> r = s" by simp
qed

lemmas layout_cancel [layout_simps] =
  be16.cancel_iff be16.last_iff be32.cancel_iff be32.last_iff be64.cancel_iff be64.last_iff
  lp.cancel_iff lp.last_iff

end
