(* ===== verification/Merkle.thy ===== *)
theory Merkle
  imports Prelude
begin

section \<open>The transparency log's Merkle tree\<close>

text \<open>
  \<^verbatim>\<open>crypto/src/merkle.rs\<close>: the RFC 6962 tree over the log's entry hashes, its inclusion and
  consistency proofs (RFC 6962 section 2.1) and their verifiers (RFC 9162 section 2.1). The hash
  \<open>sha\<close> (the \<^verbatim>\<open>sha2\<close> crate behind \<^verbatim>\<open>hash::sha256\<close>) is an argument of every definition; theorems that
  need it to return 32 bytes or to be free of collisions say so, the latter only on the preimages
  that the two computations at hand really hash.

  Indices and sizes are natural numbers: the code only subtracts one, halves and compares them
  (after checking that they are not zero), and doubles \<open>k\<close> below a slice length, so no operation
  wraps at 64 bits. The private functions \<open>mth\<close>, \<open>audit_path\<close> and \<open>subproof\<close> slice their argument
  and are only called on non-empty slices; their value on the empty list is never used.
\<close>

type_synonym hasher = "bytes \<Rightarrow> bytes"

definition LEAF_PREFIX :: byte where "LEAF_PREFIX = 0x00"
definition INTERNAL_PREFIX :: byte where "INTERNAL_PREFIX = 0x01"

definition leaf_hash :: "hasher \<Rightarrow> bytes \<Rightarrow> bytes" where
  "leaf_hash sha entry_hash = sha (LEAF_PREFIX # entry_hash)"

definition internal_hash :: "hasher \<Rightarrow> bytes \<Rightarrow> bytes \<Rightarrow> bytes" where
  "internal_hash sha left right = sha (INTERNAL_PREFIX # left @ right)"

subsection \<open>The tree\<close>

function split_loop :: "nat \<Rightarrow> nat \<Rightarrow> nat" where
  "split_loop k n = (if k \<noteq> 0 \<and> 2 * k < n then split_loop (2 * k) n else k)"
  by pat_completeness auto
termination
  by (relation "measure (\<lambda>(k, n). n - k)") auto

definition split_point :: "nat \<Rightarrow> nat" where
  "split_point n = split_loop 1 n"

declare split_loop.simps [simp del]

lemma split_loop_spec:
  "k = 2 ^ i \<Longrightarrow> k < n \<Longrightarrow> \<exists>j. split_loop k n = 2 ^ j \<and> 2 ^ j < n \<and> n \<le> 2 * 2 ^ j"
proof (induction k n arbitrary: i rule: split_loop.induct)
  case (1 k n)
  show ?case
  proof (cases "2 * k < n")
    case True
    with "1.IH" [of "Suc i"] "1.prems" show ?thesis
      by (subst split_loop.simps) auto
  next
    case False
    with "1.prems" show ?thesis
      by (subst split_loop.simps) (auto intro!: exI [of _ i])
  qed
qed

lemma split_point_spec:
  assumes "2 \<le> n"
  obtains j where "split_point n = 2 ^ j" "2 ^ j < n" "n \<le> 2 * 2 ^ j"
  using split_loop_spec [of 1 0 n] assms by (auto simp: split_point_def)

lemma split_point_pos [simp]: "2 \<le> n \<Longrightarrow> 0 < split_point n"
  by (erule split_point_spec) simp

lemma split_point_less [simp]: "2 \<le> n \<Longrightarrow> split_point n < n"
  by (erule split_point_spec) simp

lemma split_shrinks:
  "Suc 0 < n \<Longrightarrow> min n (split_point n) < n"
  "Suc 0 < n \<Longrightarrow> n - split_point n < n"
  using split_point_pos [of n] split_point_less [of n] by linarith+

function mth :: "hasher \<Rightarrow> bytes list \<Rightarrow> bytes" where
  "mth sha entries =
     (case entries of
        [] \<Rightarrow> []
      | [single] \<Rightarrow> leaf_hash sha single
      | _ \<Rightarrow> (let k = split_point (length entries)
             in internal_hash sha (mth sha (take k entries)) (mth sha (drop k entries))))"
  by pat_completeness auto
termination
  by (relation "measure (\<lambda>(sha, entries). length entries)")
    (auto simp del: less_Suc_eq_le length_Cons simp add: split_shrinks)

definition merkle_root :: "hasher \<Rightarrow> bytes list \<Rightarrow> bytes" where
  "merkle_root sha entries = (if entries = [] then sha [] else mth sha entries)"

function audit_path :: "hasher \<Rightarrow> bytes list \<Rightarrow> nat \<Rightarrow> bytes list \<Rightarrow> bytes list" where
  "audit_path sha entries index path =
     (if length entries \<le> 1 then path
      else let k = split_point (length entries)
           in if index < k
              then audit_path sha (take k entries) index path @ [mth sha (drop k entries)]
              else audit_path sha (drop k entries) (index - k) path @ [mth sha (take k entries)])"
  by pat_completeness auto
termination
  by (relation "measure (\<lambda>(sha, entries, i, p). length entries)")
    (auto simp: split_shrinks not_le)

definition inclusion_proof :: "hasher \<Rightarrow> bytes list \<Rightarrow> nat \<Rightarrow> bytes list option" where
  "inclusion_proof sha entries index =
     (if index < length entries then Some (audit_path sha entries index []) else None)"

subsection \<open>Verifying inclusion\<close>

function skip_levels :: "nat \<Rightarrow> nat \<Rightarrow> nat \<times> nat" where
  "skip_levels fnode snode =
     (let fnode = fnode div 2; snode = snode div 2
      in if odd fnode \<or> fnode = 0 then (fnode, snode) else skip_levels fnode snode)"
  by pat_completeness auto
termination
  by (relation "measure fst") auto

fun inclusion_loop :: "hasher \<Rightarrow> nat \<Rightarrow> nat \<Rightarrow> bytes \<Rightarrow> bytes list \<Rightarrow> (nat \<times> bytes) option" where
  "inclusion_loop sha fnode snode r [] = Some (snode, r)"
| "inclusion_loop sha fnode snode r (p # proof) =
     (if snode = 0 then None
      else if odd fnode \<or> fnode = snode
      then (let r = internal_hash sha p r;
                (fnode, snode) = (if even fnode then skip_levels fnode snode else (fnode, snode))
            in inclusion_loop sha (fnode div 2) (snode div 2) r proof)
      else inclusion_loop sha (fnode div 2) (snode div 2) (internal_hash sha r p) proof)"

definition verify_inclusion ::
  "hasher \<Rightarrow> bytes \<Rightarrow> nat \<Rightarrow> nat \<Rightarrow> bytes list \<Rightarrow> bytes \<Rightarrow> bool" where
  "verify_inclusion sha entry_hash index tree_size proof root =
     (if index \<ge> tree_size then False
      else case inclusion_loop sha index (tree_size - 1) (leaf_hash sha entry_hash) proof of
             None \<Rightarrow> False
           | Some (snode, r) \<Rightarrow> snode = 0 \<and> r = root)"

subsection \<open>Consistency\<close>

function subproof :: "hasher \<Rightarrow> nat \<Rightarrow> bytes list \<Rightarrow> bool \<Rightarrow> bytes list \<Rightarrow> bytes list" where
  "subproof sha m entries b proof =
     (if m = length entries \<or> length entries \<le> 1
      then (if b then proof else proof @ [mth sha entries])
      else let k = split_point (length entries)
           in if m \<le> k
              then subproof sha m (take k entries) b proof @ [mth sha (drop k entries)]
              else subproof sha (m - k) (drop k entries) False proof @ [mth sha (take k entries)])"
  by pat_completeness auto
termination
  by (relation "measure (\<lambda>(sha, m, entries, b, p). length entries)")
    (auto simp: split_shrinks not_le)

definition consistency_proof :: "hasher \<Rightarrow> bytes list \<Rightarrow> nat \<Rightarrow> bytes list option" where
  "consistency_proof sha entries m =
     (if 0 < m \<and> m < length entries then Some (subproof sha m entries True []) else None)"

fun is_power_of_two :: "nat \<Rightarrow> bool" where
  "is_power_of_two m = (if m \<le> 1 then m = 1 else even m \<and> is_power_of_two (m div 2))"

function align :: "nat \<Rightarrow> nat \<Rightarrow> nat \<times> nat" where
  "align fnode snode = (if odd fnode then align (fnode div 2) (snode div 2) else (fnode, snode))"
  by pat_completeness auto
termination
  by (relation "measure fst") (auto elim: oddE)

fun consistency_loop ::
  "hasher \<Rightarrow> nat \<Rightarrow> nat \<Rightarrow> bytes \<Rightarrow> bytes \<Rightarrow> bytes list \<Rightarrow> (nat \<times> bytes \<times> bytes) option" where
  "consistency_loop sha fnode snode fr sr [] = Some (snode, fr, sr)"
| "consistency_loop sha fnode snode fr sr (c # path) =
     (if snode = 0 then None
      else if odd fnode \<or> fnode = snode
      then (let fr = internal_hash sha c fr;
                sr = internal_hash sha c sr;
                (fnode, snode) = (if even fnode then skip_levels fnode snode else (fnode, snode))
            in consistency_loop sha (fnode div 2) (snode div 2) fr sr path)
      else consistency_loop sha (fnode div 2) (snode div 2) fr (internal_hash sha sr c) path)"

definition verify_consistency ::
  "hasher \<Rightarrow> nat \<Rightarrow> nat \<Rightarrow> bytes \<Rightarrow> bytes \<Rightarrow> bytes list \<Rightarrow> bool" where
  "verify_consistency sha m n first_hash second_hash proof =
     (if m = 0 \<or> m \<ge> n \<or> proof = [] then False
      else let path = (if is_power_of_two m then [first_hash] else []) @ proof;
               (fnode, snode) = align (m - 1) (n - 1)
           in case consistency_loop sha fnode snode (hd path) (hd path) (tl path) of
                None \<Rightarrow> False
              | Some (snode, fr, sr) \<Rightarrow> fr = first_hash \<and> sr = second_hash \<and> snode = 0)"

declare mth.simps [simp del] audit_path.simps [simp del] subproof.simps [simp del]
  skip_levels.simps [simp del] align.simps [simp del] is_power_of_two.simps [simp del]

end
