(* ===== verification/Merkle_Paths.thy ===== *)
theory Merkle_Paths
  imports Merkle
begin

section \<open>How the verifiers walk a tree\<close>

text \<open>
  The two verifiers of \<^verbatim>\<open>crypto/src/merkle.rs\<close> keep a pair of node numbers and look at their low
  bits; the two provers recurse over slices. This theory connects them. \<open>turns\<close> is the sequence of
  directions the verifiers' bit tests produce (\<open>True\<close>: the sibling is on the left), \<open>climb\<close> folds a
  path along it, and the loops of the model are shown equal to \<open>climb\<close>. The locale
  \<open>merkle_hashing\<close> is what the path arguments need of the tree (the two equations of RFC 6962's
  MTH); it is interpreted on \<open>leaf_hash\<close>, \<open>internal_hash\<close> and \<open>mth\<close>.
\<close>

subsection \<open>Directions\<close>

lemma skip_levels_unfold:
  "skip_levels f s =
     (if odd (f div 2) \<or> f div 2 = 0 then (f div 2, s div 2) else skip_levels (f div 2) (s div 2))"
  by (subst skip_levels.simps) (simp only: Let_def)

lemma skip_levels_le: "snd (skip_levels f s) \<le> s"
proof (induction f arbitrary: s rule: less_induct)
  case (less f)
  show ?case
  proof (cases "odd (f div 2) \<or> f div 2 = 0")
    case True
    then show ?thesis by (subst skip_levels_unfold) simp
  next
    case False
    then have "snd (skip_levels (f div 2) (s div 2)) \<le> s div 2" by (intro less) auto
    with False show ?thesis by (subst skip_levels_unfold) simp
  qed
qed

function turns :: "nat \<Rightarrow> nat \<Rightarrow> bool list" where
  "turns f s =
     (if s = 0 then []
      else if odd f \<or> f = s
      then True # (let (f', s') = (if even f then skip_levels f s else (f, s))
                   in turns (f' div 2) (s' div 2))
      else False # turns (f div 2) (s div 2))"
  by pat_completeness auto
termination
proof (relation "measure snd")
  fix f s f' s' :: nat and x
  assume "s \<noteq> 0" "x = (if even f then skip_levels f s else (f, s))" "(f', s') = x"
  moreover have "snd x \<le> s" if "x = skip_levels f s"
    using that skip_levels_le by simp
  ultimately have "s' \<le> s" by (cases "even f") (auto simp: prod_eq_iff)
  with \<open>s \<noteq> 0\<close> show "((f' div 2, s' div 2), (f, s)) \<in> measure snd" by simp
qed auto

declare turns.simps [simp del]

lemma turns_zero [simp]: "turns f 0 = []"
  by (subst turns.simps) simp

lemma turns_odd: "odd f \<Longrightarrow> 0 < s \<Longrightarrow> turns f s = True # turns (f div 2) (s div 2)"
  by (subst turns.simps) simp

lemma turns_even: "even f \<Longrightarrow> f \<noteq> s \<Longrightarrow> 0 < s \<Longrightarrow> turns f s = False # turns (f div 2) (s div 2)"
  by (subst turns.simps) simp

lemma turns_last:
  "even s \<Longrightarrow> 0 < s \<Longrightarrow> skip_levels s s = (f', s') \<Longrightarrow> turns s s = True # turns (f' div 2) (s' div 2)"
  by (subst turns.simps) simp

lemma half_ones: "(2 * 2 ^ t - Suc 0) div 2 = 2 ^ t - Suc 0"
  by simp

lemma turns_left:
  "f < 2 ^ t \<Longrightarrow> s div 2 ^ t = 1 \<Longrightarrow> turns f s = turns f (2 ^ t - 1) @ [False]"
proof (induction t arbitrary: f s)
  case 0
  then show ?case by (simp add: turns_even)
next
  case (Suc t)
  have half: "(2 ^ Suc t - 1) div 2 = (2 ^ t - 1 :: nat)" by simp
  have odd: "odd (2 ^ Suc t - 1 :: nat)" by simp
  have "1 \<le> (2 :: nat) ^ t" by simp
  then have pos: "0 < (2 ^ Suc t - 1 :: nat)" unfolding power_Suc by linarith
  have big: "2 ^ Suc t \<le> s" using Suc.prems(2) div_less [of s "2 ^ Suc t"] by linarith
  have IH: "turns (f div 2) (s div 2) = turns (f div 2) (2 ^ t - 1) @ [False]"
    using Suc.prems by (intro Suc.IH) (auto simp: div_mult2_eq [symmetric])
  show ?case
  proof (cases "odd f")
    case True
    with IH big pos half show ?thesis by (simp add: turns_odd)
  next
    case False
    with odd have "f \<noteq> 2 ^ Suc t - 1" by blast
    moreover have "f \<noteq> s" using big Suc.prems(1) by linarith
    ultimately show ?thesis using False IH big pos half by (simp add: turns_even)
  qed
qed

lemma skip_levels_double:
  "skip_levels (2 * g) (2 * h) = (if odd g \<or> g = 0 then (g, h) else skip_levels g h)"
  by (subst skip_levels_unfold) simp

lemma skip_levels_power: "skip_levels (2 ^ Suc t) (2 ^ Suc t) = (1, 1)"
proof (induction t)
  case 0
  show ?case using skip_levels_double [of 1 1] by simp
next
  case (Suc t)
  then show ?case using skip_levels_double [of "2 ^ Suc t" "2 ^ Suc t"] by simp
qed

lemma skip_levels_right:
  "even f \<Longrightarrow> 0 < f \<Longrightarrow> f < 2 ^ t \<Longrightarrow>
     \<exists>t' f'. skip_levels f f = (f', f') \<and> skip_levels (2 ^ t + f) (2 ^ t + f) = (2 ^ t' + f', 2 ^ t' + f')
       \<and> odd f' \<and> f' < 2 ^ t'"
proof (induction f arbitrary: t rule: less_induct)
  case (less f)
  then obtain g where f: "f = 2 * g" "0 < g" by (auto elim: evenE)
  with less.prems(3) obtain u where t: "t = Suc u" by (cases t) auto
  with f less.prems(3) have gu: "g < 2 ^ u" by simp
  show ?case
  proof (cases "odd g")
    case True
    with gu have "0 < u" by (cases u) auto
    with True f t gu show ?thesis
      using skip_levels_double [of g g] skip_levels_double [of "2 ^ u + g" "2 ^ u + g"]
      by (intro exI [of _ u] exI [of _ g]) (simp add: distrib_left)
  next
    case False
    from less.IH [of g u] False f gu obtain t' f' where *: "skip_levels g g = (f', f')"
        "skip_levels (2 ^ u + g) (2 ^ u + g) = (2 ^ t' + f', 2 ^ t' + f')" "odd f'" "f' < 2 ^ t'"
      by auto
    from False f gu have "0 < u" by (cases u) auto
    with * False f t show ?thesis
      using skip_levels_double [of g g] skip_levels_double [of "2 ^ u + g" "2 ^ u + g"]
      by (intro exI [of _ t'] exI [of _ f']) (simp add: distrib_left)
  qed
qed

lemma turns_right:
  "f \<le> s \<Longrightarrow> s < 2 ^ t \<Longrightarrow> turns (2 ^ t + f) (2 ^ t + s) = turns f s @ [True]"
proof (induction s arbitrary: f t rule: less_induct)
  case (less s)
  show ?case
  proof (cases "s = 0")
    case True
    then have "f = 0" using less.prems(1) by simp
    with True show ?thesis
    proof (cases t)
      case (Suc u)
      with True \<open>f = 0\<close> skip_levels_power [of u] show ?thesis
        by (simp add: turns_last)
    qed (simp add: turns_odd)
  next
    case False
    with less.prems(2) obtain u where t: "t = Suc u" by (cases t) auto
    have IH: "turns (2 ^ u + f div 2) (2 ^ u + s div 2) = turns (f div 2) (s div 2) @ [True]"
      using False less.prems t by (intro less.IH) auto
    consider "odd f" | "even f" "f \<noteq> s" | "even f" "f = s" by blast
    then show ?thesis
    proof cases
      case 1
      with IH t False show ?thesis by (simp add: turns_odd)
    next
      case 2
      with IH t False show ?thesis by (simp add: turns_even)
    next
      case 3
      with skip_levels_right [of f t] False less.prems(2) obtain t' f'
        where *: "skip_levels f f = (f', f')"
          "skip_levels (2 ^ t + f) (2 ^ t + f) = (2 ^ t' + f', 2 ^ t' + f')" "odd f'" "f' < 2 ^ t'"
        by auto
      then obtain u' where t': "t' = Suc u'" by (cases t') auto
      have "f' \<le> f" using skip_levels_le [of f f] * by simp
      with 3 * t' False have "turns (2 ^ u' + f' div 2) (2 ^ u' + f' div 2)
          = turns (f' div 2) (f' div 2) @ [True]"
        by (intro less.IH) auto
      with 3 * t t' False show ?thesis by (simp add: turns_last)
    qed
  qed
qed

subsection \<open>Directions after aligning\<close>

definition aligned_turns :: "nat \<Rightarrow> nat \<Rightarrow> bool list" where
  "aligned_turns f s = (case align f s of (f', s') \<Rightarrow> turns f' s')"

lemma aligned_turns_odd: "odd f \<Longrightarrow> aligned_turns f s = aligned_turns (f div 2) (s div 2)"
  unfolding aligned_turns_def by (subst align.simps) simp

lemma aligned_turns_even: "even f \<Longrightarrow> aligned_turns f s = turns f s"
  unfolding aligned_turns_def by (subst align.simps) simp

lemma aligned_turns_full: "aligned_turns (2 ^ t - 1) (2 ^ t - 1) = []"
proof (induction t)
  case 0
  show ?case by (simp add: aligned_turns_even)
next
  case (Suc t)
  then show ?case by (simp add: aligned_turns_odd half_ones)
qed

lemma aligned_turns_left:
  "f < 2 ^ t \<Longrightarrow> s div 2 ^ t = 1 \<Longrightarrow> aligned_turns f s = aligned_turns f (2 ^ t - 1) @ [False]"
proof (induction t arbitrary: f s)
  case 0
  then show ?case by (simp add: aligned_turns_even turns_even)
next
  case (Suc t)
  show ?case
  proof (cases "odd f")
    case True
    have "aligned_turns (f div 2) (s div 2) = aligned_turns (f div 2) (2 ^ t - 1) @ [False]"
      using Suc.prems by (intro Suc.IH) (auto simp: div_mult2_eq [symmetric])
    with True show ?thesis by (simp add: aligned_turns_odd half_ones)
  next
    case False
    with turns_left [OF Suc.prems] show ?thesis by (simp add: aligned_turns_even)
  qed
qed

lemma aligned_turns_right:
  "f < s \<Longrightarrow> s < 2 ^ t \<Longrightarrow> aligned_turns (2 ^ t + f) (2 ^ t + s) = aligned_turns f s @ [True]"
proof (induction f arbitrary: s t rule: less_induct)
  case (less f)
  then obtain u where t: "t = Suc u" by (cases t) auto
  show ?case
  proof (cases "odd f")
    case True
    then obtain g where g: "f = 2 * g + 1" by (elim oddE)
    with less.prems t have "aligned_turns (2 ^ u + f div 2) (2 ^ u + s div 2)
        = aligned_turns (f div 2) (s div 2) @ [True]"
      by (intro less.IH) auto
    with True t show ?thesis by (simp add: aligned_turns_odd)
  next
    case False
    with turns_right [of f s t] less.prems t show ?thesis by (simp add: aligned_turns_even)
  qed
qed

subsection \<open>Folding a path along its directions\<close>

fun climb :: "('h \<Rightarrow> 'h \<Rightarrow> 'h) \<Rightarrow> 'h \<Rightarrow> bool list \<Rightarrow> 'h list \<Rightarrow> 'h" where
  "climb node r (d # ds) (p # ps) = climb node (if d then node p r else node r p) ds ps"
| "climb node r _ _ = r"

fun climb_old :: "('h \<Rightarrow> 'h \<Rightarrow> 'h) \<Rightarrow> 'h \<Rightarrow> bool list \<Rightarrow> 'h list \<Rightarrow> 'h" where
  "climb_old node r (d # ds) (p # ps) = climb_old node (if d then node p r else r) ds ps"
| "climb_old node r _ _ = r"

text \<open>The pairs of hashes that a climb joins.\<close>

fun joins :: "('h \<Rightarrow> 'h \<Rightarrow> 'h) \<Rightarrow> 'h \<Rightarrow> bool list \<Rightarrow> 'h list \<Rightarrow> ('h \<times> 'h) list" where
  "joins node r (d # ds) (p # ps) =
     (if d then (p, r) else (r, p)) # joins node (if d then node p r else node r p) ds ps"
| "joins node r _ _ = []"

lemma climb_snoc:
  "length ds = length ps \<Longrightarrow>
     climb node r (ds @ [d]) (ps @ [p])
       = (if d then node p (climb node r ds ps) else node (climb node r ds ps) p)"
  by (induction node r ds ps rule: climb.induct) auto

lemma climb_old_snoc:
  "length ds = length ps \<Longrightarrow>
     climb_old node r (ds @ [d]) (ps @ [p])
       = (if d then node p (climb_old node r ds ps) else climb_old node r ds ps)"
  by (induction node r ds ps rule: climb_old.induct) auto

lemma joins_snoc:
  "length ds = length ps \<Longrightarrow>
     joins node r (ds @ [d]) (ps @ [p])
       = joins node r ds ps @ [if d then (p, climb node r ds ps) else (climb node r ds ps, p)]"
  by (induction node r ds ps rule: joins.induct) auto

lemma climb_inj:
  assumes "length ps = length ds" "length qs = length ds"
    and "climb node r ds ps = climb node r' ds qs"
    and "inj_on (\<lambda>(a, b). node a b) (set (joins node r ds ps) \<union> set (joins node r' ds qs))"
  shows "r = r' \<and> ps = qs"
  using assms
proof (induction ds arbitrary: r r' ps qs)
  case Nil
  then show ?case by simp
next
  case (Cons d ds)
  from Cons.prems(1,2) obtain p ps' q qs' where *: "ps = p # ps'" "qs = q # qs'"
    by (cases ps; cases qs) auto
  let ?s = "if d then node p r else node r p"
  let ?s' = "if d then node q r' else node r' q"
  have "?s = ?s' \<and> ps' = qs'"
    using Cons.prems * by (intro Cons.IH) (auto intro: inj_on_subset)
  moreover have "(if d then (p, r) else (r, p)) = (if d then (q, r') else (r', q))"
    using calculation * by (intro inj_onD [OF Cons.prems(4)]) auto
  ultimately show ?case using * by (cases d) auto
qed

subsection \<open>The loops of the model\<close>

lemma inclusion_loop_climb:
  "inclusion_loop sha f s r ps = Some (0, r') \<longleftrightarrow>
     length ps = length (turns f s) \<and> r' = climb (internal_hash sha) r (turns f s) ps"
proof (induction ps arbitrary: f s r)
  case Nil
  show ?case by (cases "s = 0") (auto simp: turns.simps [of f s] Let_def)
next
  case (Cons p ps)
  show ?case
  proof (cases "s = 0")
    case False
    then show ?thesis
      by (simp add: Cons.IH turns.simps [of f s] Let_def split: prod.split)
  qed simp
qed

lemma consistency_loop_climb:
  "consistency_loop sha f s fr sr ps = Some (0, fr', sr') \<longleftrightarrow>
     length ps = length (turns f s) \<and> fr' = climb_old (internal_hash sha) fr (turns f s) ps
       \<and> sr' = climb (internal_hash sha) sr (turns f s) ps"
proof (induction ps arbitrary: f s fr sr)
  case Nil
  show ?case by (cases "s = 0") (auto simp: turns.simps [of f s] Let_def)
next
  case (Cons p ps)
  show ?case
  proof (cases "s = 0")
    case False
    then show ?thesis
      by (simp add: Cons.IH turns.simps [of f s] Let_def split: prod.split)
  qed simp
qed

end
