(* ===== verification/Crypto_Base.thy ===== *)
theory Crypto_Base
  imports Merkle
begin

section \<open>The primitives under the crypto crate\<close>

text \<open>
  The thin wrappers of \<^verbatim>\<open>crypto/src/{error,alg,hash,aead,kdf,keywrap,mac,ecdh,ecdsa,pubkey}.rs\<close> and the interface
  they call. The ciphers, hashes and encodings come from third-party crates (\<^verbatim>\<open>sha2\<close>, \<^verbatim>\<open>aes-gcm\<close>,
  \<^verbatim>\<open>hkdf\<close>, \<^verbatim>\<open>aes-kw\<close>, \<^verbatim>\<open>hmac\<close>, \<^verbatim>\<open>base64\<close>, \<^verbatim>\<open>hex\<close>, \<^verbatim>\<open>p256\<close>): the record \<open>crypto_lib\<close> has one field
  for each function the sources call, and every definition takes such a record. What the code relies
  on is stated by the predicates below, which theorems take as hypotheses:
  \<^item> \<open>gcm_correct\<close>: decrypting what was encrypted gives the message back, and a sealed message is 16
    bytes longer (the tag);
  \<^item> \<open>kw_correct\<close>: RFC 3394 unwrapping inverts wrapping, and adds 8 bytes;
  \<^item> \<open>hkdf_sized\<close>, \<open>b64_correct\<close>, \<open>hex_correct\<close>: HKDF returns the requested length, decoding inverts
    encoding, and hexadecimal text is made of lowercase hexadecimal digits;
  \<^item> \<open>ecdsa_correct\<close>: a signature made with a key verifies under its public key, and the DER form of a
    signature decodes to it;
  \<^item> \<open>p256_correct\<close>: a decoded curve point is its 65-byte uncompressed form, a public key is such a
    point, and the two sides of a key agreement compute the same secret.
  A curve public key (\<^verbatim>\<open>p256::PublicKey\<close>) is represented by its 65-byte uncompressed point, which is
  the only thing the sources read from it. Random values (nonces, ephemeral scalars) are arguments.
\<close>

subsection \<open>Errors and algorithm identifiers\<close>

datatype CryptoError =
    Authentication
  | InvalidInput string
  | UnknownAlgorithm
  | SignatureInvalid

type_synonym 'a crypto_result = "CryptoError + 'a"

datatype AlgId = A256Gcm | EcdhEsA256Kw | EcdhEsMlKem1024A256Kw | Es256

fun as_jose :: "AlgId \<Rightarrow> string" where
  "as_jose A256Gcm = ''A256GCM''"
| "as_jose EcdhEsA256Kw = ''ECDH-ES+A256KW''"
| "as_jose EcdhEsMlKem1024A256Kw = ''ECDH-ES+ML-KEM-1024+A256KW''"
| "as_jose Es256 = ''ES256''"

definition from_jose :: "string \<Rightarrow> AlgId crypto_result" where
  "from_jose s =
     (if s = ''A256GCM'' then Inr A256Gcm
      else if s = ''ECDH-ES+A256KW'' then Inr EcdhEsA256Kw
      else if s = ''ECDH-ES+ML-KEM-1024+A256KW'' then Inr EcdhEsMlKem1024A256Kw
      else if s = ''ES256'' then Inr Es256
      else Inl UnknownAlgorithm)"

lemma from_jose_iff [result_simps]: "from_jose s = Inr a \<longleftrightarrow> s = as_jose a"
  by (cases a) (auto simp: from_jose_def split: if_splits)

lemma from_jose_as_jose [simp]: "from_jose (as_jose a) = Inr a"
  by (simp add: from_jose_iff)

subsection \<open>UTF-8\<close>

text \<open>
  A Rust string is its UTF-8 bytes, here a list of 8-bit characters; \<open>utf8\<close> of the prelude is
  \<^verbatim>\<open>as_bytes\<close>. \<open>from_utf8\<close> is \<^verbatim>\<open>String::from_utf8\<close>, with the standard's table of well-formed sequences.
\<close>

definition cont :: "byte \<Rightarrow> bool" where
  "cont b \<longleftrightarrow> 0x80 \<le> b \<and> b \<le> 0xBF"

definition utf8_len :: "byte \<Rightarrow> nat" where
  "utf8_len b = (if b < 0x80 then 1 else if b < 0xC2 then 0 else if b < 0xE0 then 2
     else if b < 0xF0 then 3 else if b < 0xF5 then 4 else 0)"

definition second_ok :: "byte \<Rightarrow> byte \<Rightarrow> bool" where
  "second_ok b c \<longleftrightarrow> cont c \<and> (b = 0xE0 \<longrightarrow> 0xA0 \<le> c) \<and> (b = 0xED \<longrightarrow> c \<le> 0x9F)
     \<and> (b = 0xF0 \<longrightarrow> 0x90 \<le> c) \<and> (b = 0xF4 \<longrightarrow> c \<le> 0x8F)"

function utf8_valid :: "bytes \<Rightarrow> bool" where
  "utf8_valid [] = True"
| "utf8_valid (b # bs) =
     (let n = utf8_len b
      in n \<noteq> 0 \<and> length bs \<ge> n - 1
         \<and> (n > 1 \<longrightarrow> second_ok b (hd bs)) \<and> list_all cont (take (n - 1) bs)
         \<and> utf8_valid (drop (n - 1) bs))"
  by pat_completeness auto
termination
  by (relation "measure length") auto

definition of_utf8 :: "bytes \<Rightarrow> string" where
  "of_utf8 bs = map (\<lambda>b. char_of (unat b)) bs"

definition from_utf8 :: "bytes \<Rightarrow> string option" where
  "from_utf8 bs = (if utf8_valid bs then Some (of_utf8 bs) else None)"

lemma of_utf8_utf8 [simp]: "of_utf8 (utf8 s) = s"
proof -
  have "char_of (unat (of_nat (of_char c) :: byte)) = c" for c
    by (simp add: unat_of_nat)
  then show ?thesis by (simp add: of_utf8_def utf8_def o_def)
qed

lemma from_utf8_utf8: "utf8_valid (utf8 s) \<Longrightarrow> from_utf8 (utf8 s) = Some s"
  by (simp add: from_utf8_def)

subsection \<open>The third-party interface\<close>

record crypto_lib =
  sha256_digest :: "bytes \<Rightarrow> bytes"
  gcm_encrypt :: "bytes \<Rightarrow> bytes \<Rightarrow> bytes \<Rightarrow> bytes \<Rightarrow> bytes option"
  gcm_decrypt :: "bytes \<Rightarrow> bytes \<Rightarrow> bytes \<Rightarrow> bytes \<Rightarrow> bytes option"
  hkdf_expand :: "bytes \<Rightarrow> bytes \<Rightarrow> bytes \<Rightarrow> nat \<Rightarrow> bytes option"
  kw_wrap :: "bytes \<Rightarrow> bytes \<Rightarrow> bytes option"
  kw_unwrap :: "bytes \<Rightarrow> bytes \<Rightarrow> bytes option"
  hmac_tag :: "bytes \<Rightarrow> bytes \<Rightarrow> bytes"
  b64_encode :: "bytes \<Rightarrow> string"
  b64_decode :: "string \<Rightarrow> bytes option"
  hex_encode :: "bytes \<Rightarrow> string"
  hex_decode :: "string \<Rightarrow> bytes option"
  p256_decode :: "bytes \<Rightarrow> bytes option"
  p256_scalar :: "bytes \<Rightarrow> bool"
  p256_public :: "bytes \<Rightarrow> bytes"
  p256_ecdh :: "bytes \<Rightarrow> bytes \<Rightarrow> bytes"
  spki_der_of :: "bytes \<Rightarrow> bytes option"
  ecdsa_sign :: "bytes \<Rightarrow> bytes \<Rightarrow> bytes"
  ecdsa_verify :: "bytes \<Rightarrow> bytes \<Rightarrow> bytes \<Rightarrow> bool"
  sig_from_slice :: "bytes \<Rightarrow> bytes option"
  sig_from_der :: "bytes \<Rightarrow> bytes option"
  sig_to_der :: "bytes \<Rightarrow> bytes"
  vrf_public :: "bytes \<Rightarrow> bytes option"
  vrf_prove :: "bytes \<Rightarrow> bytes \<Rightarrow> bytes"
  vrf_key_ok :: "bytes \<Rightarrow> bool"
  vrf_proof_ok :: "bytes \<Rightarrow> bool"
  vrf_check :: "bytes \<Rightarrow> bytes \<Rightarrow> bytes \<Rightarrow> bytes option"

definition hash32 :: "hasher \<Rightarrow> bool" where
  "hash32 sha \<longleftrightarrow> (\<forall>x. length (sha x) = 32)"

definition gcm_correct :: "crypto_lib \<Rightarrow> bool" where
  "gcm_correct E \<longleftrightarrow> (\<forall>k n m a c. gcm_encrypt E k n m a = Some c \<longrightarrow>
     gcm_decrypt E k n c a = Some m \<and> length c = length m + 16)"

definition kw_correct :: "crypto_lib \<Rightarrow> bool" where
  "kw_correct E \<longleftrightarrow> (\<forall>k m w. kw_wrap E k m = Some w \<longrightarrow>
     kw_unwrap E k w = Some m \<and> length w = length m + 8)"

definition hkdf_sized :: "crypto_lib \<Rightarrow> bool" where
  "hkdf_sized E \<longleftrightarrow> (\<forall>ikm salt info n out. hkdf_expand E ikm salt info n = Some out \<longrightarrow> length out = n)"

definition b64_correct :: "crypto_lib \<Rightarrow> bool" where
  "b64_correct E \<longleftrightarrow> (\<forall>x. b64_decode E (b64_encode E x) = Some x)"

definition hex_correct :: "crypto_lib \<Rightarrow> bool" where
  "hex_correct E \<longleftrightarrow> (\<forall>x. hex_decode E (hex_encode E x) = Some x
     \<and> set (hex_encode E x) \<subseteq> set ''0123456789abcdef'')"

definition p256_correct :: "crypto_lib \<Rightarrow> bool" where
  "p256_correct E \<longleftrightarrow>
     (\<forall>x p. p256_decode E x = Some p \<longrightarrow>
        length p = 65 \<and> hd p = 0x04 \<and> p256_decode E p = Some p) \<and>
     (\<forall>x p. length x = 65 \<and> hd x = 0x04 \<and> p256_decode E x = Some p \<longrightarrow> p = x) \<and>
     (\<forall>s. p256_scalar E s \<longrightarrow> p256_decode E (p256_public E s) = Some (p256_public E s)) \<and>
     (\<forall>s t. p256_scalar E s \<and> p256_scalar E t \<longrightarrow>
        p256_ecdh E s (p256_public E t) = p256_ecdh E t (p256_public E s))"

definition ecdsa_correct :: "crypto_lib \<Rightarrow> bool" where
  "ecdsa_correct E \<longleftrightarrow>
     (\<forall>s m. p256_scalar E s \<longrightarrow> length (ecdsa_sign E s m) = 64 \<and>
        sig_from_slice E (ecdsa_sign E s m) = Some (ecdsa_sign E s m) \<and>
        ecdsa_verify E (p256_public E s) m (ecdsa_sign E s m)) \<and>
     (\<forall>x sg. sig_from_slice E x = Some sg \<longrightarrow> sig_from_der E (sig_to_der E sg) = Some sg)"

lemma b64_roundtrip [simp]: "b64_correct E \<Longrightarrow> b64_decode E (b64_encode E x) = Some x"
  by (simp add: b64_correct_def)

lemma b64_encode_inj: "b64_correct E \<Longrightarrow> b64_encode E x = b64_encode E y \<longleftrightarrow> x = y"
  by (metis b64_roundtrip option.inject)

lemma hex_encode_inj: "hex_correct E \<Longrightarrow> hex_encode E x = hex_encode E y \<longleftrightarrow> x = y"
  by (metis hex_correct_def option.inject)

subsection \<open>The wrappers\<close>

definition sha256 :: "crypto_lib \<Rightarrow> bytes \<Rightarrow> bytes" where
  "sha256 E input = sha256_digest E input"

definition seal :: "crypto_lib \<Rightarrow> bytes \<Rightarrow> bytes \<Rightarrow> bytes \<Rightarrow> bytes \<Rightarrow> bytes crypto_result" where
  "seal E key nonce plaintext aad =
     ok_or (InvalidInput ''aes-256-gcm seal'') (gcm_encrypt E key nonce plaintext aad)"

definition open_sealed :: "crypto_lib \<Rightarrow> bytes \<Rightarrow> bytes \<Rightarrow> bytes \<Rightarrow> bytes \<Rightarrow> bytes crypto_result" where
  "open_sealed E key nonce ciphertext_and_tag aad =
     ok_or Authentication (gcm_decrypt E key nonce ciphertext_and_tag aad)"

definition hkdf_sha256 :: "crypto_lib \<Rightarrow> bytes \<Rightarrow> bytes \<Rightarrow> bytes \<Rightarrow> nat \<Rightarrow> bytes crypto_result" where
  "hkdf_sha256 E ikm salt info out_len =
     ok_or (InvalidInput ''hkdf output length'') (hkdf_expand E ikm salt info out_len)"

definition keywrap_wrap :: "crypto_lib \<Rightarrow> bytes \<Rightarrow> bytes \<Rightarrow> bytes crypto_result" where
  "keywrap_wrap E kek key_data =
     (if length key_data < 16 \<or> length key_data mod 8 \<noteq> 0
      then Inl (InvalidInput ''aes-kw key_data length'')
      else ok_or (InvalidInput ''aes-kw wrap'') (kw_wrap E kek key_data))"

definition keywrap_unwrap :: "crypto_lib \<Rightarrow> bytes \<Rightarrow> bytes \<Rightarrow> bytes crypto_result" where
  "keywrap_unwrap E kek wrapped =
     (if length wrapped < 24 \<or> length wrapped mod 8 \<noteq> 0
      then Inl (InvalidInput ''aes-kw wrapped length'')
      else ok_or Authentication (kw_unwrap E kek wrapped))"

definition hmac_sha256 :: "crypto_lib \<Rightarrow> bytes \<Rightarrow> bytes \<Rightarrow> bytes" where
  "hmac_sha256 E key msg = hmac_tag E key msg"

definition verify_sha256 :: "crypto_lib \<Rightarrow> bytes \<Rightarrow> bytes \<Rightarrow> bytes \<Rightarrow> bool" where
  "verify_sha256 E key msg tag \<longleftrightarrow> tag = hmac_tag E key msg"

definition ecdh_p256 :: "crypto_lib \<Rightarrow> bytes \<Rightarrow> bytes \<Rightarrow> bytes crypto_result" where
  "ecdh_p256 E scalar peer =
     rbind (guard (p256_scalar E scalar) (InvalidInput ''ecdh secret scalar'')) (\<lambda>_.
     rbind (ok_or (InvalidInput ''ecdh peer public key'') (p256_decode E peer)) (\<lambda>point.
     Inr (p256_ecdh E scalar point)))"

definition fingerprint :: "crypto_lib \<Rightarrow> bytes \<Rightarrow> string crypto_result" where
  "fingerprint E pubkey_x963 =
     rbind (ok_or (InvalidInput ''fingerprint public key'') (p256_decode E pubkey_x963)) (\<lambda>key.
     rbind (ok_or (InvalidInput ''spki der encoding'') (spki_der_of E key)) (\<lambda>der.
     Inr (hex_encode E (sha256 E der))))"

definition fingerprint_raw :: "crypto_lib \<Rightarrow> bytes \<Rightarrow> string" where
  "fingerprint_raw E public_key = hex_encode E (sha256 E public_key)"

subsection \<open>Signatures\<close>

text \<open>\<^verbatim>\<open>ecdsa.rs\<close>. A parsed signature is represented by its 64-byte form \<^verbatim>\<open>r || s\<close>.\<close>

definition sign_es256 :: "crypto_lib \<Rightarrow> bytes \<Rightarrow> bytes \<Rightarrow> bytes crypto_result" where
  "sign_es256 E secret_scalar msg =
     rbind (guard (p256_scalar E secret_scalar) (InvalidInput ''es256 secret scalar'')) (\<lambda>_.
     Inr (ecdsa_sign E secret_scalar msg))"

definition sig_raw_to_der :: "crypto_lib \<Rightarrow> bytes \<Rightarrow> bytes crypto_result" where
  "sig_raw_to_der E raw =
     rbind (ok_or (InvalidInput ''es256 raw r||s'') (sig_from_slice E raw)) (\<lambda>signature.
     Inr (sig_to_der E signature))"

definition sig_der_to_raw :: "crypto_lib \<Rightarrow> bytes \<Rightarrow> bytes crypto_result" where
  "sig_der_to_raw E der = ok_or (InvalidInput ''es256 DER'') (sig_from_der E der)"

definition parse_signature :: "crypto_lib \<Rightarrow> bytes \<Rightarrow> bytes crypto_result" where
  "parse_signature E sig =
     (if length sig = 64 then ok_or (InvalidInput ''es256 raw r||s'') (sig_from_slice E sig)
      else if length sig \<le> 72 then ok_or (InvalidInput ''es256 DER'') (sig_from_der E sig)
      else Inl (InvalidInput ''es256 signature length''))"

definition verify_es256 :: "crypto_lib \<Rightarrow> bytes \<Rightarrow> bytes \<Rightarrow> bytes \<Rightarrow> unit crypto_result" where
  "verify_es256 E pubkey_x963 msg sig =
     rbind (ok_or (InvalidInput ''es256 public key'') (p256_decode E pubkey_x963)) (\<lambda>vk.
     rbind (parse_signature E sig) (\<lambda>signature.
     guard (ecdsa_verify E vk msg signature) SignatureInvalid))"

lemma sign_verify:
  assumes "p256_correct E" "ecdsa_correct E" "sign_es256 E s m = Inr sig"
  shows "verify_es256 E (p256_public E s) m sig = Inr ()" "length sig = 64"
proof -
  have s: "p256_scalar E s" and sig: "sig = ecdsa_sign E s m"
    using assms(3) by (auto simp: sign_es256_def result_simps)
  have "length sig = 64 \<and> sig_from_slice E sig = Some sig \<and> ecdsa_verify E (p256_public E s) m sig"
    using assms(2) s by (simp add: ecdsa_correct_def sig)
  moreover have "p256_decode E (p256_public E s) = Some (p256_public E s)"
    using assms(1) s by (simp add: p256_correct_def)
  ultimately show "verify_es256 E (p256_public E s) m sig = Inr ()" "length sig = 64"
    by (simp_all add: verify_es256_def parse_signature_def)
qed

lemma der_roundtrip:
  assumes "ecdsa_correct E" "sig_from_slice E raw = Some raw" "sig_raw_to_der E raw = Inr der"
  shows "sig_der_to_raw E der = Inr raw"
  using assms by (auto simp: sig_raw_to_der_def sig_der_to_raw_def ecdsa_correct_def result_simps)

lemma seal_open:
  assumes "gcm_correct E" "seal E k n m a = Inr c"
  shows "open_sealed E k n c a = Inr m" "length c = length m + 16"
  using assms by (auto simp: seal_def open_sealed_def gcm_correct_def result_simps)

lemma keywrap_roundtrip:
  assumes "kw_correct E" "keywrap_wrap E k m = Inr w"
  shows "keywrap_unwrap E k w = Inr m" "length w = length m + 8"
  using assms
  by (auto simp: keywrap_wrap_def keywrap_unwrap_def kw_correct_def result_simps split: if_splits)

subsection \<open>A concrete library\<close>

text \<open>
  A small library that satisfies all the laws, used to evaluate theorems at concrete inputs: sealing
  appends a 16-byte tag cut from the associated data and the nonce, wrapping appends 8 bytes of the
  key, and the text encodings map bytes to characters one to one. It is not a model of the crates.
\<close>

definition pad :: "nat \<Rightarrow> bytes \<Rightarrow> bytes" where
  "pad n x = take n (x @ replicate n 0)"

definition demo_hash :: hasher where
  "demo_hash x = pad 32 x"

definition demo_tag :: "bytes \<Rightarrow> bytes \<Rightarrow> bytes \<Rightarrow> bytes" where
  "demo_tag k n a = pad 16 (rev a @ rev n @ k)"

definition split_tag :: "nat \<Rightarrow> bytes \<Rightarrow> bytes \<Rightarrow> bytes option" where
  "split_tag t tag c =
     (if t \<le> length c \<and> drop (length c - t) c = tag then Some (take (length c - t) c) else None)"

definition hex_digit :: "nat \<Rightarrow> char" where
  "hex_digit n = ''0123456789abcdef'' ! n"

definition hex_value :: "char \<Rightarrow> nat" where
  "hex_value c = length (takeWhile (\<lambda>d. d \<noteq> c) ''0123456789abcdef'')"

definition demo_hex :: "bytes \<Rightarrow> string" where
  "demo_hex x = concat (map (\<lambda>b. [hex_digit (unat b div 16), hex_digit (unat b mod 16)]) x)"

fun demo_unhex :: "string \<Rightarrow> bytes option" where
  "demo_unhex [] = Some []"
| "demo_unhex [c] = None"
| "demo_unhex (c # d # s) =
     (if hex_value c < 16 \<and> hex_value d < 16
      then map_option (Cons (of_nat (16 * hex_value c + hex_value d))) (demo_unhex s) else None)"

definition demo_lib :: crypto_lib where
  "demo_lib =
     \<lparr> sha256_digest = demo_hash,
       gcm_encrypt = (\<lambda>k n m a. Some (m @ demo_tag k n a)),
       gcm_decrypt = (\<lambda>k n c a. split_tag 16 (demo_tag k n a) c),
       hkdf_expand = (\<lambda>ikm salt info n. Some (pad n (rev info @ ikm))),
       kw_wrap = (\<lambda>k m. Some (m @ pad 8 k)),
       kw_unwrap = (\<lambda>k w. split_tag 8 (pad 8 k) w),
       hmac_tag = (\<lambda>k m. demo_hash (k @ m)),
       b64_encode = of_utf8, b64_decode = (\<lambda>s. Some (utf8 s)),
       hex_encode = demo_hex, hex_decode = demo_unhex,
       p256_decode = (\<lambda>x. if length x = 65 \<and> hd x = 0x04 then Some x else None),
       p256_scalar = (\<lambda>s. length s = 32),
       p256_public = (\<lambda>s. 0x04 # pad 64 s),
       p256_ecdh = (\<lambda>s p. map2 (+) s (take 32 (tl p))),
       spki_der_of = (\<lambda>p. Some p),
       ecdsa_sign = (\<lambda>s m. pad 64 (s @ m)),
       ecdsa_verify = (\<lambda>pk m sig. sig = pad 64 (take 32 (tl pk) @ m)),
       sig_from_slice = (\<lambda>x. if length x = 64 then Some x else None),
       sig_from_der = (\<lambda>x. if length x = 65 \<and> hd x = 0x30 then Some (tl x) else None),
       sig_to_der = (\<lambda>sg. 0x30 # sg),
       vrf_public = (\<lambda>s. Some s),
       vrf_prove = (\<lambda>s a. pad 80 (s @ a)),
       vrf_key_ok = (\<lambda>_. True), vrf_proof_ok = (\<lambda>_. True),
       vrf_check = (\<lambda>pk a p. if p = pad 80 (pk @ a) then Some (take 64 (drop 32 p)) else None) \<rparr>"

lemma length_pad [simp]: "length (pad n x) = n"
  by (auto simp: pad_def)

lemma take_pad: "length x = m \<Longrightarrow> m \<le> n \<Longrightarrow> take m (pad n x) = x"
  by (simp add: pad_def)

lemma split_tag_append [simp]: "length tag = t \<Longrightarrow> split_tag t tag (m @ tag) = Some m"
  by (simp add: split_tag_def)

lemma utf8_of_utf8 [simp]: "utf8 (of_utf8 x) = x"
proof -
  have "(of_nat (of_char (char_of (unat b))) :: byte) = b" for b :: byte
    using unsigned_less [of b, where ?'a = nat] by simp
  then show ?thesis by (simp add: utf8_def of_utf8_def o_def)
qed

lemma hex_value_digit: "n < 16 \<Longrightarrow> hex_value (hex_digit n) = n \<and> hex_digit n \<in> set ''0123456789abcdef''"
proof -
  have "list_all (\<lambda>n. hex_value (hex_digit n) = n \<and> hex_digit n \<in> set ''0123456789abcdef'') [0..<16]"
    by code_simp
  then show "n < 16 \<Longrightarrow> ?thesis" by (simp add: list_all_iff)
qed

lemma demo_unhex_hex: "demo_unhex (demo_hex x) = Some x \<and> set (demo_hex x) \<subseteq> set ''0123456789abcdef''"
proof (induction x)
  case (Cons b x)
  have "unat b < 256" using unsigned_less [of b, where ?'a = nat] by simp
  then have "unat b div 16 < 16" "unat b mod 16 < 16" by auto
  note hex_value_digit [OF this(1)] hex_value_digit [OF this(2)]
  with Cons \<open>unat b div 16 < 16\<close> show ?case by (simp add: demo_hex_def)
qed (simp add: demo_hex_def)

lemma demo_hash32: "hash32 demo_hash"
  by (simp add: hash32_def demo_hash_def)

lemma sha256_demo_lib [simp]: "sha256 demo_lib x = demo_hash x"
  by (simp add: sha256_def demo_lib_def)

lemma demo_lib_correct:
  "hash32 (sha256_digest demo_lib)" "gcm_correct demo_lib" "kw_correct demo_lib" "hkdf_sized demo_lib"
  "b64_correct demo_lib" "hex_correct demo_lib"
proof -
  show "hash32 (sha256_digest demo_lib)" by (simp add: demo_lib_def demo_hash32)
  show "gcm_correct demo_lib" by (simp add: gcm_correct_def demo_lib_def demo_tag_def)
  show "kw_correct demo_lib" by (simp add: kw_correct_def demo_lib_def)
  show "hkdf_sized demo_lib" by (auto simp: hkdf_sized_def demo_lib_def)
  show "b64_correct demo_lib" "hex_correct demo_lib"
    using demo_unhex_hex by (simp_all add: b64_correct_def hex_correct_def demo_lib_def)
qed

lemma demo_p256_correct: "p256_correct demo_lib"
proof -
  have "map2 (+) s (take 32 t) = map2 (+) t (take 32 s)"
    if "length s = 32" "length t = 32" for s t :: bytes
    using that by (simp add: list_eq_iff_nth_eq add.commute)
  then show ?thesis by (auto simp: p256_correct_def demo_lib_def take_pad)
qed

lemma demo_ecdsa_correct: "ecdsa_correct demo_lib"
  by (auto simp: ecdsa_correct_def demo_lib_def take_pad)

end
