(* ===== verification/Merkle_Proofs.thy ===== *)
theory Merkle_Proofs
  imports Merkle_Paths Crypto_Base
begin

section \<open>Correctness of the log's proofs\<close>

text \<open>
  Completeness and soundness of the inclusion and consistency proofs of \<^verbatim>\<open>crypto/src/merkle.rs\<close>.
  Completeness (the prover's output is accepted) needs nothing of the hash. Soundness (only the
  prover's output is accepted, and it is about the log that has the given root) needs 32-byte
  outputs and no collision among the inputs that building the tree and checking the proof hash;
  \<open>tree_preimages\<close>, \<open>inclusion_preimages\<close> and \<open>consistency_preimages\<close> list those inputs.
\<close>

subsection \<open>Splitting directions at the split point\<close>

lemma split_top:
  assumes "2 \<le> n" "split_point n = 2 ^ j" "2 ^ j < n" "n \<le> 2 * 2 ^ j"
  shows "(n - 1) div 2 ^ j = 1"
proof -
  have "2 ^ j \<le> n - 1" "n - 1 < 2 * 2 ^ j" using assms by linarith+
  then show ?thesis by (simp add: div_nat_eqI)
qed

lemma turns_split_left:
  assumes "2 \<le> n" "i < split_point n"
  shows "turns i (n - 1) = turns i (split_point n - 1) @ [False]"
    and "aligned_turns i (n - 1) = aligned_turns i (split_point n - 1) @ [False]"
proof -
  obtain j where j: "split_point n = 2 ^ j" "2 ^ j < n" "n \<le> 2 * 2 ^ j"
    using assms(1) by (rule split_point_spec)
  with split_top assms have "i < 2 ^ j" "(n - 1) div 2 ^ j = 1" by simp_all
  with j show "turns i (n - 1) = turns i (split_point n - 1) @ [False]"
    and "aligned_turns i (n - 1) = aligned_turns i (split_point n - 1) @ [False]"
    by (simp_all only: turns_left aligned_turns_left)
qed

lemma turns_split_right:
  assumes "2 \<le> n" "split_point n \<le> i" "i < n"
  shows "turns i (n - 1) = turns (i - split_point n) (n - split_point n - 1) @ [True]"
proof -
  obtain j where j: "split_point n = 2 ^ j" "2 ^ j < n" "n \<le> 2 * 2 ^ j"
    using assms(1) by (rule split_point_spec)
  then have "n - split_point n - 1 < 2 ^ j" using assms by linarith
  then show ?thesis
    using turns_right [of "i - split_point n" "n - split_point n - 1" j] j assms by simp
qed

lemma aligned_turns_split_right:
  assumes "2 \<le> n" "split_point n \<le> i" "i < n - 1"
  shows "aligned_turns i (n - 1)
       = aligned_turns (i - split_point n) (n - split_point n - 1) @ [True]"
proof -
  obtain j where j: "split_point n = 2 ^ j" "2 ^ j < n" "n \<le> 2 * 2 ^ j"
    using assms(1) by (rule split_point_spec)
  then have "n - split_point n - 1 < 2 ^ j" using assms by linarith
  then show ?thesis
    using aligned_turns_right [of "i - split_point n" "n - split_point n - 1" j] j assms by simp
qed

lemma split_point_prefix:
  assumes "2 \<le> n" "split_point n < m" "m \<le> n"
  shows "split_point m = split_point n"
proof -
  obtain j where j: "split_point n = 2 ^ j" "2 ^ j < n" "n \<le> 2 * 2 ^ j"
    using assms(1) by (rule split_point_spec)
  have "2 \<le> m" using assms split_point_pos [of n] by linarith
  then obtain i where i: "split_point m = 2 ^ i" "2 ^ i < m" "m \<le> 2 * 2 ^ i"
    by (rule split_point_spec)
  have "(2 :: nat) ^ i < 2 ^ Suc j" "(2 :: nat) ^ j < 2 ^ Suc i"
    using i j assms unfolding power_Suc by linarith+
  then have "i < Suc j" "j < Suc i" by (simp_all only: power_strict_increasing_iff [of 2] one_less_numeral_iff semiring_norm)
  then have "i = j" by simp
  with i j show ?thesis by simp
qed

subsection \<open>Paths of an abstract tree\<close>

function path_to :: "('e list \<Rightarrow> 'h) \<Rightarrow> 'e list \<Rightarrow> nat \<Rightarrow> 'h list" where
  "path_to tree es i =
     (if length es \<le> 1 then []
      else let k = split_point (length es)
           in if i < k then path_to tree (take k es) i @ [tree (drop k es)]
              else path_to tree (drop k es) (i - k) @ [tree (take k es)])"
  by pat_completeness auto
termination
  by (relation "measure (\<lambda>(tree, es, i). length es)") (auto simp: split_shrinks not_le)

function full_path :: "('e list \<Rightarrow> 'h) \<Rightarrow> nat \<Rightarrow> 'e list \<Rightarrow> 'h list" where
  "full_path tree m es =
     (if m = length es \<or> length es \<le> 1 then [tree es]
      else let k = split_point (length es)
           in if m \<le> k then full_path tree m (take k es) @ [tree (drop k es)]
              else full_path tree (m - k) (drop k es) @ [tree (take k es)])"
  by pat_completeness auto
termination
  by (relation "measure (\<lambda>(tree, m, es). length es)") (auto simp: split_shrinks not_le)

function tree_joins :: "('e list \<Rightarrow> 'h) \<Rightarrow> 'e list \<Rightarrow> ('h \<times> 'h) list" where
  "tree_joins tree es =
     (if length es \<le> 1 then []
      else let k = split_point (length es)
           in (tree (take k es), tree (drop k es))
                # tree_joins tree (take k es) @ tree_joins tree (drop k es))"
  by pat_completeness auto
termination
  by (relation "measure (\<lambda>(tree, es). length es)") (auto simp: split_shrinks not_le)

declare path_to.simps [simp del] full_path.simps [simp del] tree_joins.simps [simp del]

lemma full_path_not_Nil [simp]: "full_path tree m es \<noteq> []"
  by (subst full_path.simps) (simp add: Let_def)

lemma full_path_self [simp]: "m = length es \<Longrightarrow> full_path tree m es = [tree es]"
  by (subst full_path.simps) simp

lemma path_to_split:
  assumes "2 \<le> length es"
  shows "i < split_point (length es) \<Longrightarrow> path_to tree es i
      = path_to tree (take (split_point (length es)) es) i @ [tree (drop (split_point (length es)) es)]"
    and "\<not> i < split_point (length es) \<Longrightarrow> path_to tree es i
      = path_to tree (drop (split_point (length es)) es) (i - split_point (length es))
        @ [tree (take (split_point (length es)) es)]"
  using assms by (subst path_to.simps; simp add: Let_def)+

lemma full_path_split:
  assumes "2 \<le> length es" "m \<noteq> length es"
  shows "m \<le> split_point (length es) \<Longrightarrow> full_path tree m es
      = full_path tree m (take (split_point (length es)) es) @ [tree (drop (split_point (length es)) es)]"
    and "\<not> m \<le> split_point (length es) \<Longrightarrow> full_path tree m es
      = full_path tree (m - split_point (length es)) (drop (split_point (length es)) es)
        @ [tree (take (split_point (length es)) es)]"
  using assms by (subst full_path.simps; simp add: Let_def)+

lemma tree_joins_split:
  "2 \<le> length es \<Longrightarrow> tree_joins tree es =
     (tree (take (split_point (length es)) es), tree (drop (split_point (length es)) es))
       # tree_joins tree (take (split_point (length es)) es)
       @ tree_joins tree (drop (split_point (length es)) es)"
  by (subst tree_joins.simps) (simp add: Let_def)

lemma split_not_Nil:
  assumes "2 \<le> length es"
  shows "take (split_point (length es)) es \<noteq> []" "drop (split_point (length es)) es \<noteq> []"
proof -
  show "take (split_point (length es)) es \<noteq> []"
    using split_point_pos [OF assms] assms by (cases es) auto
  show "drop (split_point (length es)) es \<noteq> []"
    using split_point_less [OF assms] by (simp only: drop_eq_Nil not_le)
qed

lemma log_induct [case_names empty single split]:
  assumes "P []" "\<And>e. P [e]"
    and "\<And>es. 2 \<le> length es \<Longrightarrow> P (take (split_point (length es)) es)
          \<Longrightarrow> P (drop (split_point (length es)) es) \<Longrightarrow> P es"
  shows "P es"
proof (induction es rule: length_induct)
  case (1 es)
  consider "es = []" | e where "es = [e]" | "2 \<le> length es"
    by (cases es rule: list.exhaust; cases "tl es") auto
  then show ?case
  proof cases
    case 3
    then have "length (take (split_point (length es)) es) < length es"
      "length (drop (split_point (length es)) es) < length es"
      using split_point_pos [OF 3] split_point_less [OF 3] by (simp, simp)
    with 1 assms(3) [OF 3] show ?thesis by blast
  qed (use assms(1,2) in auto)
qed

subsection \<open>What the paths lead to\<close>

locale merkle_hashing =
  fixes leaf :: "'e \<Rightarrow> 'h" and node :: "'h \<Rightarrow> 'h \<Rightarrow> 'h" and tree :: "'e list \<Rightarrow> 'h"
  assumes tree_single: "tree [e] = leaf e"
    and tree_split: "2 \<le> length es \<Longrightarrow>
      tree es = node (tree (take (split_point (length es)) es)) (tree (drop (split_point (length es)) es))"
begin

lemma climb_path:
  "i < length es \<Longrightarrow>
     length (path_to tree es i) = length (turns i (length es - 1)) \<and>
     climb node (leaf (es ! i)) (turns i (length es - 1)) (path_to tree es i) = tree es \<and>
     set (joins node (leaf (es ! i)) (turns i (length es - 1)) (path_to tree es i))
       \<subseteq> set (tree_joins tree es)"
proof (induction es arbitrary: i rule: log_induct)
  case empty
  then show ?case by simp
next
  case (single e)
  then show ?case by (simp add: path_to.simps tree_single)
next
  case (split es)
  let ?k = "split_point (length es)"
  have k: "0 < ?k" "?k < length es" using split.hyps by simp_all
  show ?case
  proof (cases "i < ?k")
    case True
    with split.IH(1) [of i] k
    have IH: "length (path_to tree (take ?k es) i) = length (turns i (?k - 1))"
        "climb node (leaf (es ! i)) (turns i (?k - 1)) (path_to tree (take ?k es) i) = tree (take ?k es)"
        "set (joins node (leaf (es ! i)) (turns i (?k - 1)) (path_to tree (take ?k es) i))
          \<subseteq> set (tree_joins tree (take ?k es))"
      by simp_all
    with True split.hyps show ?thesis
      by (auto simp: path_to_split turns_split_left [simplified] climb_snoc joins_snoc tree_joins_split [OF split.hyps]
        tree_split [OF split.hyps])
  next
    case False
    with split.IH(2) [of "i - ?k"] split.prems k
    have IH: "length (path_to tree (drop ?k es) (i - ?k)) = length (turns (i - ?k) (length es - ?k - 1))"
        "climb node (leaf (es ! i)) (turns (i - ?k) (length es - ?k - 1)) (path_to tree (drop ?k es) (i - ?k))
          = tree (drop ?k es)"
        "set (joins node (leaf (es ! i)) (turns (i - ?k) (length es - ?k - 1))
            (path_to tree (drop ?k es) (i - ?k))) \<subseteq> set (tree_joins tree (drop ?k es))"
      by simp_all
    have "turns i (length es - 1) = turns (i - ?k) (length es - ?k - 1) @ [True]"
      using False split.hyps split.prems by (intro turns_split_right) auto
    with False IH split.hyps show ?thesis
      by (auto simp: path_to_split climb_snoc joins_snoc tree_joins_split [OF split.hyps]
        tree_split [OF split.hyps])
  qed
qed

lemma climb_full:
  "0 < m \<Longrightarrow> m \<le> length es \<Longrightarrow> m < length es \<or> (\<exists>t. length es = 2 ^ t) \<Longrightarrow>
     length (tl (full_path tree m es)) = length (aligned_turns (m - 1) (length es - 1)) \<and>
     climb node (hd (full_path tree m es)) (aligned_turns (m - 1) (length es - 1))
       (tl (full_path tree m es)) = tree es \<and>
     climb_old node (hd (full_path tree m es)) (aligned_turns (m - 1) (length es - 1))
       (tl (full_path tree m es)) = tree (take m es) \<and>
     set (joins node (hd (full_path tree m es)) (aligned_turns (m - 1) (length es - 1))
       (tl (full_path tree m es))) \<subseteq> set (tree_joins tree es)"
proof (induction es arbitrary: m rule: log_induct)
  case empty
  then show ?case by simp
next
  case (single e)
  then show ?case using aligned_turns_full [of 0] by simp
next
  case (split es)
  let ?n = "length es" and ?k = "split_point (length es)"
  have k: "0 < ?k" "?k < ?n" using split.hyps by simp_all
  have pow: "\<exists>t. ?k = 2 ^ t" using split.hyps by (auto elim: split_point_spec)
  consider "m = ?n" | "m \<noteq> ?n" "m \<le> ?k" | "m \<noteq> ?n" "?k < m" by linarith
  then show ?case
  proof cases
    case 1
    with split.prems(3) aligned_turns_full show ?thesis by auto
  next
    case 2
    have fp: "full_path tree m es = full_path tree m (take ?k es) @ [tree (drop ?k es)]"
      using 2 split.hyps by (simp add: full_path_split)
    have at: "aligned_turns (m - 1) (?n - 1) = aligned_turns (m - 1) (?k - 1) @ [False]"
      using 2 split.hyps split.prems by (intro turns_split_left) auto
    from split.IH(1) [of m] 2 k pow split.prems(1) show ?thesis
      by (auto simp: fp at [simplified] climb_snoc climb_old_snoc joins_snoc tree_joins_split [OF split.hyps]
        tree_split [OF split.hyps] min_def)
  next
    case 3
    have fp: "full_path tree m es = full_path tree (m - ?k) (drop ?k es) @ [tree (take ?k es)]"
      using 3 split.hyps by (simp add: full_path_split)
    have at: "aligned_turns (m - 1) (?n - 1) = aligned_turns (m - ?k - 1) (?n - ?k - 1) @ [True]"
      using 3 split.hyps split.prems aligned_turns_split_right [of ?n "m - 1"] by (simp add: algebra_simps)
    have "split_point m = ?k" using 3 split.hyps split.prems by (intro split_point_prefix) auto
    then have prefix: "tree (take m es) = node (tree (take ?k es)) (tree (take (m - ?k) (drop ?k es)))"
      using tree_split [of "take m es"] 3 k split.prems by (simp add: min_def drop_take)
    have "0 < m - ?k" "m - ?k \<le> length (drop ?k es)" "m - ?k < length (drop ?k es)"
      using 3 k split.prems by auto
    then show ?thesis using split.IH(2) [of "m - ?k"]
      by (auto simp: fp at [simplified] climb_snoc climb_old_snoc joins_snoc tree_joins_split [OF split.hyps]
        tree_split [OF split.hyps] prefix)
  qed
qed

end

subsection \<open>The model's tree\<close>

lemma mth_single [simp]: "mth sha [e] = leaf_hash sha e"
  by (subst mth.simps) simp

lemma mth_split:
  "2 \<le> length es \<Longrightarrow> mth sha es =
     internal_hash sha (mth sha (take (split_point (length es)) es)) (mth sha (drop (split_point (length es)) es))"
  by (subst mth.simps) (auto simp: Let_def split: list.split)

interpretation log_tree: merkle_hashing "leaf_hash sha" "internal_hash sha" "mth sha" for sha
  by unfold_locales (simp_all add: mth_split)

lemma audit_path_path_to: "audit_path sha es i acc = acc @ path_to (mth sha) es i"
proof (induction es arbitrary: i acc rule: log_induct)
  case (split es)
  then show ?case by (subst audit_path.simps) (simp add: Let_def path_to_split)
qed (simp_all add: audit_path.simps path_to.simps)

lemma subproof_acc: "subproof sha m es b acc = acc @ subproof sha m es b []"
proof (induction es arbitrary: m b acc rule: log_induct)
  case (split es)
  let ?k = "split_point (length es)"
  from split.hyps show ?case
    by (subst (1 2) subproof.simps)
      (simp add: Let_def split.IH(1) [of m b acc] split.IH(2) [of "m - ?k" False acc])
qed (simp_all add: subproof.simps)

lemma subproof_full: "subproof sha m es False [] = full_path (mth sha) m es"
proof (induction es arbitrary: m rule: log_induct)
  case (split es)
  then show ?case by (subst subproof.simps) (simp add: Let_def full_path_split)
qed (simp_all add: subproof.simps full_path.simps)

lemma is_power_of_two_iff: "is_power_of_two m \<longleftrightarrow> (\<exists>t. m = 2 ^ t)"
proof (induction m rule: is_power_of_two.induct)
  case (1 m)
  show ?case
  proof (cases "m \<le> 1")
    case True
    then consider "m = 0" | "m = 1" by linarith
    then show ?thesis
      by cases (simp_all add: is_power_of_two.simps, rule exI [of _ 0], simp)
  next
    case False
    have "(\<exists>t. m = 2 ^ t) \<longleftrightarrow> even m \<and> (\<exists>t. m div 2 = 2 ^ t)"
    proof
      assume "\<exists>t. m = 2 ^ t"
      then obtain t where "m = 2 ^ t" ..
      with False show "even m \<and> (\<exists>t. m div 2 = 2 ^ t)" by (cases t) auto
    next
      assume "even m \<and> (\<exists>t. m div 2 = 2 ^ t)"
      then obtain t where "m = 2 * 2 ^ t" by auto
      then show "\<exists>t. m = 2 ^ t" by (intro exI [of _ "Suc t"]) simp
    qed
    with False 1 show ?thesis by (subst is_power_of_two.simps) simp
  qed
qed

lemma between_powers: "2 ^ j < m \<Longrightarrow> m < 2 * 2 ^ j \<Longrightarrow> \<not> is_power_of_two m"
proof
  assume *: "2 ^ j < m" "m < 2 * 2 ^ j" and "is_power_of_two m"
  then obtain t where "m = 2 ^ t" by (auto simp: is_power_of_two_iff)
  with * have "j < t" "t < Suc j"
    by (simp_all only: power_Suc [symmetric] power_strict_increasing_iff [of 2]
        one_less_numeral_iff semiring_norm)
  then show False by simp
qed

lemma subproof_known:
  "0 < m \<Longrightarrow> m \<le> length es \<Longrightarrow> m < length es \<or> is_power_of_two (length es) \<Longrightarrow>
     subproof sha m es True [] =
       (if is_power_of_two m then tl (full_path (mth sha) m es) else full_path (mth sha) m es)"
proof (induction es arbitrary: m rule: log_induct)
  case (split es)
  let ?n = "length es" and ?k = "split_point (length es)"
  obtain j where j: "?k = 2 ^ j" "2 ^ j < ?n" "?n \<le> 2 * 2 ^ j"
    using split.hyps by (rule split_point_spec)
  have pow: "is_power_of_two ?k" using j by (auto simp: is_power_of_two_iff)
  consider "m = ?n" | "m \<noteq> ?n" "m \<le> ?k" | "m \<noteq> ?n" "?k < m" by linarith
  then show ?case
  proof cases
    case 1
    with split.prems show ?thesis by (subst subproof.simps) simp
  next
    case 2
    have "subproof sha m (take ?k es) True [] = (if is_power_of_two m
        then tl (full_path (mth sha) m (take ?k es)) else full_path (mth sha) m (take ?k es))"
      using 2 j pow split.prems by (intro split.IH(1)) (simp_all add: min_def)
    with 2 split.hyps show ?thesis
      by (subst subproof.simps) (simp add: Let_def full_path_split)
  next
    case 3
    then have "\<not> is_power_of_two m" using between_powers [of j m] j split.prems by linarith
    with 3 split.hyps show ?thesis
      by (subst subproof.simps) (simp add: Let_def full_path_split subproof_full)
  qed
qed (simp_all add: subproof.simps is_power_of_two.simps)

lemma full_path_longer:
  "m < length es \<Longrightarrow> tl (full_path tree m es) \<noteq> [] \<or> length es \<le> 1"
proof -
  assume "m < length es"
  then have "\<exists>xs y. xs \<noteq> [] \<and> full_path tree m es = xs @ [y]" if "2 \<le> length es"
    using that by (cases "m \<le> split_point (length es)") (simp_all add: full_path_split)
  then show ?thesis by force
qed

subsection \<open>The hashed inputs\<close>

definition node_input :: "bytes \<times> bytes \<Rightarrow> bytes" where
  "node_input p = (case p of (l, r) \<Rightarrow> INTERNAL_PREFIX # l @ r)"

definition tree_preimages :: "hasher \<Rightarrow> bytes list \<Rightarrow> bytes list" where
  "tree_preimages sha es =
     (if es = [] then [[]]
      else map (\<lambda>e. LEAF_PREFIX # e) es @ map node_input (tree_joins (mth sha) es))"

definition inclusion_preimages :: "hasher \<Rightarrow> bytes \<Rightarrow> nat \<Rightarrow> nat \<Rightarrow> bytes list \<Rightarrow> bytes list" where
  "inclusion_preimages sha e i n proof =
     (LEAF_PREFIX # e) # map node_input (joins (internal_hash sha) (leaf_hash sha e) (turns i (n - 1)) proof)"

definition consistency_preimages ::
  "hasher \<Rightarrow> nat \<Rightarrow> nat \<Rightarrow> bytes \<Rightarrow> bytes list \<Rightarrow> bytes list" where
  "consistency_preimages sha m n first_hash proof =
     (let path = (if is_power_of_two m then [first_hash] else []) @ proof
      in map node_input (joins (internal_hash sha) (hd path) (aligned_turns (m - 1) (n - 1)) (tl path)))"

lemma internal_hash_node_input: "internal_hash sha l r = sha (node_input (l, r))"
  by (simp add: internal_hash_def node_input_def)

lemma length_hashes:
  assumes "hash32 sha"
  shows "length (leaf_hash sha e) = 32" "length (internal_hash sha l r) = 32"
    "es \<noteq> [] \<Longrightarrow> length (mth sha es) = 32"
proof -
  show *: "length (leaf_hash sha e) = 32" "length (internal_hash sha l r) = 32" for e l r
    using assms by (simp_all add: hash32_def leaf_hash_def internal_hash_def)
  show "es \<noteq> [] \<Longrightarrow> length (mth sha es) = 32"
  proof (induction es rule: log_induct)
    case (split es)
    show ?case by (simp add: mth_split [OF split.hyps] *)
  qed (simp_all add: *)
qed

lemma node_inj_on:
  assumes "inj_on sha (node_input ` P)" "\<And>l r. (l, r) \<in> P \<Longrightarrow> length l = 32"
  shows "inj_on (\<lambda>(l, r). internal_hash sha l r) P"
proof (rule inj_onI)
  fix x y assume *: "x \<in> P" "y \<in> P"
    "(case x of (l, r) \<Rightarrow> internal_hash sha l r) = (case y of (l, r) \<Rightarrow> internal_hash sha l r)"
  then have "sha (node_input x) = sha (node_input y)"
    by (cases x; cases y) (simp add: internal_hash_node_input)
  then have "node_input x = node_input y" using * assms(1) by (auto dest: inj_onD)
  with * assms(2) show "x = y" by (cases x; cases y) (force simp: node_input_def)
qed

lemma joins_length32:
  assumes "hash32 sha" "length r = 32" "\<forall>h \<in> set ps. length h = 32"
    "(a, b) \<in> set (joins (internal_hash sha) r ds ps)"
  shows "length a = 32"
  using assms(2-)
  by (induction "internal_hash sha" r ds ps rule: joins.induct)
    (auto simp: length_hashes [OF assms(1)] split: if_splits)

lemma tree_joins_length32:
  "hash32 sha \<Longrightarrow> (a, b) \<in> set (tree_joins (mth sha) es) \<Longrightarrow> length a = 32"
proof (induction es rule: log_induct)
  case (split es)
  from split.hyps have "take (split_point (length es)) es \<noteq> []" by (rule split_not_Nil)
  with split.IH split.prems show ?case
    by (auto simp: tree_joins_split [OF split.hyps] length_hashes)
qed (simp_all add: tree_joins.simps)

lemma tree_preimages_split:
  assumes "2 \<le> length es"
  shows "set (tree_preimages sha es) = insert (node_input (mth sha (take (split_point (length es)) es),
      mth sha (drop (split_point (length es)) es)))
    (set (tree_preimages sha (take (split_point (length es)) es))
      \<union> set (tree_preimages sha (drop (split_point (length es)) es)))"
    (is "_ = insert _ (set (tree_preimages sha ?l) \<union> set (tree_preimages sha ?r))")
proof -
  have "set (?l @ ?r) = set ?l \<union> set ?r" by (rule set_append)
  then have "set es = set ?l \<union> set ?r" by (simp only: append_take_drop_id)
  then have "(\<lambda>e. LEAF_PREFIX # e) ` set es
      = (\<lambda>e. LEAF_PREFIX # e) ` set ?l \<union> (\<lambda>e. LEAF_PREFIX # e) ` set ?r"
    by (simp only: image_Un)
  moreover have "es \<noteq> []" using assms by auto
  ultimately show ?thesis
    unfolding tree_preimages_def tree_joins_split [OF assms]
    using split_not_Nil [OF assms] by (simp add: Un_ac)
qed

lemma mth_binds:
  assumes "hash32 sha" "es \<noteq> []" "es' \<noteq> []" "mth sha es = mth sha es'"
    "inj_on sha (set (tree_preimages sha es) \<union> set (tree_preimages sha es'))"
  shows "es = es'"
  using assms(2-)
proof (induction es arbitrary: es' rule: log_induct)
  case (single e)
  show ?case
  proof (cases "2 \<le> length es'")
    case True
    let ?x = "node_input (mth sha (take (split_point (length es')) es'),
        mth sha (drop (split_point (length es')) es'))"
    have "LEAF_PREFIX # e = ?x" 
      by (rule inj_onD [OF single.prems(4)], use single.prems(3) in
        \<open>simp_all add: mth_split [OF True] internal_hash_node_input leaf_hash_def
          tree_preimages_split [OF True] tree_preimages_def [of _ "[e]"]\<close>)
    then show ?thesis by (simp add: node_input_def LEAF_PREFIX_def INTERNAL_PREFIX_def)
  next
    case False
    then obtain e' where es': "es' = [e']" using single.prems(2) by (cases es'; cases "tl es'") auto
    have "LEAF_PREFIX # e = LEAF_PREFIX # e'" 
      by (rule inj_onD [OF single.prems(4)], use single.prems(3) es' in
        \<open>simp_all add: leaf_hash_def tree_preimages_def\<close>)
    with es' show ?thesis by simp
  qed
next
  case (split es)
  let ?l = "take (split_point (length es)) es" and ?r = "drop (split_point (length es)) es"
  have ne: "?l \<noteq> []" "?r \<noteq> []" by (fact split_not_Nil [OF split.hyps])+
  show ?case
  proof (cases "2 \<le> length es'")
    case True
    let ?l' = "take (split_point (length es')) es'" and ?r' = "drop (split_point (length es')) es'"
    have ne': "?l' \<noteq> []" "?r' \<noteq> []" by (fact split_not_Nil [OF True])+
    have "node_input (mth sha ?l, mth sha ?r) = node_input (mth sha ?l', mth sha ?r')"
      by (rule inj_onD [OF split.prems(4)], use split.prems(3) in
        \<open>simp_all add: mth_split [OF split.hyps] mth_split [OF True] internal_hash_node_input
          tree_preimages_split [OF split.hyps] tree_preimages_split [OF True]\<close>)
    then have "mth sha ?l = mth sha ?l'" "mth sha ?r = mth sha ?r'"
      using ne ne' by (simp_all add: node_input_def length_hashes [OF assms(1)])
    moreover have "inj_on sha (set (tree_preimages sha ?l) \<union> set (tree_preimages sha ?l'))"
      "inj_on sha (set (tree_preimages sha ?r) \<union> set (tree_preimages sha ?r'))"
      by (rule inj_on_subset [OF split.prems(4)]; 
          auto simp: tree_preimages_split [OF split.hyps] tree_preimages_split [OF True])+
    ultimately have "?l = ?l'" "?r = ?r'"
      using split.IH(1) [OF ne(1) ne'(1)] split.IH(2) [OF ne(2) ne'(2)] by blast+
    then have "?l @ ?r = ?l' @ ?r'" by (simp only:)
    then show ?thesis by (simp only: append_take_drop_id)
  next
    case False
    then obtain e' where es': "es' = [e']" using split.prems(2) by (cases es'; cases "tl es'") auto
    have "node_input (mth sha ?l, mth sha ?r) = LEAF_PREFIX # e'"
      by (rule inj_onD [OF split.prems(4)], use split.prems(3) es' in
        \<open>simp_all add: mth_split [OF split.hyps] internal_hash_node_input leaf_hash_def
          tree_preimages_split [OF split.hyps] tree_preimages_def [of _ "[e']"]\<close>)
    then show ?thesis by (simp add: node_input_def LEAF_PREFIX_def INTERNAL_PREFIX_def)
  qed
qed simp

subsection \<open>Inclusion\<close>

lemma verify_inclusion_iff:
  "verify_inclusion sha e i n proof root \<longleftrightarrow>
     i < n \<and> length proof = length (turns i (n - 1)) \<and>
     climb (internal_hash sha) (leaf_hash sha e) (turns i (n - 1)) proof = root"
  using inclusion_loop_climb [of sha i "n - 1" "leaf_hash sha e" "proof" root]
  by (auto simp: verify_inclusion_def split: option.splits)

lemma inclusion_proof_path:
  "i < length es \<Longrightarrow> inclusion_proof sha es i = Some (path_to (mth sha) es i)"
  by (simp add: inclusion_proof_def audit_path_path_to)

text \<open>
  C27: the inclusion path the log computes for any entry is accepted by the verifier, against the
  root of the same log, whatever the log's size and the entry's position.
\<close>
theorem inclusion_complete:
  assumes "i < length es"
  shows "\<exists>proof. inclusion_proof sha es i = Some proof \<and>
           verify_inclusion sha (es ! i) i (length es) proof (merkle_root sha es)"
  using assms log_tree.climb_path [OF assms, of sha]
  by (auto simp: inclusion_proof_path verify_inclusion_iff merkle_root_def)

text \<open>
  C3: an inclusion proof that verifies against a log's root is the path of that log for that index,
  and the entry it vouches for is the entry the log holds there, unless the hash collides on an
  input that building the tree or checking the proof hashed.
\<close>
theorem inclusion_sound:
  assumes "hash32 sha" "\<forall>h \<in> set proof. length h = 32"
    and "verify_inclusion sha e i (length es) proof (merkle_root sha es)"
    and "inj_on sha (set (tree_preimages sha es) \<union> set (inclusion_preimages sha e i (length es) proof))"
  shows "i < length es \<and> e = es ! i \<and> inclusion_proof sha es i = Some proof"
proof -
  from assms(3) have i: "i < length es" and ne: "es \<noteq> []"
    and v: "length proof = length (turns i (length es - 1))"
      "climb (internal_hash sha) (leaf_hash sha e) (turns i (length es - 1)) proof = mth sha es"
    by (auto simp: verify_inclusion_iff merkle_root_def split: if_splits)
  let ?j = "\<lambda>e p. set (joins (internal_hash sha) (leaf_hash sha e) (turns i (length es - 1)) p)"
  note path = log_tree.climb_path [OF i, of sha]
  have "inj_on (\<lambda>(l, r). internal_hash sha l r) (?j e proof \<union> ?j (es ! i) (path_to (mth sha) es i))"
  proof (rule node_inj_on)
    show "inj_on sha (node_input ` (?j e proof \<union> ?j (es ! i) (path_to (mth sha) es i)))"
      using path ne by (intro inj_on_subset [OF assms(4)]) (auto simp: tree_preimages_def inclusion_preimages_def)
    show "length l = 32" if "(l, r) \<in> ?j e proof \<union> ?j (es ! i) (path_to (mth sha) es i)" for l r
      using that path assms(1,2) tree_joins_length32 [OF assms(1)]
        joins_length32 [OF assms(1) length_hashes(1) [OF assms(1)] assms(2)] by auto
  qed
  with v path have eq: "leaf_hash sha e = leaf_hash sha (es ! i) \<and> proof = path_to (mth sha) es i"
    by (intro climb_inj) auto
  have "LEAF_PREFIX # e = LEAF_PREFIX # es ! i"
    by (rule inj_onD [OF assms(4)], use eq i ne in
      \<open>auto simp: leaf_hash_def tree_preimages_def inclusion_preimages_def\<close>)
  with i eq show ?thesis by (simp add: inclusion_proof_path)
qed

text \<open>
  a root commits to the whole log. Two logs with the same root, of whatever sizes, have the same
  entries in the same order, unless the hash collides on an input that one of the two trees hashed.
  (Leaves and inner nodes are hashed with different prefixes, so no leaf passes for a subtree.)
\<close>
theorem root_binds_log:
  assumes "hash32 sha" "merkle_root sha es = merkle_root sha es'"
    and "inj_on sha (set (tree_preimages sha es) \<union> set (tree_preimages sha es'))"
  shows "es = es'"
proof -
  have no_empty: False if xs: "merkle_root sha [] = mth sha xs" "xs \<noteq> []"
    "inj_on sha (insert [] (set (tree_preimages sha xs)))" for xs
  proof -
    have "\<exists>x. mth sha xs = sha x \<and> x \<in> set (tree_preimages sha xs) \<and> x \<noteq> []"
    proof (cases "2 \<le> length xs")
      case True
      show ?thesis
        by (rule exI [of _ "node_input (mth sha (take (split_point (length xs)) xs),
            mth sha (drop (split_point (length xs)) xs))"])
          (simp add: mth_split [OF True] tree_preimages_split [OF True] internal_hash_node_input,
           simp add: node_input_def)
    next
      case False
      with xs(2) obtain x where "xs = [x]" by (cases xs; cases "tl xs") auto
      then show ?thesis
        by (intro exI [of _ "LEAF_PREFIX # x"]) (simp add: leaf_hash_def tree_preimages_def)
    qed
    with xs(1) inj_onD [OF xs(3), of "[]"] show False by (auto simp: merkle_root_def)
  qed
  show ?thesis
  proof (cases "es = [] \<or> es' = []")
    case True
    then show ?thesis
      using no_empty [of es] no_empty [of es'] assms(2,3)
      by (auto simp: merkle_root_def tree_preimages_def [of _ "[]"] split: if_splits)
  next
    case False
    with assms mth_binds show ?thesis by (auto simp: merkle_root_def)
  qed
qed

subsection \<open>Consistency\<close>

lemma verify_consistency_iff:
  "verify_consistency sha m n h1 h2 proof \<longleftrightarrow>
     0 < m \<and> m < n \<and> proof \<noteq> [] \<and>
     (let path = (if is_power_of_two m then [h1] else []) @ proof; ds = aligned_turns (m - 1) (n - 1)
      in length (tl path) = length ds \<and> climb_old (internal_hash sha) (hd path) ds (tl path) = h1
         \<and> climb (internal_hash sha) (hd path) ds (tl path) = h2)"
proof -
  obtain f s where "align (m - 1) (n - 1) = (f, s)" by fastforce
  moreover define path where "path = (if is_power_of_two m then [h1] else []) @ proof"
  ultimately show ?thesis
    using consistency_loop_climb [of sha f s "hd path" "hd path" "tl path" h1 h2]
    by (auto simp: verify_consistency_def aligned_turns_def Let_def path_def [symmetric]
        split: option.splits)
qed

lemma consistency_proof_path:
  "0 < m \<Longrightarrow> m < length es \<Longrightarrow> consistency_proof sha es m = Some
     (if is_power_of_two m then tl (full_path (mth sha) m es) else full_path (mth sha) m es)"
  by (simp add: consistency_proof_def subproof_known)

lemma hd_full_path_power:
  "is_power_of_two m \<Longrightarrow> m \<le> length es \<Longrightarrow> hd (full_path (mth sha) m es) = mth sha (take m es)"
proof (induction es rule: log_induct)
  case (split es)
  obtain j where j: "split_point (length es) = 2 ^ j" "2 ^ j < length es" "length es \<le> 2 * 2 ^ j"
    using split.hyps by (rule split_point_spec)
  consider "m = length es" | "m \<noteq> length es" "m \<le> split_point (length es)"
    | "split_point (length es) < m" "m < length es" using split.prems by linarith
  then show ?case
  proof cases
    case 2
    with split j show ?thesis by (simp add: full_path_split [OF split.hyps] min_def)
  next
    case 3
    with between_powers [of j m] j split.prems show ?thesis by simp
  qed simp
qed (auto simp: full_path.simps is_power_of_two.simps)

lemma full_path_seed:
  assumes "m \<le> length es"
  shows "(if is_power_of_two m then [mth sha (take m es)] else [])
      @ (if is_power_of_two m then tl (full_path (mth sha) m es) else full_path (mth sha) m es)
      = full_path (mth sha) m es"
  using hd_full_path_power [of m es sha] assms by (cases "full_path (mth sha) m es") auto

text \<open>
  C28: the consistency proof the log computes between its first \<open>m\<close> entries and the whole log is
  accepted by the verifier, against the two roots.
\<close>
theorem consistency_complete:
  assumes "0 < m" "m < length es"
  shows "\<exists>proof. consistency_proof sha es m = Some proof \<and>
           verify_consistency sha m (length es) (merkle_root sha (take m es)) (merkle_root sha es) proof"
proof -
  let ?fp = "full_path (mth sha) m es"
  have len: "2 \<le> length es" using assms by simp
  note full = log_tree.climb_full [of m es sha]
  have tl: "tl ?fp \<noteq> []" using full_path_longer [of m es "mth sha"] assms len by simp
  have roots: "merkle_root sha es = mth sha es" "merkle_root sha (take m es) = mth sha (take m es)"
    using assms by (auto simp: merkle_root_def)
  with full tl full_path_seed [of m es sha] show ?thesis
    using assms by (auto simp: consistency_proof_path verify_consistency_iff Let_def)
qed

text \<open>
  C4: a consistency proof that verifies against a log's root shows that the older root is the root of
  that log's first \<open>m\<close> entries (nothing was rewritten or removed), and it is the log's own proof,
  unless the hash collides on an input that building the tree or checking the proof hashed.
\<close>
theorem consistency_sound:
  assumes "hash32 sha" "\<forall>h \<in> set proof. length h = 32" "length first_hash = 32"
    and "verify_consistency sha m (length es) first_hash (merkle_root sha es) proof"
    and "inj_on sha (set (tree_preimages sha es) \<union>
           set (consistency_preimages sha m (length es) first_hash proof))"
  shows "first_hash = merkle_root sha (take m es) \<and> consistency_proof sha es m = Some proof"
proof -
  define path where "path = (if is_power_of_two m then [first_hash] else []) @ proof"
  let ?fp = "full_path (mth sha) m es" and ?ds = "aligned_turns (m - 1) (length es - 1)"
  let ?j = "\<lambda>p. set (joins (internal_hash sha) (hd p) ?ds (tl p))"
  from assms(4) have m: "0 < m" "m < length es" "proof \<noteq> []" and ne: "es \<noteq> []"
    and v: "length (tl path) = length ?ds" "climb_old (internal_hash sha) (hd path) ?ds (tl path) = first_hash"
      "climb (internal_hash sha) (hd path) ?ds (tl path) = mth sha es"
    by (auto simp: verify_consistency_iff merkle_root_def path_def [symmetric] Let_def split: if_splits)
  have path: "path \<noteq> []" "\<forall>h \<in> set path. length h = 32"
    using m assms(2,3) by (auto simp: path_def)
  then have "length (hd path) = 32" "\<forall>h \<in> set (tl path). length h = 32"
    by (auto dest: list.set_sel)
  note lens = joins_length32 [OF assms(1) this]
  note full = log_tree.climb_full [of m es sha]
  have "inj_on (\<lambda>(l, r). internal_hash sha l r) (?j path \<union> ?j ?fp)"
  proof (rule node_inj_on)
    show "inj_on sha (node_input ` (?j path \<union> ?j ?fp))"
      using full m ne by (intro inj_on_subset [OF assms(5)])
        (auto simp: tree_preimages_def consistency_preimages_def path_def [symmetric] Let_def)
    show "length l = 32" if "(l, r) \<in> ?j path \<union> ?j ?fp" for l r
      using that full m lens tree_joins_length32 [OF assms(1)] by auto
  qed
  with v full m have "hd path = hd ?fp \<and> tl path = tl ?fp" by (intro climb_inj) auto
  with path(1) have eq: "path = ?fp" by (simp add: list.expand)
  with v(2) full m have first: "first_hash = mth sha (take m es)" by simp
  then have "proof = (if is_power_of_two m then tl ?fp else ?fp)"
    using eq by (cases ?fp) (auto simp: path_def split: if_splits)
  with first m ne show ?thesis by (auto simp: consistency_proof_path merkle_root_def)
qed

subsection \<open>The theorems at a concrete log\<close>

theorem inclusion_complete_witness:
  "\<exists>proof. inclusion_proof demo_hash [[1], [2], [3]] 2 = Some proof \<and>
     verify_inclusion demo_hash [3] 2 3 proof (merkle_root demo_hash [[1], [2], [3]])"
  using inclusion_complete [of 2 "[[1], [2], [3]]" demo_hash] by (simp add: numeral_3_eq_3)

lemma split_point_2 [simp]: "split_point 2 = 1" "split_point (Suc (Suc 0)) = 1"
  by (simp_all add: split_point_def split_loop.simps)

lemma two_entry_log:
  "mth sha [a, b] = internal_hash sha (leaf_hash sha a) (leaf_hash sha b)"
  "tree_joins (mth sha) [a, b] = [(leaf_hash sha a, leaf_hash sha b)]"
  "turns (Suc 0) (Suc 0) = [True]" "aligned_turns 0 (Suc 0) = [False]"
  by (simp_all add: mth.simps [of _ "[a, b]"] tree_joins.simps turns_odd aligned_turns_even turns_even)

lemma two_entry_preimages:
  "inj_on demo_hash {[0, 1], [0, 2], node_input (leaf_hash demo_hash [1], leaf_hash demo_hash [2])}"
  by (simp add: demo_hash_def pad_def leaf_hash_def LEAF_PREFIX_def INTERNAL_PREFIX_def node_input_def)

text \<open>The concrete instances of the theorems above.\<close>

theorem inclusion_sound_witness:
  "[2] = [[1], [2]] ! (1::nat) \<and> inclusion_proof demo_hash [[1], [2]] 1 = Some [leaf_hash demo_hash [1]]"
  using inclusion_sound [of demo_hash "[leaf_hash demo_hash [1]]" "[2]" 1 "[[1], [2]]"]
    demo_hash32 two_entry_preimages
  by (simp add: verify_inclusion_iff merkle_root_def two_entry_log tree_preimages_def
      inclusion_preimages_def LEAF_PREFIX_def insert_commute length_hashes)
theorem root_binds_log_witness:
  "merkle_root demo_hash [[1], [2]] = merkle_root demo_hash (rev [[2], [1]]) \<and>
     [[1], [2]] = rev [[2], [1 :: byte]]"
  using root_binds_log [of demo_hash "[[1], [2]]" "rev [[2], [1]]"] demo_hash32 two_entry_preimages
  by (simp add: two_entry_log tree_preimages_def LEAF_PREFIX_def insert_commute)

theorem consistency_complete_witness:
  "\<exists>proof. consistency_proof demo_hash [[1], [2], [3]] 2 = Some proof \<and>
     verify_consistency demo_hash 2 3 (merkle_root demo_hash [[1], [2]])
       (merkle_root demo_hash [[1], [2], [3]]) proof"
  using consistency_complete [of 2 "[[1], [2], [3]]" demo_hash] by (simp add: numeral_3_eq_3 numeral_2_eq_2)

theorem consistency_sound_witness:
  "leaf_hash demo_hash [1] = merkle_root demo_hash [[1]] \<and>
     consistency_proof demo_hash [[1], [2]] 1 = Some [leaf_hash demo_hash [2]]"
  using consistency_sound [of demo_hash "[leaf_hash demo_hash [2]]" "leaf_hash demo_hash [1]" 1 "[[1], [2]]"]
    demo_hash32 two_entry_preimages
  by (simp add: verify_consistency_iff merkle_root_def two_entry_log tree_preimages_def
      consistency_preimages_def LEAF_PREFIX_def insert_commute length_hashes is_power_of_two.simps)

end
