(* ===== verification/Jcs.thy ===== *)
theory Jcs
  imports Crypto_Base
begin

section \<open>Canonical JSON and the bytes that get signed\<close>

text \<open>
  \<^verbatim>\<open>crypto/src/jcs.rs\<close> (the key-domain check in front of the RFC 8785 serialiser),
  \<^verbatim>\<open>crypto/src/attest.rs\<close> and \<^verbatim>\<open>crypto/src/signing.rs\<close> (the byte strings signatures are made over).
  A JSON value is a tree of objects, arrays and scalars, which is all the domain check looks at; the
  scalars and the serialiser (\<^verbatim>\<open>serde_jcs::to_vec\<close>) are parameters.
\<close>

datatype 'a json_value =
    JObject "(string \<times> 'a json_value) list"
  | JArray "'a json_value list"
  | JScalar 'a

type_synonym 'a jcs_serializer = "'a json_value \<Rightarrow> bytes option"

definition key_in_domain :: "string \<Rightarrow> bool" where
  "key_in_domain key =
     list_all (\<lambda>b. 0x20 \<le> b \<and> b \<le> 0x7e \<and> b \<noteq> 0x22 \<and> b \<noteq> 0x5c) (utf8 key)"

abbreviation jcs_key_error :: CryptoError where
  "jcs_key_error \<equiv> InvalidInput ''jcs: object key outside the enforced domain (plain ASCII, no control chars, no quote/backslash)''"

fun check_keys :: "'a json_value \<Rightarrow> unit crypto_result"
  and check_entries :: "(string \<times> 'a json_value) list \<Rightarrow> unit crypto_result"
  and check_items :: "'a json_value list \<Rightarrow> unit crypto_result" where
  "check_keys (JObject obj) = check_entries obj"
| "check_keys (JArray items) = check_items items"
| "check_keys (JScalar _) = Inr ()"
| "check_entries [] = Inr ()"
| "check_entries ((key, v) # obj) =
     (if \<not> key_in_domain key then Inl jcs_key_error
      else rbind (check_keys v) (\<lambda>_. check_entries obj))"
| "check_items [] = Inr ()"
| "check_items (v # items) = rbind (check_keys v) (\<lambda>_. check_items items)"

definition to_canonical_bytes :: "'a jcs_serializer \<Rightarrow> 'a json_value \<Rightarrow> bytes crypto_result" where
  "to_canonical_bytes to_vec value =
     rbind (check_keys value) (\<lambda>_. ok_or (InvalidInput ''jcs canonicalization'') (to_vec value))"

definition jcs_digest :: "crypto_lib \<Rightarrow> 'a jcs_serializer \<Rightarrow> 'a json_value \<Rightarrow> bytes crypto_result" where
  "jcs_digest E to_vec value = rbind (to_canonical_bytes to_vec value) (\<lambda>b. Inr (sha256 E b))"

subsection \<open>The key domain\<close>

text \<open>All object keys anywhere in a value, the specification the recursive check is compared with.\<close>

fun all_keys :: "'a json_value \<Rightarrow> string list" where
  "all_keys (JObject obj) = concat (map (\<lambda>(k, v). k # all_keys v) obj)"
| "all_keys (JArray items) = concat (map all_keys items)"
| "all_keys (JScalar _) = []"

lemma check_keys_spec:
  fixes v :: "'a json_value" and m :: "(string \<times> 'a json_value) list" and vs :: "'a json_value list"
  shows "check_keys v = (if list_all key_in_domain (all_keys v) then Inr () else Inl jcs_key_error)"
  "check_entries m = (if list_all key_in_domain (concat (map (\<lambda>(k, v). k # all_keys v) m))
     then Inr () else Inl jcs_key_error)"
  "check_items vs = (if list_all key_in_domain (concat (map all_keys vs))
     then Inr () else Inl jcs_key_error)"
  by (induction v and m and vs rule: check_keys_check_entries_check_items.induct) auto

text \<open>
  canonicalisation succeeds exactly on the values whose object keys, at every depth, are plain
  ASCII without control characters, quotes or backslashes and that the serialiser accepts; a key
  outside the domain is refused with its own error before the serialiser runs.
\<close>
theorem to_canonical_bytes_domain:
  "to_canonical_bytes to_vec v =
     (if list_all key_in_domain (all_keys v)
      then ok_or (InvalidInput ''jcs canonicalization'') (to_vec v)
      else Inl jcs_key_error)"
  by (simp add: to_canonical_bytes_def check_keys_spec)

subsection \<open>Signing inputs\<close>

definition VERIFY_PREFIX :: bytes where
  "VERIFY_PREFIX = utf8 (''signet-server-attestation-verify-v1'' @ [CHR 0x0A])"

definition RECEIPT_PREFIX :: bytes where
  "RECEIPT_PREFIX = utf8 (''signet-pubkey-log-receipt-v1'' @ [CHR 0x0A])"

definition ENROLL_POP_PREFIX :: bytes where
  "ENROLL_POP_PREFIX = utf8 (''signet-enroll-pop-v1'' @ [CHR 0x0A])"

definition newline :: byte where "newline = 0x0A"

fun nat_digits :: "nat \<Rightarrow> string" where
  "nat_digits n = (if n < 10 then [char_of (48 + n)] else nat_digits (n div 10) @ [char_of (48 + n mod 10)])"

text \<open>\<open>i64_to_string\<close> is Rust's \<^verbatim>\<open>to_string\<close> on a signed integer.\<close>

definition i64_to_string :: "int \<Rightarrow> string" where
  "i64_to_string i = (if i < 0 then CHR ''-'' # nat_digits (nat (- i)) else nat_digits (nat i))"

definition verification_signing_input ::
  "'a jcs_serializer \<Rightarrow> 'a json_value \<Rightarrow> string \<Rightarrow> int \<Rightarrow> bytes crypto_result" where
  "verification_signing_input to_vec attestation server_key_id signed_at =
     rbind (to_canonical_bytes to_vec attestation) (\<lambda>jcs.
     Inr (VERIFY_PREFIX @ jcs @ [newline] @ utf8 server_key_id @ [newline]
          @ utf8 (i64_to_string signed_at)))"

definition receipt_signing_input :: "'a jcs_serializer \<Rightarrow> 'a json_value \<Rightarrow> bytes crypto_result" where
  "receipt_signing_input to_vec receipt =
     rbind (to_canonical_bytes to_vec receipt) (\<lambda>jcs. Inr (RECEIPT_PREFIX @ jcs))"

definition enroll_pop_signing_base :: "bytes \<Rightarrow> bytes" where
  "enroll_pop_signing_base challenge = ENROLL_POP_PREFIX @ challenge"

definition SIGNET_V1 :: string where "SIGNET_V1 = ''SIGNET-V1''"

fun join :: "bytes \<Rightarrow> bytes list \<Rightarrow> bytes" where
  "join sep [] = []"
| "join sep [x] = x"
| "join sep (x # xs) = x @ sep @ join sep xs"

definition signet_v1_canonical_bytes ::
  "crypto_lib \<Rightarrow> string \<Rightarrow> string \<Rightarrow> bytes \<Rightarrow> string \<Rightarrow> string \<Rightarrow> string \<Rightarrow> bytes" where
  "signet_v1_canonical_bytes E method path_and_query body timestamp nonce fp =
     (let body_hash = hex_encode E (sha256 E body)
      in join [newline]
           (map utf8 [SIGNET_V1, method, path_and_query, body_hash, timestamp, nonce, fp]))"

lemmas join_seven = join.simps(3) [of _ _ "_ # _"] join.simps(2)

lemma until_newline:
  "newline \<notin> set xs \<Longrightarrow> newline \<notin> set ys \<Longrightarrow> xs @ newline # r = ys @ newline # s \<longleftrightarrow> xs = ys \<and> r = s"
proof (induction xs arbitrary: ys)
  case Nil
  then show ?case by (cases ys) auto
next
  case (Cons x xs)
  then show ?case by (cases ys) auto
qed

lemma hex_no_newline: "hex_correct E \<Longrightarrow> newline \<notin> set (utf8 (hex_encode E x))"
proof
  assume E: "hex_correct E" and "newline \<in> set (utf8 (hex_encode E x))"
  then obtain c where c: "c \<in> set (hex_encode E x)" "newline = of_nat (of_char c)"
    by (auto simp: utf8_def)
  from E have "set (hex_encode E x) \<subseteq> set ''0123456789abcdef''" by (simp add: hex_correct_def)
  with c(1) have "c \<in> set ''0123456789abcdef''" by (rule rev_subsetD)
  then have "of_char c \<noteq> (10 :: nat)" by auto
  moreover have "of_char c = (10 :: nat)"
    using arg_cong [OF c(2), of unat] by (simp add: newline_def unat_of_nat)
  ultimately show False ..
qed

interpretation line: prefix_code "\<lambda>x. x @ [newline]" "\<lambda>x. newline \<notin> set x"
  by unfold_locales (simp add: until_newline)

text \<open>
  a signed request binds every part of the request. If two requests have the same canonical
  bytes and no header value, method or path contains a newline, then method, path, timestamp, nonce
  and fingerprint agree, and so do the bodies unless the hash collides on them.
\<close>
theorem signet_v1_binds_request:
  assumes "signet_v1_canonical_bytes E m p b t n f = signet_v1_canonical_bytes E m' p' b' t' n' f'"
    and "\<forall>s \<in> {m, p, t, n, f, m', p', t', n', f'}. newline \<notin> set (utf8 s)"
    and "hex_correct E"
    and "inj_on (sha256 E) {b, b'}"
  shows "m = m' \<and> p = p' \<and> b = b' \<and> t = t' \<and> n = n' \<and> f = f'"
proof -
  have "m = m' \<and> p = p' \<and> hex_encode E (sha256 E b) = hex_encode E (sha256 E b')
      \<and> t = t' \<and> n = n' \<and> f = f'"
    using assms(1,2) hex_no_newline [OF assms(3)]
    by (simp add: signet_v1_canonical_bytes_def Let_def until_newline)
  with assms(3,4) show ?thesis
    by (auto simp: hex_encode_inj dest: inj_onD)
qed

text \<open>
  the four kinds of signed messages never coincide: the bytes of a log receipt, of a
  verification response, of an enrollment proof and of a request start differently, so a signature
  made over one can never be presented as a signature over another.
\<close>
theorem signing_inputs_disjoint:
  assumes "receipt_signing_input to_vec r = Inr x1"
    and "verification_signing_input to_vec a kid at = Inr x2"
  shows "distinct [x1, x2, enroll_pop_signing_base c, signet_v1_canonical_bytes E m p b t n f]"
proof -
  obtain u where x1: "x1 = RECEIPT_PREFIX @ u"
    using assms(1) by (auto simp: receipt_signing_input_def result_simps)
  obtain v where x2: "x2 = VERIFY_PREFIX @ v"
    using assms(2) by (auto simp: verification_signing_input_def result_simps)
  have x4: "\<exists>w. signet_v1_canonical_bytes E m p b t n f = utf8 SIGNET_V1 @ w"
    by (simp add: signet_v1_canonical_bytes_def Let_def)
  have "x1 ! 7 = 0x70" "x2 ! 7 = 0x73" "enroll_pop_signing_base c ! 7 = 0x65"
    "signet_v1_canonical_bytes E m p b t n f ! 7 = 0x56"
    using x1 x2 x4
    by (auto simp: RECEIPT_PREFIX_def VERIFY_PREFIX_def ENROLL_POP_PREFIX_def SIGNET_V1_def utf8_def
        enroll_pop_signing_base_def)
  then show ?thesis by auto
qed

theorem signet_v1_binds_request_witness:
  "''GET'' = ''G'' @ ''ET'' \<and> ''/v1/files'' = ''/v1'' @ ''/files'' \<and> [1, 2] = rev [2, 1 :: byte]
     \<and> ''1'' = ''1'' \<and> ''n'' = ''n'' \<and> ''f'' = ''f''"
  by (rule signet_v1_binds_request [of demo_lib "''GET''" "''/v1/files''" "[1, 2]" "''1''" "''n''" "''f''"
        "''G'' @ ''ET''" "''/v1'' @ ''/files''" "rev [2, 1]" "''1''" "''n''" "''f''"])
    (simp_all add: demo_lib_correct newline_def utf8_def)

theorem signing_inputs_disjoint_witness:
  "distinct [RECEIPT_PREFIX @ [7], VERIFY_PREFIX @ [7, 0x0A, 0x6B, 0x0A, 0x30],
     enroll_pop_signing_base [7], signet_v1_canonical_bytes demo_lib ''GET'' ''/'' [] ''1'' ''n'' ''f'']"
  by (rule signing_inputs_disjoint [of "\<lambda>_. Some [7]" "JScalar ()" _ "JScalar ()" "''k''" 0])
    (simp_all add: receipt_signing_input_def verification_signing_input_def to_canonical_bytes_def
      newline_def utf8_def i64_to_string_def)

end
