(* ===== verification/Translog.thy ===== *)
theory Translog
  imports Jcs
begin

section \<open>Transparency-log entries\<close>

text \<open>
  \<^verbatim>\<open>crypto/src/translog.rs\<close> and the framing part of \<^verbatim>\<open>crypto/src/vrf.rs\<close>: the canonical bytes of log
  entries in the three formats, the payload of an epoch's genesis entry, and the VRF account index.
  The bytes each version hashes are definitions of their own (\<open>entry_bytes\<close>, \<open>entry_bytes_v2\<close>,
  \<open>entry_bytes_v3\<close>, the buffer the Rust functions fill), so that a theorem can say which hash
  inputs must not collide. The VRF itself is the \<^verbatim>\<open>vrf-r255\<close> crate, a parameter.
\<close>

datatype KeyPurpose = Epoch | Signing | Kem | SigningPq | KemPq

fun purpose_byte :: "KeyPurpose \<Rightarrow> byte" where
  "purpose_byte Epoch = 0x00"
| "purpose_byte Signing = 0x01"
| "purpose_byte Kem = 0x02"
| "purpose_byte SigningPq = 0x03"
| "purpose_byte KemPq = 0x04"

definition entry_bytes ::
  "u64 \<Rightarrow> bytes \<Rightarrow> KeyPurpose \<Rightarrow> string \<Rightarrow> bytes \<Rightarrow> u64 \<Rightarrow> bytes \<Rightarrow> bytes" where
  "entry_bytes entry_id account_id key_purpose algorithm public_key created_at prev_entry_hash =
     be64 entry_id @ account_id @ [purpose_byte key_purpose] @ lp (utf8 algorithm) @ public_key
     @ be64 created_at @ prev_entry_hash"

definition entry_hash ::
  "crypto_lib \<Rightarrow> u64 \<Rightarrow> bytes \<Rightarrow> KeyPurpose \<Rightarrow> string \<Rightarrow> bytes \<Rightarrow> u64 \<Rightarrow> bytes \<Rightarrow> bytes" where
  "entry_hash E entry_id account_id key_purpose algorithm public_key created_at prev_entry_hash =
     sha256 E (entry_bytes entry_id account_id key_purpose algorithm public_key created_at prev_entry_hash)"

definition ENTRY_VERSION_V2 :: byte where "ENTRY_VERSION_V2 = 0x02"

definition unwrap_or :: "'a option \<Rightarrow> 'a \<Rightarrow> 'a" where
  "unwrap_or m d = (case m of None \<Rightarrow> d | Some x \<Rightarrow> x)"

definition entry_bytes_v2 ::
  "u64 \<Rightarrow> bytes option \<Rightarrow> KeyPurpose \<Rightarrow> string \<Rightarrow> bytes \<Rightarrow> u64 \<Rightarrow> bytes \<Rightarrow> bytes" where
  "entry_bytes_v2 entry_id account_id key_purpose algorithm public_key created_at prev_entry_hash =
     [ENTRY_VERSION_V2] @ be64 entry_id @ unwrap_or account_id (replicate 16 0)
     @ [purpose_byte key_purpose] @ lp (utf8 algorithm) @ lp public_key
     @ be64 created_at @ prev_entry_hash"

definition entry_hash_v2 ::
  "crypto_lib \<Rightarrow> u64 \<Rightarrow> bytes option \<Rightarrow> KeyPurpose \<Rightarrow> string \<Rightarrow> bytes \<Rightarrow> u64 \<Rightarrow> bytes \<Rightarrow> bytes" where
  "entry_hash_v2 E entry_id account_id key_purpose algorithm public_key created_at prev_entry_hash =
     sha256 E (entry_bytes_v2 entry_id account_id key_purpose algorithm public_key created_at prev_entry_hash)"

definition EPOCH_ALGORITHM :: string where "EPOCH_ALGORITHM = ''signet-translog-v2''"
definition EPOCH_PAYLOAD :: bytes where "EPOCH_PAYLOAD = utf8 ''signet-pubkey-log-v2-epoch''"

definition ENTRY_VERSION_V3 :: byte where "ENTRY_VERSION_V3 = 0x03"

definition INDEX_LEN :: nat where "INDEX_LEN = 64"
definition PUBLIC_KEY_LEN :: nat where "PUBLIC_KEY_LEN = 32"
definition PROOF_LEN :: nat where "PROOF_LEN = 80"

definition entry_bytes_v3 ::
  "u64 \<Rightarrow> bytes option \<Rightarrow> KeyPurpose \<Rightarrow> string \<Rightarrow> bytes \<Rightarrow> u64 \<Rightarrow> bytes \<Rightarrow> bytes" where
  "entry_bytes_v3 entry_id account_index key_purpose algorithm public_key created_at prev_entry_hash =
     [ENTRY_VERSION_V3] @ be64 entry_id @ unwrap_or account_index (replicate INDEX_LEN 0)
     @ [purpose_byte key_purpose] @ lp (utf8 algorithm) @ lp public_key
     @ be64 created_at @ prev_entry_hash"

definition entry_hash_v3 ::
  "crypto_lib \<Rightarrow> u64 \<Rightarrow> bytes option \<Rightarrow> KeyPurpose \<Rightarrow> string \<Rightarrow> bytes \<Rightarrow> u64 \<Rightarrow> bytes \<Rightarrow> bytes" where
  "entry_hash_v3 E entry_id account_index key_purpose algorithm public_key created_at prev_entry_hash =
     sha256 E (entry_bytes_v3 entry_id account_index key_purpose algorithm public_key created_at prev_entry_hash)"

definition EPOCH_ALGORITHM_V3 :: string where "EPOCH_ALGORITHM_V3 = ''signet-translog-v3''"
definition EPOCH_PAYLOAD_V3_TAG :: bytes where
  "EPOCH_PAYLOAD_V3_TAG = utf8 ''signet-pubkey-log-v3-epoch''"

definition epoch_payload_v3 :: "crypto_lib \<Rightarrow> u16 \<Rightarrow> u64 \<Rightarrow> bytes \<Rightarrow> bytes \<Rightarrow> bytes" where
  "epoch_payload_v3 E epoch prev_epoch_size prev_epoch_root vrf_public_key =
     EPOCH_PAYLOAD_V3_TAG @ [0x00] @ be16 epoch @ be64 prev_epoch_size @ prev_epoch_root
     @ sha256 E vrf_public_key"

subsection \<open>The account index\<close>

definition ALPHA_DOMAIN :: bytes where
  "ALPHA_DOMAIN = utf8 ''signet-pubkey-log-v3-account-index''"

definition alpha :: "bytes \<Rightarrow> bytes" where
  "alpha account_id = ALPHA_DOMAIN @ [0x00] @ account_id"

record VrfSecretKey =
  key_bytes :: bytes
  key_public :: bytes

definition vrf_from_bytes :: "crypto_lib \<Rightarrow> bytes \<Rightarrow> VrfSecretKey crypto_result" where
  "vrf_from_bytes E raw =
     rbind (ok_or (InvalidInput ''VRF secret key'') (vrf_public E raw)) (\<lambda>public.
     Inr \<lparr> key_bytes = raw, key_public = public \<rparr>)"

definition vrf_verify :: "crypto_lib \<Rightarrow> bytes \<Rightarrow> bytes \<Rightarrow> bytes \<Rightarrow> bytes crypto_result" where
  "vrf_verify E public_key account_id proof =
     rbind (guard (vrf_key_ok E public_key) (InvalidInput ''VRF public key'')) (\<lambda>_.
     rbind (guard (vrf_proof_ok E proof) (InvalidInput ''VRF proof'')) (\<lambda>_.
     ok_or SignatureInvalid (vrf_check E public_key (alpha account_id) proof)))"

definition vrf_prove_index :: "crypto_lib \<Rightarrow> VrfSecretKey \<Rightarrow> bytes \<Rightarrow> (bytes \<times> bytes) crypto_result" where
  "vrf_prove_index E key account_id =
     rbind (guard (vrf_public E (key_bytes key) \<noteq> None) (InvalidInput ''VRF secret key'')) (\<lambda>_.
     let proof = vrf_prove E (key_bytes key) (alpha account_id)
     in rbind (vrf_verify E (key_public key) account_id proof) (\<lambda>index. Inr (index, proof)))"

subsection \<open>What an entry hash binds\<close>

lemma purpose_byte_inj [simp]: "purpose_byte p = purpose_byte q \<longleftrightarrow> p = q"
  by (cases p; cases q) simp_all

lemma fixed_suffix:
  "length r = length s \<Longrightarrow> x @ r = y @ s \<longleftrightarrow> x = y \<and> r = s"
  by simp

definition account_ok :: "nat \<Rightarrow> bytes option \<Rightarrow> bool" where
  "account_ok n a = (case a of None \<Rightarrow> True | Some x \<Rightarrow> length x = n)"

lemma account_length: "account_ok n a \<Longrightarrow> length (unwrap_or a (replicate n 0)) = n"
  by (cases a) (simp_all add: account_ok_def unwrap_or_def)

lemma entry_bytes_inj:
  assumes "entry_bytes i a kp alg pk t prev = entry_bytes i' a' kp' alg' pk' t' prev'"
    and "length a = 16" "length a' = 16" "length prev = 32" "length prev' = 32"
    and "lp_ok (utf8 alg)" "lp_ok (utf8 alg')"
  shows "i = i' \<and> a = a' \<and> kp = kp' \<and> alg = alg' \<and> pk = pk' \<and> t = t' \<and> prev = prev'"
proof -
  have "i = i' \<and> a = a' \<and> kp = kp' \<and> alg = alg' \<and>
      pk @ (be64 t @ prev) = pk' @ (be64 t' @ prev')"
    using assms by (simp add: entry_bytes_def be64.cancel_iff lp.cancel_iff)
  then show ?thesis
    using assms(4,5) fixed_suffix [of "be64 t @ prev" "be64 t' @ prev'" pk pk']
    by (simp add: be64.cancel_iff)
qed

lemma entry_tail_inj:
  assumes "be64 i @ a @ [purpose_byte kp] @ lp (utf8 alg) @ lp pk @ be64 t @ prev
      = be64 i' @ a' @ [purpose_byte kp'] @ lp (utf8 alg') @ lp pk' @ be64 t' @ prev'"
    and "length a = length a'"
    and "lp_ok (utf8 alg)" "lp_ok (utf8 alg')" "lp_ok pk" "lp_ok pk'"
  shows "i = i' \<and> a = a' \<and> kp = kp' \<and> alg = alg' \<and> pk = pk' \<and> t = t' \<and> prev = prev'"
  using assms by (simp add: be64.cancel_iff lp.cancel_iff)

text \<open>
  a version 1 entry hash binds every field of the entry, its link to the previous entry included:
  equal hashes mean equal fields, although the public key is the one field written without a length
  (the fields after it have fixed sizes), unless the hash collides on the two entries' bytes.
\<close>
theorem entry_hash_binds:
  assumes "entry_hash E i a kp alg pk t prev = entry_hash E i' a' kp' alg' pk' t' prev'"
    and "inj_on (sha256 E) {entry_bytes i a kp alg pk t prev, entry_bytes i' a' kp' alg' pk' t' prev'}"
    and "length a = 16" "length a' = 16" "length prev = 32" "length prev' = 32"
    and "lp_ok (utf8 alg)" "lp_ok (utf8 alg')"
  shows "i = i' \<and> a = a' \<and> kp = kp' \<and> alg = alg' \<and> pk = pk' \<and> t = t' \<and> prev = prev'"
  by (rule entry_bytes_inj [OF inj_on_pair [OF assms(2)] assms(3-)])
    (rule assms(1) [unfolded entry_hash_def])

lemma entry_hash_v3_inj:
  assumes "entry_hash_v3 E i a kp alg pk t prev = entry_hash_v3 E i' a' kp' alg' pk' t' prev'"
    and "inj_on (sha256 E) {entry_bytes_v3 i a kp alg pk t prev, entry_bytes_v3 i' a' kp' alg' pk' t' prev'}"
    and "account_ok 64 a" "account_ok 64 a'"
    and "lp_ok (utf8 alg)" "lp_ok (utf8 alg')" "lp_ok pk" "lp_ok pk'"
  shows "i = i' \<and> unwrap_or a (replicate 64 0) = unwrap_or a' (replicate 64 0) \<and> kp = kp' \<and>
    alg = alg' \<and> pk = pk' \<and> t = t' \<and> prev = prev'"
proof -
  have "entry_bytes_v3 i a kp alg pk t prev = entry_bytes_v3 i' a' kp' alg' pk' t' prev'"
    by (rule inj_on_pair [OF assms(2)]) (rule assms(1) [unfolded entry_hash_v3_def])
  then show ?thesis
    using assms(3-) by (intro entry_tail_inj) (simp_all add: entry_bytes_v3_def INDEX_LEN_def account_length)
qed

text \<open>
  the three entry formats are separated: the bytes hashed for a version 2 and a version 3 entry
  never coincide, and neither coincides with a version 1 entry whose number is below \<open>2 ^ 57\<close>, since
  the version byte comes first and a version 1 entry starts with its number's high byte.
\<close>
theorem entry_versions_disjoint:
  assumes "unat i < 2 ^ 57"
  shows "distinct [entry_bytes i a kp alg pk t prev, entry_bytes_v2 i2 a2 kp2 alg2 pk2 t2 prev2,
    entry_bytes_v3 i3 a3 kp3 alg3 pk3 t3 prev3]"
proof -
  have "unat i div 2 ^ 56 < 2" using assms by (simp add: div_less_iff_less_mult)
  then consider "unat i div 2 ^ 56 = 0" | "unat i div 2 ^ 56 = 1" by linarith
  then have "hd (entry_bytes i a kp alg pk t prev) \<in> {0, 1}"
    by cases (simp_all add: entry_bytes_def be64_first)
  moreover have "hd (entry_bytes_v2 i2 a2 kp2 alg2 pk2 t2 prev2) = 2"
    "hd (entry_bytes_v3 i3 a3 kp3 alg3 pk3 t3 prev3) = 3"
    by (simp_all add: entry_bytes_v2_def entry_bytes_v3_def ENTRY_VERSION_V2_def ENTRY_VERSION_V3_def)
  ultimately show ?thesis by force
qed

subsection \<open>The chain\<close>

text \<open>
  A log is a list of entries, each hashed with the hash of the entry before it; the genesis entry has
  32 zero bytes in its place. \<open>chain_v3\<close> is the running head of such a log.
\<close>

record log_entry =
  le_id :: u64
  le_account :: "bytes option"
  le_purpose :: KeyPurpose
  le_alg :: string
  le_key :: bytes
  le_created :: u64

definition entry_head :: "crypto_lib \<Rightarrow> bytes \<Rightarrow> log_entry \<Rightarrow> bytes" where
  "entry_head E prev e =
     entry_hash_v3 E (le_id e) (le_account e) (le_purpose e) (le_alg e) (le_key e) (le_created e) prev"

definition entry_preimage :: "bytes \<Rightarrow> log_entry \<Rightarrow> bytes" where
  "entry_preimage prev e =
     entry_bytes_v3 (le_id e) (le_account e) (le_purpose e) (le_alg e) (le_key e) (le_created e) prev"

fun chain_v3 :: "crypto_lib \<Rightarrow> bytes \<Rightarrow> log_entry list \<Rightarrow> bytes" where
  "chain_v3 E prev [] = prev"
| "chain_v3 E prev (e # es) = chain_v3 E (entry_head E prev e) es"

fun chain_preimages :: "crypto_lib \<Rightarrow> bytes \<Rightarrow> log_entry list \<Rightarrow> bytes list" where
  "chain_preimages E prev [] = []"
| "chain_preimages E prev (e # es) =
     entry_preimage prev e # chain_preimages E (entry_head E prev e) es"

definition entry_ok :: "log_entry \<Rightarrow> bool" where
  "entry_ok e \<longleftrightarrow> (\<exists>x. le_account e = Some x \<and> length x = 64) \<and> lp_ok (utf8 (le_alg e)) \<and> lp_ok (le_key e)"

lemma entry_head_inj:
  assumes "entry_head E p e = entry_head E p' e'" "entry_ok e" "entry_ok e'"
    and "inj_on (sha256 E) {entry_preimage p e, entry_preimage p' e'}"
  shows "e = e' \<and> p = p'"
proof -
  obtain x y where "le_account e = Some x" "le_account e' = Some y" "length x = 64" "length y = 64"
    using assms(2,3) by (auto simp: entry_ok_def)
  with entry_hash_v3_inj [OF assms(1) [unfolded entry_head_def] assms(4) [unfolded entry_preimage_def]] assms(2,3)
  show ?thesis by (simp add: entry_ok_def account_ok_def unwrap_or_def)
qed


text \<open>
  the payload of an epoch's genesis entry binds the epoch number, the previous epoch's final size
  and root, and the epoch's VRF key, unless the hash collides on the two keys.
\<close>
theorem epoch_payload_binds:
  assumes "epoch_payload_v3 E e n r k = epoch_payload_v3 E e' n' r' k'"
    and "length r = 32" "length r' = 32" "inj_on (sha256 E) {k, k'}"
  shows "e = e' \<and> n = n' \<and> r = r' \<and> k = k'"
  using assms(1-3) inj_on_pair [OF assms(4)]
  by (simp add: epoch_payload_v3_def be16.cancel_iff be64.cancel_iff)

subsection \<open>The theorems at concrete entries\<close>

theorem entry_hash_binds_witness:
  "(1 :: u64) = 1 \<and> replicate 16 7 = rev (replicate 16 (7 :: byte)) \<and> Kem = Kem \<and>
     ''ES256'' = ''ES'' @ ''256'' \<and> [4, 5] = rev [5, 4 :: byte] \<and> (9 :: u64) = 9 \<and>
     replicate 32 0 = replicate 32 (0 :: byte)"
  by (rule entry_hash_binds [where E = demo_lib]) simp_all

theorem entry_versions_disjoint_witness:
  "distinct [entry_bytes 1 (replicate 16 7) Kem ''ES256'' [4] 9 (replicate 32 0),
     entry_bytes_v2 1 None Epoch EPOCH_ALGORITHM EPOCH_PAYLOAD 9 (replicate 32 0),
     entry_bytes_v3 1 None Epoch EPOCH_ALGORITHM_V3 EPOCH_PAYLOAD_V3_TAG 9 (replicate 32 0)]"
  by (rule entry_versions_disjoint) simp

definition demo_entry :: log_entry where
  "demo_entry = \<lparr> le_id = 2, le_account = Some (replicate 64 1), le_purpose = Signing,
     le_alg = ''ES256'', le_key = [4], le_created = 9 \<rparr>"

lemma demo_hash_head: "take 9 (demo_hash (entry_preimage p e)) = 0x03 # be64 (le_id e)"
  by (simp add: demo_hash_def pad_def entry_preimage_def entry_bytes_v3_def ENTRY_VERSION_V3_def take_Cons')


theorem epoch_payload_binds_witness:
  "(2 :: u16) = 2 \<and> (7 :: u64) = 7 \<and> replicate 32 3 = replicate 32 (3 :: byte) \<and>
     replicate 32 5 = rev (replicate 32 (5 :: byte))"
  by (rule epoch_payload_binds [where E = demo_lib]) simp_all

end
