(* ===== verification/Envelope.thy ===== *)
theory Envelope
  imports Crypto_Base
begin

section \<open>File envelopes, encrypted names and the wrapped private key\<close>

text \<open>
  \<^verbatim>\<open>crypto/src/envelope.rs\<close> (single-PUT files and multipart chunks), \<^verbatim>\<open>crypto/src/encname.rs\<close> (encrypted
  file names) and \<^verbatim>\<open>crypto/src/kem_wrap.rs\<close> (a private key wrapped under a passkey's PRF output).
  A function that can panic returns an option, \<open>None\<close> for the panic; lengths that the code keeps in
  \<^verbatim>\<open>u64\<close> are 64-bit words, with the wrap-around of a release build.
\<close>

subsection \<open>Single-PUT files\<close>

definition FILE_MAGIC_SINGLE_PUT :: byte where "FILE_MAGIC_SINGLE_PUT = 0x01"
definition FILE_ALG_A256GCM :: byte where "FILE_ALG_A256GCM = 0x01"
definition HEADER_LEN :: nat where "HEADER_LEN = 2 + 12"
definition MIN_ENVELOPE_LEN :: nat where "MIN_ENVELOPE_LEN = HEADER_LEN + 16"

definition seal_file :: "crypto_lib \<Rightarrow> bytes \<Rightarrow> bytes \<Rightarrow> bytes \<Rightarrow> bytes \<Rightarrow> bytes crypto_result" where
  "seal_file E dek iv file_id plaintext =
     rbind (seal E dek iv plaintext file_id) (\<lambda>sealed.
     Inr ([FILE_MAGIC_SINGLE_PUT] @ [FILE_ALG_A256GCM] @ iv @ sealed))"

definition open_file :: "crypto_lib \<Rightarrow> bytes \<Rightarrow> bytes \<Rightarrow> bytes \<Rightarrow> bytes crypto_result" where
  "open_file E dek file_id envelope =
     (if length envelope < MIN_ENVELOPE_LEN then Inl (InvalidInput ''file envelope too short'')
      else if envelope ! 0 \<noteq> FILE_MAGIC_SINGLE_PUT then Inl (InvalidInput ''file envelope magic'')
      else if envelope ! 1 \<noteq> FILE_ALG_A256GCM then Inl (InvalidInput ''file envelope alg'')
      else let iv = take (HEADER_LEN - 2) (drop 2 envelope)
           in open_sealed E dek iv (drop HEADER_LEN envelope) file_id)"

subsection \<open>Multipart chunks\<close>

definition FILE_MAGIC_MULTIPART :: byte where "FILE_MAGIC_MULTIPART = 0x02"
definition MULTIPART_IV_LABEL :: bytes where "MULTIPART_IV_LABEL = utf8 ''signet-drive-multipart-iv-v1''"
definition MULTIPART_HEADER_LEN :: nat where "MULTIPART_HEADER_LEN = 2 + 4 + 12"
definition MULTIPART_MIN_ENVELOPE_LEN :: nat where
  "MULTIPART_MIN_ENVELOPE_LEN = MULTIPART_HEADER_LEN + 16"
definition MULTIPART_CHUNK_OVERHEAD :: u64 where
  "MULTIPART_CHUNK_OVERHEAD = of_nat MULTIPART_MIN_ENVELOPE_LEN"

definition div_ceil :: "u64 \<Rightarrow> u64 \<Rightarrow> u64 option" where
  "div_ceil a b = (if b = 0 then None else Some (if a mod b > 0 then a div b + 1 else a div b))"

definition checked_sub :: "u64 \<Rightarrow> u64 \<Rightarrow> u64 option" where
  "checked_sub a b = (if b \<le> a then Some (a - b) else None)"

definition multipart_plaintext_len :: "u64 \<Rightarrow> u64 \<Rightarrow> u64 option option" where
  "multipart_plaintext_len ciphertext_len chunk_size =
     (if chunk_size = 0 \<or> ciphertext_len < MULTIPART_CHUNK_OVERHEAD then Some None
      else let per = chunk_size + MULTIPART_CHUNK_OVERHEAD
           in case div_ceil ciphertext_len per of
                None \<Rightarrow> None
              | Some q \<Rightarrow> (let chunks = max q 1
                          in Some (checked_sub ciphertext_len (chunks * MULTIPART_CHUNK_OVERHEAD))))"

definition multipart_iv :: "crypto_lib \<Rightarrow> bytes \<Rightarrow> u32 \<Rightarrow> bytes crypto_result" where
  "multipart_iv E dek chunk_index =
     rbind (hkdf_sha256 E dek [] (MULTIPART_IV_LABEL @ be32 chunk_index) 12) (\<lambda>iv.
     if length iv = 12 then Inr iv else Inl (InvalidInput ''multipart iv length''))"

definition multipart_aad :: "bytes \<Rightarrow> u32 \<Rightarrow> bool \<Rightarrow> bytes" where
  "multipart_aad file_id chunk_index is_last = file_id @ be32 chunk_index @ [if is_last then 1 else 0]"

definition is_last_chunk :: "u32 \<Rightarrow> u32 \<Rightarrow> bool crypto_result" where
  "is_last_chunk chunk_index chunk_count =
     (if chunk_count = 0 \<or> chunk_index \<ge> chunk_count
      then Inl (InvalidInput ''multipart chunk_index out of range for chunk_count'')
      else Inr (chunk_index = chunk_count - 1))"

definition seal_chunk :: "crypto_lib \<Rightarrow> bytes \<Rightarrow> bytes \<Rightarrow> u32 \<Rightarrow> u32 \<Rightarrow> bytes \<Rightarrow> bytes crypto_result" where
  "seal_chunk E dek file_id chunk_index chunk_count plaintext =
     rbind (is_last_chunk chunk_index chunk_count) (\<lambda>is_last.
     rbind (multipart_iv E dek chunk_index) (\<lambda>iv.
     rbind (seal E dek iv plaintext (multipart_aad file_id chunk_index is_last)) (\<lambda>sealed.
     Inr ([FILE_MAGIC_MULTIPART] @ [FILE_ALG_A256GCM] @ be32 chunk_index @ iv @ sealed))))"

definition open_chunk :: "crypto_lib \<Rightarrow> bytes \<Rightarrow> bytes \<Rightarrow> u32 \<Rightarrow> u32 \<Rightarrow> bytes \<Rightarrow> bytes crypto_result" where
  "open_chunk E dek file_id chunk_index chunk_count envelope =
     rbind (is_last_chunk chunk_index chunk_count) (\<lambda>is_last.
     if length envelope < MULTIPART_MIN_ENVELOPE_LEN then Inl (InvalidInput ''multipart chunk too short'')
     else if envelope ! 0 \<noteq> FILE_MAGIC_MULTIPART then Inl (InvalidInput ''multipart chunk magic'')
     else if envelope ! 1 \<noteq> FILE_ALG_A256GCM then Inl (InvalidInput ''multipart chunk alg'')
     else if from_be32 (take 4 (drop 2 envelope)) \<noteq> chunk_index
     then Inl (InvalidInput ''multipart chunk index mismatch'')
     else let iv = take (MULTIPART_HEADER_LEN - 6) (drop 6 envelope);
              aad = multipart_aad file_id chunk_index is_last
          in open_sealed E dek iv (drop MULTIPART_HEADER_LEN envelope) aad)"

subsection \<open>Encrypted names\<close>

definition GCM_TAG_LEN :: nat where "GCM_TAG_LEN = 16"

record NameEnvelope =
  ne_v :: u32
  ne_alg :: string
  ne_iv :: string
  ne_ct :: string
  ne_tag :: string

definition name_aad :: "bytes \<Rightarrow> bytes \<Rightarrow> bytes" where
  "name_aad root_folder_id target_id = root_folder_id @ target_id"

definition encrypt_name ::
  "crypto_lib \<Rightarrow> bytes \<Rightarrow> bytes \<Rightarrow> bytes \<Rightarrow> bytes \<Rightarrow> string \<Rightarrow> NameEnvelope crypto_result" where
  "encrypt_name E iv metadata_key root_folder_id target_id name =
     rbind (seal E metadata_key iv (utf8 name) (name_aad root_folder_id target_id)) (\<lambda>sealed.
     if length sealed < GCM_TAG_LEN then Inl (InvalidInput ''aead output shorter than tag'')
     else let n = length sealed - GCM_TAG_LEN
          in Inr \<lparr> ne_v = 1, ne_alg = as_jose A256Gcm, ne_iv = b64_encode E iv,
                   ne_ct = b64_encode E (take n sealed), ne_tag = b64_encode E (drop n sealed) \<rparr>)"

definition decrypt_name ::
  "crypto_lib \<Rightarrow> bytes \<Rightarrow> bytes \<Rightarrow> bytes \<Rightarrow> NameEnvelope \<Rightarrow> string crypto_result" where
  "decrypt_name E metadata_key root_folder_id target_id envelope =
     rbind (from_jose (ne_alg envelope)) (\<lambda>alg.
     if alg \<noteq> A256Gcm then Inl UnknownAlgorithm
     else
     rbind (ok_or (InvalidInput ''name iv base64url'') (b64_decode E (ne_iv envelope))) (\<lambda>iv.
     if length iv \<noteq> 12 then Inl (InvalidInput ''name iv length'')
     else
     rbind (ok_or (InvalidInput ''name ct base64url'') (b64_decode E (ne_ct envelope))) (\<lambda>ct.
     rbind (ok_or (InvalidInput ''name tag base64url'') (b64_decode E (ne_tag envelope))) (\<lambda>tag.
     rbind (open_sealed E metadata_key iv (ct @ tag) (name_aad root_folder_id target_id)) (\<lambda>plain.
     ok_or (InvalidInput ''decrypted name not utf-8'') (from_utf8 plain))))))"

subsection \<open>The passkey-wrapped private key\<close>

definition KEM_WRAP_LABEL :: bytes where "KEM_WRAP_LABEL = utf8 ''signet-drive-kem-wrap-v1''"

definition prf_salt :: "crypto_lib \<Rightarrow> bytes" where
  "prf_salt E = sha256 E KEM_WRAP_LABEL"

record KemPrivkeyWrap =
  kw_v :: u32
  kw_alg :: string
  kw_iv :: string
  kw_ct :: string
  kw_tag :: string

definition derive_wrap_key :: "crypto_lib \<Rightarrow> bytes \<Rightarrow> bytes crypto_result" where
  "derive_wrap_key E prf_output =
     (if length prf_output \<noteq> 32 then Inl (InvalidInput ''prf output must be 32 bytes'')
      else rbind (hkdf_sha256 E prf_output [] KEM_WRAP_LABEL 32) (\<lambda>k.
           if length k = 32 then Inr k else Inl (InvalidInput ''derived wrap key length'')))"

definition wrap_kem_privkey ::
  "crypto_lib \<Rightarrow> bytes \<Rightarrow> bytes \<Rightarrow> bytes \<Rightarrow> KemPrivkeyWrap crypto_result option" where
  "wrap_kem_privkey E wrap_key pkcs8 iv =
     (case seal E wrap_key iv pkcs8 KEM_WRAP_LABEL of
        Inl e \<Rightarrow> Some (Inl e)
      | Inr sealed \<Rightarrow>
          if length sealed < 16 then None
          else let n = length sealed - 16
               in Some (Inr \<lparr> kw_v = 1, kw_alg = as_jose A256Gcm, kw_iv = b64_encode E iv,
                              kw_ct = b64_encode E (take n sealed),
                              kw_tag = b64_encode E (drop n sealed) \<rparr>))"

definition decode_field :: "crypto_lib \<Rightarrow> string \<Rightarrow> string \<Rightarrow> bytes crypto_result" where
  "decode_field E field what = ok_or (InvalidInput what) (b64_decode E field)"

definition unwrap_kem_privkey :: "crypto_lib \<Rightarrow> bytes \<Rightarrow> KemPrivkeyWrap \<Rightarrow> bytes crypto_result" where
  "unwrap_kem_privkey E wrap_key envelope =
     rbind (from_jose (kw_alg envelope)) (\<lambda>alg.
     if alg \<noteq> A256Gcm then Inl UnknownAlgorithm
     else
     rbind (decode_field E (kw_iv envelope) ''kem wrap iv base64url'') (\<lambda>iv.
     if length iv \<noteq> 12 then Inl (InvalidInput ''kem wrap iv must be 12 bytes'')
     else
     rbind (decode_field E (kw_tag envelope) ''kem wrap tag base64url'') (\<lambda>tag.
     if length tag \<noteq> 16 then Inl (InvalidInput ''kem wrap tag must be 16 bytes'')
     else
     rbind (decode_field E (kw_ct envelope) ''kem wrap ct base64url'') (\<lambda>ct.
     open_sealed E wrap_key iv (ct @ tag) KEM_WRAP_LABEL))))"

subsection \<open>Round trips\<close>

lemmas layout_consts =
  FILE_MAGIC_SINGLE_PUT_def FILE_ALG_A256GCM_def HEADER_LEN_def MIN_ENVELOPE_LEN_def
  FILE_MAGIC_MULTIPART_def MULTIPART_HEADER_LEN_def MULTIPART_MIN_ENVELOPE_LEN_def GCM_TAG_LEN_def

text \<open>
  opening a sealed file with the same key and file id gives the plaintext back, and the envelope
  is exactly 30 bytes longer than the file.
\<close>
theorem file_roundtrip:
  assumes "gcm_correct E" "length iv = 12" "seal_file E dek iv file_id plaintext = Inr envelope"
  shows "open_file E dek file_id envelope = Inr plaintext \<and> length envelope = length plaintext + 30"
proof -
  obtain sealed where s: "seal E dek iv plaintext file_id = Inr sealed"
    "envelope = [FILE_MAGIC_SINGLE_PUT, FILE_ALG_A256GCM] @ iv @ sealed"
    using assms(3) by (auto simp: seal_file_def result_simps)
  from seal_open [OF assms(1) s(1)] assms(2) show ?thesis
    by (simp add: s(2) open_file_def layout_consts)
qed

lemma open_file_Inr:
  assumes "open_file E dek file_id envelope = Inr plaintext"
  obtains iv sealed where "envelope = [FILE_MAGIC_SINGLE_PUT, FILE_ALG_A256GCM] @ iv @ sealed"
    "length iv = 12" "16 \<le> length sealed" "gcm_decrypt E dek iv sealed file_id = Some plaintext"
proof
  let ?iv = "take 12 (drop 2 envelope)" and ?sealed = "drop 14 envelope"
  have len: "30 \<le> length envelope" and hd: "envelope ! 0 = 1" "envelope ! 1 = 1"
    and dec: "gcm_decrypt E dek ?iv ?sealed file_id = Some plaintext"
    using assms by (auto simp: open_file_def layout_consts open_sealed_def result_simps split: if_splits)
  have "?iv @ ?sealed = drop 2 envelope"
    using append_take_drop_id [of 12 "drop 2 envelope"] by simp
  then have "envelope = take 2 envelope @ ?iv @ ?sealed" by simp
  moreover have "take 2 envelope = [1, 1]"
    using len hd by (cases envelope; cases "tl envelope") (auto simp: take_Cons')
  ultimately show "envelope = [FILE_MAGIC_SINGLE_PUT, FILE_ALG_A256GCM] @ ?iv @ ?sealed"
    by (simp add: layout_consts)
  show "length ?iv = 12" "16 \<le> length ?sealed" using len by auto
  show "gcm_decrypt E dek ?iv ?sealed file_id = Some plaintext" by (fact dec)
qed

lemma seal_chunk_Inr:
  assumes "hkdf_sized E" "seal_chunk E dek file_id i n plaintext = Inr envelope"
  obtains iv sealed where "multipart_iv E dek i = Inr iv" "length iv = 12" "i < n"
    "seal E dek iv plaintext (multipart_aad file_id i (i = n - 1)) = Inr sealed"
    "envelope = [FILE_MAGIC_MULTIPART, FILE_ALG_A256GCM] @ be32 i @ iv @ sealed"
  using assms
  by (auto simp: seal_chunk_def result_simps is_last_chunk_def multipart_iv_def split: if_splits)

text \<open>
  opening a sealed chunk at its own position, in a file with the same number of chunks, gives the
  chunk's plaintext back, and the envelope is exactly 34 bytes longer than the chunk.
\<close>
theorem chunk_roundtrip:
  assumes "gcm_correct E" "hkdf_sized E" "seal_chunk E dek file_id i n plaintext = Inr envelope"
  shows "open_chunk E dek file_id i n envelope = Inr plaintext \<and> length envelope = length plaintext + 34"
proof -
  obtain iv sealed where *: "length iv = 12" "i < n"
    "seal E dek iv plaintext (multipart_aad file_id i (i = n - 1)) = Inr sealed"
    "envelope = [FILE_MAGIC_MULTIPART, FILE_ALG_A256GCM] @ be32 i @ iv @ sealed"
    using seal_chunk_Inr [OF assms(2,3)] by metis
  from seal_open [OF assms(1) *(3)] * show ?thesis
    by (auto simp: open_chunk_def is_last_chunk_def layout_consts)
qed

subsection \<open>Whole files of chunks\<close>

fun seal_chunks :: "crypto_lib \<Rightarrow> bytes \<Rightarrow> bytes \<Rightarrow> u32 \<Rightarrow> nat \<Rightarrow> bytes list \<Rightarrow> bytes list crypto_result" where
  "seal_chunks E dek file_id n i [] = Inr []"
| "seal_chunks E dek file_id n i (p # ps) =
     rbind (seal_chunk E dek file_id (of_nat i) n p) (\<lambda>e.
     rbind (seal_chunks E dek file_id n (Suc i) ps) (\<lambda>es. Inr (e # es)))"

fun open_chunks :: "crypto_lib \<Rightarrow> bytes \<Rightarrow> bytes \<Rightarrow> u32 \<Rightarrow> nat \<Rightarrow> bytes list \<Rightarrow> bytes list crypto_result" where
  "open_chunks E dek file_id n i [] = Inr []"
| "open_chunks E dek file_id n i (e # es) =
     rbind (open_chunk E dek file_id (of_nat i) n e) (\<lambda>p.
     rbind (open_chunks E dek file_id n (Suc i) es) (\<lambda>ps. Inr (p # ps)))"

lemma open_chunks_nth:
  "open_chunks E dek file_id n i es = Inr ps \<Longrightarrow>
     length ps = length es \<and> (\<forall>j < length es. open_chunk E dek file_id (of_nat (i + j)) n (es ! j) = Inr (ps ! j))"
proof (induction es arbitrary: i ps)
  case (Cons e es)
  then obtain p qs where ps: "ps = p # qs" "open_chunk E dek file_id (of_nat i) n e = Inr p"
    "open_chunks E dek file_id n (Suc i) es = Inr qs"
    by (auto simp: result_simps)
  from Cons.IH [OF ps(3)] ps(1,2) show ?case
    by (auto simp: nth_Cons less_Suc_eq_0_disj ac_simps split: nat.split)
qed simp

lemma chunks_roundtrip:
  assumes "gcm_correct E" "hkdf_sized E"
  shows "seal_chunks E dek file_id n i ps = Inr es \<Longrightarrow> open_chunks E dek file_id n i es = Inr ps"
proof (induction ps arbitrary: i es)
  case (Cons p ps)
  then show ?case using chunk_roundtrip [OF assms] by (auto simp: result_simps)
qed simp

lemma multipart_aad_inj:
  "length f = length g \<Longrightarrow> multipart_aad f i l = multipart_aad g j m \<longleftrightarrow> f = g \<and> i = j \<and> l = m"
  by (simp add: multipart_aad_def be32.cancel_iff)

text \<open>
  The authenticity a reader of chunks relies on: each ciphertext its decryption accepts, under the
  file's key and the associated data it computed, was sealed under that key with the same associated
  data, for one of the chunks of the file as it was written.
\<close>

definition chunks_authentic :: "crypto_lib \<Rightarrow> bytes \<Rightarrow> bytes \<Rightarrow> bytes list \<Rightarrow> bytes list \<Rightarrow> bool" where
  "chunks_authentic E dek file_id written envelopes \<longleftrightarrow>
     (\<forall>i < length envelopes. \<forall>p.
        gcm_decrypt E dek (take 12 (drop 6 (envelopes ! i))) (drop 18 (envelopes ! i))
          (multipart_aad file_id (of_nat i) (of_nat i = (of_nat (length envelopes) :: u32) - 1)) = Some p \<longrightarrow>
        (\<exists>j < length written. p = written ! j \<and>
           multipart_aad file_id (of_nat i) (of_nat i = (of_nat (length envelopes) :: u32) - 1)
           = multipart_aad file_id (of_nat j) (of_nat j = (of_nat (length written) :: u32) - 1)))"

lemma open_chunk_decrypts:
  "open_chunk E dek file_id i n e = Inr p \<Longrightarrow>
     gcm_decrypt E dek (take 12 (drop 6 e)) (drop 18 e) (multipart_aad file_id i (i = n - 1)) = Some p"
  by (auto simp: open_chunk_def is_last_chunk_def open_sealed_def result_simps layout_consts Let_def
      split: if_splits)

lemma seal_chunks_length: "seal_chunks E dek file_id n i ps = Inr es \<Longrightarrow> length es = length ps"
  by (induction ps arbitrary: i es) (auto simp: result_simps)

lemma sealed_chunks_authentic:
  assumes "gcm_correct E" "hkdf_sized E" "seal_chunks E dek file_id (of_nat (length ps)) 0 ps = Inr es"
  shows "chunks_authentic E dek file_id ps es"
proof -
  have len: "length es = length ps" using assms(3) by (rule seal_chunks_length)
  have opened: "open_chunk E dek file_id (of_nat i) (of_nat (length ps)) (es ! i) = Inr (ps ! i)"
    if "i < length es" for i
    using open_chunks_nth [OF chunks_roundtrip [OF assms]] that by (simp only: add_0 len)
  show ?thesis unfolding chunks_authentic_def len
  proof (intro allI impI)
    fix i p
    assume i: "i < length ps" and
      dec: "gcm_decrypt E dek (take 12 (drop 6 (es ! i))) (drop 18 (es ! i))
        (multipart_aad file_id (of_nat i) (of_nat i = (of_nat (length ps) :: u32) - 1)) = Some p"
    have "p = ps ! i" using open_chunk_decrypts [OF opened] dec i len by simp
    with i show "\<exists>j < length ps. p = ps ! j \<and>
        multipart_aad file_id (of_nat i) (of_nat i = (of_nat (length ps) :: u32) - 1)
        = multipart_aad file_id (of_nat j) (of_nat j = (of_nat (length ps) :: u32) - 1)" by blast
  qed
qed

lemma last_u32:
  assumes "j < n" "n < 4294967296"
  shows "(of_nat j :: u32) = of_nat n - 1 \<longleftrightarrow> j = n - 1"
proof -
  have eq: "(of_nat n - 1 :: u32) = of_nat (n - 1)" using assms by (cases n) simp_all
  show ?thesis
  proof
    assume "(of_nat j :: u32) = of_nat n - 1"
    then have *: "(of_nat j :: u32) = of_nat (n - 1)" by (simp only: eq)
    show "j = n - 1" by (rule of_nat_u32_inj [OF _ _ *]) (use assms in linarith)+
  next
    assume "j = n - 1"
    then show "(of_nat j :: u32) = of_nat n - 1" by (simp only: eq)
  qed
qed

lemma opened_chunks_are_written:
  assumes "open_chunks E dek file_id (of_nat (length envelopes)) 0 envelopes = Inr out"
    and "chunks_authentic E dek file_id written envelopes"
    and "envelopes \<noteq> []" "length envelopes < 4294967296" "length written < 4294967296"
  shows "length envelopes = length written \<and> out = written"
proof -
  let ?M = "length envelopes" and ?N = "length written"
  have len: "length out = ?M" and opened: "\<And>i. i < ?M \<Longrightarrow>
      open_chunk E dek file_id (of_nat i) (of_nat ?M) (envelopes ! i) = Inr (out ! i)"
    using open_chunks_nth [OF assms(1)] by auto
  have at: "i < ?N \<and> out ! i = written ! i \<and> (i = ?M - 1 \<longleftrightarrow> i = ?N - 1)" if i: "i < ?M" for i
  proof -
    have "\<exists>j < ?N. out ! i = written ! j \<and>
        multipart_aad file_id (of_nat i) (of_nat i = (of_nat ?M :: u32) - 1)
        = multipart_aad file_id (of_nat j) (of_nat j = (of_nat ?N :: u32) - 1)"
      using assms(2) open_chunk_decrypts [OF opened [OF i]] i unfolding chunks_authentic_def by blast
    then obtain j where j: "j < ?N" "out ! i = written ! j"
      and aad: "multipart_aad file_id (of_nat i) (of_nat i = (of_nat ?M :: u32) - 1)
        = multipart_aad file_id (of_nat j) (of_nat j = (of_nat ?N :: u32) - 1)"
      by (elim exE conjE)
    note idx = aad [unfolded multipart_aad_inj [OF refl], THEN conjunct2]
    have "i = j" by (rule of_nat_u32_inj [OF _ _ idx [THEN conjunct1]]) (use i j(1) assms(4,5) in linarith)+
    moreover have "(i = ?M - 1) = (j = ?N - 1)"
      using idx [THEN conjunct2] by (simp only: last_u32 [OF i assms(4)] last_u32 [OF j(1) assms(5)])
    ultimately show ?thesis using j(1,2) by (simp only: simp_thms)
  qed
  have pos: "0 < ?M" using assms(3) by simp
  with at [of "?M - 1"] have "?M = ?N" by linarith
  moreover have "out = written"
    by (rule nth_equalityI) (use at len \<open>?M = ?N\<close> in auto)
  ultimately show ?thesis ..
qed

text \<open>
  a reader that opens all the chunks it was given, with the count it was told, reads the file as
  it was written: the count is the true one and every chunk is in its place. Dropping trailing
  chunks and lowering the count, swapping, repeating or replacing chunks all make an open fail.
\<close>
theorem chunks_complete_file:
  assumes "open_chunks E dek file_id (of_nat (length envelopes)) 0 envelopes = Inr out"
    and "chunks_authentic E dek file_id written envelopes"
    and "envelopes \<noteq> []" "length envelopes < 4294967296" "length written < 4294967296"
  shows "length envelopes = length written \<and> out = written"
  by (rule opened_chunks_are_written [OF assms])

subsection \<open>The length of a chunked file\<close>

text \<open>
  A file of \<open>p\<close> bytes cut into chunks of at most \<open>cs\<close> bytes has \<open>chunk_count_of cs p\<close> chunks (one
  empty chunk for an empty file) and takes \<open>framed_len cs p\<close> bytes in storage.
\<close>

definition chunk_count_of :: "nat \<Rightarrow> nat \<Rightarrow> nat" where
  "chunk_count_of cs p = max 1 ((p + (cs - 1)) div cs)"

definition framed_len :: "nat \<Rightarrow> nat \<Rightarrow> nat" where
  "framed_len cs p = p + 34 * chunk_count_of cs p"

lemma overhead [simp]: "MULTIPART_CHUNK_OVERHEAD = 34"
  by (simp add: MULTIPART_CHUNK_OVERHEAD_def layout_consts)

lemma ceil_cases: "0 < b \<Longrightarrow> (a + (b - 1)) div b = (if 0 < a mod b then a div b + 1 else a div b)" for a b :: nat
proof -
  assume b: "0 < b"
  have "a + (b - 1) = b * (a div b) + (a mod b + (b - 1))" by simp
  then have "(a + (b - 1)) div b = a div b + (a mod b + (b - 1)) div b"
    using b by (metis div_mult_self4 neq0_conv)
  moreover have "(a mod b + (b - 1)) div b = (if 0 < a mod b then 1 else 0)"
    using b mod_less_divisor [OF b, of a] by (auto intro!: div_nat_eqI)
  ultimately show ?thesis by simp
qed

lemma unat_u64: "n < 2 ^ 64 \<Longrightarrow> unat (of_nat n :: u64) = n"
  by (simp add: unat_of_nat)

lemma unat_div_ceil:
  assumes "0 < unat b" "1 < unat b"
  shows "\<exists>q. div_ceil a b = Some q \<and> unat q = (unat a + (unat b - 1)) div unat b"
proof -
  have "unat a div unat b < 2 ^ 63"
  proof -
    have "unat a div unat b \<le> unat a div 2" using assms by (intro div_le_mono2) auto
    also have "\<dots> < 2 ^ 63" using unsigned_less [of a, where ?'a = nat] by simp
    finally show ?thesis .
  qed
  then have "unat (a div b + 1) = unat a div unat b + 1"
    by (simp add: unat_plus_if' unat_div)
  moreover have "b \<noteq> 0" using assms by auto
  ultimately show ?thesis
    using ceil_cases [OF assms(1), of "unat a"]
    by (auto simp: div_ceil_def unat_div unat_mod word_less_nat_alt)
qed

lemma multipart_plaintext_len_nat:
  assumes "0 < unat s" "unat s + 34 < 2 ^ 64" "34 \<le> unat c"
    and n: "n = (unat c + (unat s + 33)) div (unat s + 34)"
  shows "multipart_plaintext_len c s =
    Some (if 34 * n \<le> unat c then Some (c - of_nat (34 * n)) else None)"
proof -
  have per: "unat (s + 34) = unat s + 34"
    using assms(2) by (simp add: unat_plus_if')
  obtain q where q: "div_ceil c (s + 34) = Some q" "unat q = n"
    using unat_div_ceil [of "s + 34" c] per n by (auto simp: ac_simps)
  have n1: "1 \<le> n" using assms(1,3) by (simp add: n less_eq_div_iff_mult_less_eq)
  have "n \<le> unat c div (unat s + 34) + 1"
    using ceil_cases [of "unat s + 34" "unat c"] by (auto simp: n ac_simps split: if_splits)
  also have "unat c div (unat s + 34) \<le> unat c div 35"
    using assms(1) by (intro div_le_mono2) auto
  finally have small: "34 * n < 2 ^ 64"
    using unsigned_less [of c, where ?'a = nat] div_times_less_eq_dividend [of "unat c" 35] by simp
  have prod: "unat (q * 34) = 34 * n"
    using small unat_mult_lem [of q 34] unfolding q(2) by (simp add: mult.commute)
  have "q * 34 = of_nat (34 * n)"
    unfolding word_arith_nat_mult [of q 34] q(2) by (simp add: mult.commute)
  moreover have "max q 1 = q" using n1 unfolding q(2) [symmetric]
    by (intro max_absorb1) (simp add: word_le_nat_alt)
  moreover have "s \<noteq> 0" using assms(1) by auto
  moreover have "\<not> c < 34" using assms(3) by (simp add: word_less_nat_alt)
  moreover have "q * 34 \<le> c \<longleftrightarrow> 34 * n \<le> unat c" by (simp only: word_le_nat_alt prod)
  ultimately show ?thesis
    using q(1) by (simp only: multipart_plaintext_len_def overhead Let_def checked_sub_def option.case simp_thms if_False)
qed

lemma chunk_count_bounds:
  assumes "0 < cs"
  shows "1 \<le> chunk_count_of cs p" "p \<le> chunk_count_of cs p * cs"
    "chunk_count_of cs p = 1 \<or> (chunk_count_of cs p - 1) * cs < p"
proof -
  define q where "q = (p + (cs - 1)) div cs"
  have "q * cs \<le> p + (cs - 1)" unfolding q_def by (rule div_times_less_eq_dividend)
  moreover have "p + (cs - 1) < (q + 1) * cs"
    using assms dividend_less_div_times [of cs "p + (cs - 1)"] by (simp add: q_def)
  moreover obtain k where "cs = Suc k" using assms by (cases cs) auto
  ultimately have "p \<le> q * cs" "q = 0 \<or> (q - 1) * cs < p"
    by (simp, cases q, simp_all)
  moreover have "chunk_count_of cs p = max 1 q" by (simp only: chunk_count_of_def q_def)
  ultimately show "1 \<le> chunk_count_of cs p" "p \<le> chunk_count_of cs p * cs"
    "chunk_count_of cs p = 1 \<or> (chunk_count_of cs p - 1) * cs < p"
    by (cases q; auto simp: max_def)+
qed

lemma ceil_framed:
  assumes "0 < cs"
  shows "(framed_len cs p + (cs + 33)) div (cs + 34) = chunk_count_of cs p"
proof (rule div_nat_eqI)
  let ?n = "chunk_count_of cs p"
  note b = chunk_count_bounds [OF assms, of p]
  obtain m where m: "?n = Suc m" using b(1) by (cases ?n) auto
  have "m * cs < p \<or> m = 0" using b(3) m by auto
  then have "m * (cs + 34) < framed_len cs p"
    using m by (auto simp: framed_len_def algebra_simps)
  then show "(cs + 34) * ?n \<le> framed_len cs p + (cs + 33)"
    using m by (simp add: algebra_simps)
  show "framed_len cs p + (cs + 33) < (cs + 34) * Suc ?n"
    using b(2) by (simp add: framed_len_def algebra_simps)
qed

text \<open>
  from the stored size of a chunked file and its chunk size, the code recovers the exact plaintext
  length, for every file whose stored size and chunk size fit the 64-bit arithmetic, the empty file
  and exact multiples of the chunk size included.
\<close>
theorem multipart_plaintext_len_inverts:
  assumes "0 < cs" "cs + 34 < 2 ^ 64" "framed_len cs p < 2 ^ 64"
  shows "multipart_plaintext_len (of_nat (framed_len cs p)) (of_nat cs) = Some (Some (of_nat p))"
proof -
  let ?c = "of_nat (framed_len cs p) :: u64" and ?s = "of_nat cs :: u64"
  have u: "unat ?c = framed_len cs p" "unat ?s = cs"
    using assms by (simp_all add: unat_of_nat)
  have "34 * chunk_count_of cs p \<le> framed_len cs p" by (simp add: framed_len_def)
  moreover have "34 \<le> framed_len cs p"
    using chunk_count_bounds(1) [OF assms(1), of p] by (simp add: framed_len_def)
  moreover have "?c - of_nat (34 * chunk_count_of cs p) = of_nat p"
    by (simp add: framed_len_def)
  ultimately show ?thesis
    using multipart_plaintext_len_nat [of ?s ?c "chunk_count_of cs p"] assms
    by (simp add: u ceil_framed)
qed

text \<open>
  C40: between the largest stored size of a one-chunk file and the smallest of a two-chunk file lie 34
  sizes that no file has, and for those the code returns a length all the same (its documentation
  says that an impossible framing is answered with nothing rather than a wrong number).
\<close>
theorem multipart_plaintext_len_gap:
  assumes "0 < d" "d \<le> 34" "34 \<le> cs" "cs + 68 < 2 ^ 63"
  shows "multipart_plaintext_len (of_nat (cs + 34 + d)) (of_nat cs) = Some (Some (of_nat (cs + d - 34)))
    \<and> (\<nexists>p. framed_len cs p = cs + 34 + d)"
proof
  define c where "c = (of_nat (cs + 34 + d) :: u64)"
  define s where "s = (of_nat cs :: u64)"
  have u: "unat c = cs + 34 + d" "unat s = cs"
    unfolding c_def s_def by (rule unat_u64; use assms in simp)+
  have n: "2 = (unat c + (unat s + 33)) div (unat s + 34)"
    unfolding u by (rule div_nat_eqI [symmetric]) (use assms in \<open>simp_all add: algebra_simps\<close>)
  have "c = of_nat (cs + d - 34) + of_nat (34 * 2)"
    unfolding c_def of_nat_add [symmetric] using assms by (intro arg_cong [of _ _ of_nat]) linarith
  then have sub: "c - of_nat (34 * 2) = of_nat (cs + d - 34)" by (simp only: add_diff_cancel_right')
  have "34 * 2 \<le> unat c" unfolding u using assms by simp
  moreover have "0 < unat s" "unat s + 34 < 2 ^ 64" "34 \<le> unat c" unfolding u using assms by simp_all
  note multipart_plaintext_len_nat [OF this n]
  ultimately have "multipart_plaintext_len c s = Some (Some (of_nat (cs + d - 34)))"
    by (simp only: sub if_True)
  then show "multipart_plaintext_len (of_nat (cs + 34 + d)) (of_nat cs) = Some (Some (of_nat (cs + d - 34)))"
    unfolding c_def s_def .
  show "\<nexists>p. framed_len cs p = cs + 34 + d"
  proof
    assume "\<exists>p. framed_len cs p = cs + 34 + d"
    then obtain p where p: "p + 34 * chunk_count_of cs p = cs + 34 + d" by (auto simp: framed_len_def)
    have b: "1 \<le> chunk_count_of cs p" "p \<le> chunk_count_of cs p * cs"
      "chunk_count_of cs p = 1 \<or> (chunk_count_of cs p - 1) * cs < p"
      using chunk_count_bounds [of cs p] assms by auto
    show False
    proof (cases "chunk_count_of cs p = 1")
      case True
      with p b(2) assms show ?thesis by simp
    next
      case False
      then obtain m where m: "chunk_count_of cs p = Suc (Suc m)"
        using b(1) by (cases "chunk_count_of cs p"; cases "chunk_count_of cs p - 1") auto
      have "cs \<le> Suc m * cs" by simp
      with b(3) m have "cs < p" by simp
      with p m assms show ?thesis by simp
    qed
  qed
qed

subsection \<open>Names and the private key\<close>

text \<open>
  decrypting an encrypted name with the same key, folder and target gives the name back.
\<close>
theorem name_roundtrip:
  assumes "gcm_correct E" "b64_correct E" "length iv = 12" "utf8_valid (utf8 name)"
    and "encrypt_name E iv metadata_key root_folder_id target_id name = Inr envelope"
  shows "decrypt_name E metadata_key root_folder_id target_id envelope = Inr name"
proof -
  obtain sealed where s: "seal E metadata_key iv (utf8 name) (name_aad root_folder_id target_id) = Inr sealed"
    and env: "envelope = \<lparr> ne_v = 1, ne_alg = as_jose A256Gcm, ne_iv = b64_encode E iv,
      ne_ct = b64_encode E (take (length sealed - 16) sealed),
      ne_tag = b64_encode E (drop (length sealed - 16) sealed) \<rparr>"
    using assms(5) by (auto simp: encrypt_name_def result_simps GCM_TAG_LEN_def Let_def split: if_splits)
  from seal_open(1) [OF assms(1) s] assms(2-4) show ?thesis
    by (simp add: env decrypt_name_def from_utf8_utf8 del: as_jose.simps)
qed

text \<open>
  unwrapping a wrapped private key with the same wrap key gives the key back, and wrapping never
  panics on the tag split.
\<close>
theorem kem_privkey_roundtrip:
  assumes "gcm_correct E" "b64_correct E" "length iv = 12"
  shows "\<exists>r. wrap_kem_privkey E wrap_key pkcs8 iv = Some r \<and>
           (case r of Inl e \<Rightarrow> e = InvalidInput ''aes-256-gcm seal''
            | Inr envelope \<Rightarrow> unwrap_kem_privkey E wrap_key envelope = Inr pkcs8)"
proof (cases "seal E wrap_key iv pkcs8 KEM_WRAP_LABEL")
  case (Inl e)
  then show ?thesis by (auto simp: wrap_kem_privkey_def seal_def result_simps)
next
  case (Inr sealed)
  from seal_open [OF assms(1) Inr] assms(2,3) Inr show ?thesis
    by (simp add: wrap_kem_privkey_def unwrap_kem_privkey_def decode_field_def Let_def del: as_jose.simps)
qed

subsection \<open>The theorems at concrete inputs\<close>

lemmas demo_simps = demo_lib_def seal_def open_sealed_def demo_tag_def pad_def hkdf_sha256_def

theorem file_roundtrip_witness:
  "open_file demo_lib [9] [5] ([1, 1] @ replicate 12 3 @ [7] @ demo_tag [9] (replicate 12 3) [5]) = Inr [7]
     \<and> length ([1, 1] @ replicate 12 3 @ [7] @ demo_tag [9] (replicate 12 3) [5]) = 31"
  using file_roundtrip [of demo_lib "replicate 12 3" "[9]" "[5]" "[7]"]
  by (simp add: demo_lib_correct seal_file_def seal_def layout_consts) (simp add: demo_lib_def)

theorem chunk_roundtrip_witness:
  "\<exists>e. seal_chunk demo_lib [9] [5] 0 2 [7] = Inr e \<and> open_chunk demo_lib [9] [5] 0 2 e = Inr [7]"
proof -
  obtain e where e: "seal_chunk demo_lib [9] [5] 0 2 [7] = Inr e"
    by (simp add: seal_chunk_def is_last_chunk_def multipart_iv_def hkdf_sha256_def seal_def demo_lib_def)
  with chunk_roundtrip [OF demo_lib_correct(2,4) e] show ?thesis by blast
qed

theorem multipart_plaintext_len_inverts_witness:
  "multipart_plaintext_len (of_nat (framed_len 1000 2500)) (of_nat 1000) = Some (Some (of_nat 2500))"
  by (rule multipart_plaintext_len_inverts) (simp_all add: framed_len_def chunk_count_of_def)

theorem multipart_plaintext_len_gap_witness:
  "multipart_plaintext_len (of_nat (1000 + 34 + 1)) (of_nat 1000) = Some (Some (of_nat (1000 + 1 - 34)))
     \<and> (\<nexists>p. framed_len 1000 p = 1000 + 34 + 1)"
  by (rule multipart_plaintext_len_gap) simp_all

theorem chunks_complete_file_witness:
  "\<exists>es. open_chunks demo_lib [9] [5] (of_nat (length es)) 0 es = Inr [[7], [8]] \<and> length es = length [[7], [8 :: byte]]"
proof -
  obtain es where es: "seal_chunks demo_lib [9] [5] (of_nat (length [[7], [8 :: byte]])) 0 [[7], [8]] = Inr es"
    by (simp add: seal_chunk_def is_last_chunk_def multipart_iv_def hkdf_sha256_def seal_def demo_lib_def
        word_le_nat_alt)
  have len: "length es = 2" using seal_chunks_length [OF es] by simp
  have opened: "open_chunks demo_lib [9] [5] (of_nat (length es)) 0 es = Inr [[7], [8]]"
    using chunks_roundtrip [OF demo_lib_correct(2,4) es] by (simp add: len)
  have "length es = length [[7], [8 :: byte]] \<and> [[7], [8]] = [[7], [8 :: byte]]"
    by (rule chunks_complete_file [OF opened sealed_chunks_authentic [OF demo_lib_correct(2,4) es]])
      (use len in auto)
  with opened show ?thesis by blast
qed

theorem name_roundtrip_witness:
  "\<exists>e. encrypt_name demo_lib (replicate 12 3) [9] [1] [2] ''a.md'' = Inr e
     \<and> decrypt_name demo_lib [9] [1] [2] e = Inr ''a.md''"
proof -
  obtain e where e: "encrypt_name demo_lib (replicate 12 3) [9] [1] [2] ''a.md'' = Inr e"
    by (simp add: encrypt_name_def seal_def demo_lib_def demo_tag_def GCM_TAG_LEN_def Let_def)
  have "utf8_valid (utf8 ''a.md'')" by (simp add: utf8_def utf8_len_def Let_def)
  with name_roundtrip [OF demo_lib_correct(2,5) _ _ e] e show ?thesis by simp
qed

theorem kem_privkey_roundtrip_witness:
  "\<exists>r. wrap_kem_privkey demo_lib [9] [1, 2] (replicate 12 3) = Some r \<and>
     (case r of Inl e \<Rightarrow> e = InvalidInput ''aes-256-gcm seal''
      | Inr envelope \<Rightarrow> unwrap_kem_privkey demo_lib [9] envelope = Inr [1, 2])"
  by (rule kem_privkey_roundtrip) (simp_all add: demo_lib_correct)

end
