(* ===== verification/Key_Wrap.thy ===== *)
theory Key_Wrap
  imports Crypto_Base
begin

section \<open>Wrapping keys to recipients\<close>

text \<open>
  \<^verbatim>\<open>crypto/src/concatkdf.rs\<close>, \<^verbatim>\<open>crypto/src/wrap.rs\<close> (the classical wrap, P-256 key agreement and AES key
  wrap) and \<^verbatim>\<open>crypto/src/hybrid_wrap.rs\<close> (the hybrid wrap, which also takes an ML-KEM secret).
  The key-derivation loop may in principle not end when the hash returns no bytes, so it is a
  partial function; \<open>None\<close> stands for that and for the \<^verbatim>\<open>expect\<close> on the length of its result, and the
  round-trip theorems show that it does not happen. Zeroization has no counterpart in the model.
\<close>

subsection \<open>Concat-KDF\<close>

definition push_datum :: "bytes \<Rightarrow> bytes \<Rightarrow> bytes" where
  "push_datum buf data = buf @ be32 (of_nat (length data)) @ data"

definition jose_other_info :: "bytes \<Rightarrow> bytes \<Rightarrow> bytes \<Rightarrow> u32 \<Rightarrow> bytes" where
  "jose_other_info algorithm_id party_u party_v keydatalen_bits =
     push_datum (push_datum (push_datum [] algorithm_id) party_u) party_v @ be32 keydatalen_bits"

partial_function (option) concat_kdf_loop ::
  "crypto_lib \<Rightarrow> bytes \<Rightarrow> bytes \<Rightarrow> nat \<Rightarrow> u32 \<Rightarrow> bytes \<Rightarrow> bytes option" where
  "concat_kdf_loop E z other_info out_len counter out =
     (if length out < out_len
      then concat_kdf_loop E z other_info out_len (counter + 1)
             (out @ sha256 E (be32 counter @ z @ other_info))
      else Some out)"

definition concat_kdf_sha256 :: "crypto_lib \<Rightarrow> bytes \<Rightarrow> bytes \<Rightarrow> nat \<Rightarrow> bytes option" where
  "concat_kdf_sha256 E z other_info out_len =
     map_option (take out_len) (concat_kdf_loop E z other_info out_len 1 [])"

definition ecdh_es_a256kw_kek :: "crypto_lib \<Rightarrow> bytes \<Rightarrow> bytes \<Rightarrow> bytes option" where
  "ecdh_es_a256kw_kek E z party_v =
     (let info = jose_other_info (utf8 (as_jose EcdhEsA256Kw)) [] party_v 256
      in case concat_kdf_sha256 E z info 32 of
           None \<Rightarrow> None
         | Some kek \<Rightarrow> if length kek = 32 then Some kek else None)"

subsection \<open>The classical wrap\<close>

record EpkJwk =
  kty :: string
  crv :: string
  jwk_x :: string
  jwk_y :: string

record WrapEnvelope =
  we_v :: u32
  we_alg :: string
  we_epk :: EpkJwk
  we_ct :: string
  we_rfp :: string

definition fixed32 :: "bytes \<Rightarrow> bytes crypto_result" where
  "fixed32 bytes =
     (if length bytes = 32 then Inr bytes else Inl (InvalidInput ''unwrapped key is not 32 bytes''))"

definition epk_jwk :: "crypto_lib \<Rightarrow> bytes \<Rightarrow> EpkJwk" where
  "epk_jwk E point =
     \<lparr> kty = ''EC'', crv = ''P-256'', jwk_x = b64_encode E (take 32 (drop 1 point)),
       jwk_y = b64_encode E (take 32 (drop 33 point)) \<rparr>"

definition x963_from_epk :: "crypto_lib \<Rightarrow> EpkJwk \<Rightarrow> bytes crypto_result" where
  "x963_from_epk E epk =
     (if kty epk \<noteq> ''EC'' \<or> crv epk \<noteq> ''P-256'' then Inl (InvalidInput ''epk must be EC P-256'')
      else
      rbind (ok_or (InvalidInput ''epk x base64url'') (b64_decode E (jwk_x epk))) (\<lambda>x.
      rbind (ok_or (InvalidInput ''epk y base64url'') (b64_decode E (jwk_y epk))) (\<lambda>y.
      if length x \<noteq> 32 \<or> length y \<noteq> 32 then Inl (InvalidInput ''epk coordinates must be 32 bytes'')
      else let point = 0x04 # x @ y
           in rbind (ok_or (InvalidInput ''epk not on curve'') (p256_decode E point)) (\<lambda>_. Inr point))))"

definition wrap_to ::
  "crypto_lib \<Rightarrow> bytes \<Rightarrow> bytes \<Rightarrow> bytes \<Rightarrow> bytes \<Rightarrow> WrapEnvelope crypto_result option" where
  "wrap_to E ephemeral recipient_kem_pub_x963 key party_v =
     (case p256_decode E recipient_kem_pub_x963 of
        None \<Rightarrow> Some (Inl (InvalidInput ''recipient kem public key''))
      | Some _ \<Rightarrow>
     (case ecdh_p256 E ephemeral recipient_kem_pub_x963 of
        Inl e \<Rightarrow> Some (Inl e)
      | Inr z \<Rightarrow>
     (case ecdh_es_a256kw_kek E z party_v of
        None \<Rightarrow> None
      | Some kek \<Rightarrow> Some (
          rbind (keywrap_wrap E kek key) (\<lambda>wrapped.
          rbind (fingerprint E recipient_kem_pub_x963) (\<lambda>rfp.
          Inr \<lparr> we_v = 1, we_alg = as_jose EcdhEsA256Kw, we_epk = epk_jwk E (p256_public E ephemeral),
                we_ct = b64_encode E wrapped, we_rfp = rfp \<rparr>))))))"

definition finish_unwrap :: "crypto_lib \<Rightarrow> bytes \<Rightarrow> WrapEnvelope \<Rightarrow> bytes \<Rightarrow> bytes crypto_result option" where
  "finish_unwrap E z envelope party_v =
     (case from_jose (we_alg envelope) of
        Inl e \<Rightarrow> Some (Inl e)
      | Inr alg \<Rightarrow>
          if alg \<noteq> EcdhEsA256Kw then Some (Inl UnknownAlgorithm)
          else case ecdh_es_a256kw_kek E z party_v of
                 None \<Rightarrow> None
               | Some kek \<Rightarrow> Some (
                   rbind (ok_or (InvalidInput ''wrap ct base64url'') (b64_decode E (we_ct envelope)))
                     (\<lambda>wrapped. keywrap_unwrap E kek wrapped)))"

definition unwrap_with :: "crypto_lib \<Rightarrow> bytes \<Rightarrow> WrapEnvelope \<Rightarrow> bytes \<Rightarrow> bytes crypto_result option" where
  "unwrap_with E recipient_priv_scalar envelope party_v =
     (case rbind (x963_from_epk E (we_epk envelope)) (ecdh_p256 E recipient_priv_scalar) of
        Inl e \<Rightarrow> Some (Inl e)
      | Inr z \<Rightarrow> finish_unwrap E z envelope party_v)"

definition and_fixed32 :: "bytes crypto_result option \<Rightarrow> bytes crypto_result option" where
  "and_fixed32 m = map_option (\<lambda>r. rbind r fixed32) m"

definition wrap_dek :: "crypto_lib \<Rightarrow> bytes \<Rightarrow> bytes \<Rightarrow> bytes \<Rightarrow> WrapEnvelope crypto_result option" where
  "wrap_dek E ephemeral recipient_kem_pub_x963 dek = wrap_to E ephemeral recipient_kem_pub_x963 dek []"

definition unwrap_dek :: "crypto_lib \<Rightarrow> bytes \<Rightarrow> WrapEnvelope \<Rightarrow> bytes crypto_result option" where
  "unwrap_dek E recipient_priv_scalar envelope = and_fixed32 (unwrap_with E recipient_priv_scalar envelope [])"

definition wrap_metadata_key ::
  "crypto_lib \<Rightarrow> bytes \<Rightarrow> bytes \<Rightarrow> bytes \<Rightarrow> bytes \<Rightarrow> WrapEnvelope crypto_result option" where
  "wrap_metadata_key E ephemeral recipient_kem_pub_x963 metadata_key root_folder_id =
     wrap_to E ephemeral recipient_kem_pub_x963 metadata_key root_folder_id"

definition unwrap_metadata_key ::
  "crypto_lib \<Rightarrow> bytes \<Rightarrow> WrapEnvelope \<Rightarrow> bytes \<Rightarrow> bytes crypto_result option" where
  "unwrap_metadata_key E recipient_priv_scalar envelope root_folder_id =
     and_fixed32 (unwrap_with E recipient_priv_scalar envelope root_folder_id)"

definition unwrap_dek_with_shared_secret ::
  "crypto_lib \<Rightarrow> bytes \<Rightarrow> WrapEnvelope \<Rightarrow> bytes crypto_result option" where
  "unwrap_dek_with_shared_secret E z envelope = and_fixed32 (finish_unwrap E z envelope [])"

definition unwrap_metadata_key_with_shared_secret ::
  "crypto_lib \<Rightarrow> bytes \<Rightarrow> WrapEnvelope \<Rightarrow> bytes \<Rightarrow> bytes crypto_result option" where
  "unwrap_metadata_key_with_shared_secret E z envelope root_folder_id =
     and_fixed32 (finish_unwrap E z envelope root_folder_id)"

subsection \<open>The hybrid wrap\<close>

definition KEYDATALEN_BITS :: u32 where "KEYDATALEN_BITS = 256"
definition MLKEM1024_CT_LEN :: nat where "MLKEM1024_CT_LEN = 1568"
definition MLKEM1024_EK_LEN :: nat where "MLKEM1024_EK_LEN = 1568"
definition HYBRID_ALG :: AlgId where "HYBRID_ALG = EcdhEsMlKem1024A256Kw"

record HybridWrapEnvelope =
  hw_v :: u32
  hw_alg :: string
  hw_epk :: EpkJwk
  hw_ek :: string
  hw_wk :: string
  hw_rfp :: string

definition push_field :: "bytes \<Rightarrow> bytes \<Rightarrow> bytes" where
  "push_field buf data = buf @ be32 (of_nat (length data)) @ data"

definition build_fixed_info :: "bytes \<Rightarrow> bytes \<Rightarrow> bytes \<Rightarrow> bytes \<Rightarrow> bytes \<Rightarrow> bytes" where
  "build_fixed_info epk_x963 ek rk_ec_x963 rk_pq party_v =
     foldl push_field []
       [utf8 (as_jose HYBRID_ALG), epk_x963, ek, rk_ec_x963, rk_pq, be32 KEYDATALEN_BITS, party_v]"

definition content_wrap_kek :: "crypto_lib \<Rightarrow> bytes \<Rightarrow> bytes \<Rightarrow> bytes \<Rightarrow> bytes crypto_result" where
  "content_wrap_kek E z_ecdh z_mlkem fixed_info =
     rbind (hkdf_sha256 E (z_ecdh @ z_mlkem) [] fixed_info 32) (\<lambda>kek.
     if length kek = 32 then Inr kek else Inl (InvalidInput ''hybrid kek length''))"

definition validate_recipient_keys :: "crypto_lib \<Rightarrow> bytes \<Rightarrow> bytes \<Rightarrow> unit crypto_result" where
  "validate_recipient_keys E rk_ec_x963 rk_pq =
     (if length rk_ec_x963 \<noteq> 65 \<or> rk_ec_x963 ! 0 \<noteq> 0x04
      then Inl (InvalidInput ''rk_ec must be a 65-byte uncompressed x9.63 point'')
      else
      rbind (ok_or (InvalidInput ''rk_ec not on curve'') (p256_decode E rk_ec_x963)) (\<lambda>_.
      if length rk_pq \<noteq> MLKEM1024_EK_LEN
      then Inl (InvalidInput ''rk_pq must be a 1568-byte ml-kem-1024 encapsulation key'')
      else Inr ()))"

definition hybrid_rfp :: "crypto_lib \<Rightarrow> bytes \<Rightarrow> bytes \<Rightarrow> string crypto_result" where
  "hybrid_rfp E rk_ec_x963 rk_pq =
     rbind (validate_recipient_keys E rk_ec_x963 rk_pq) (\<lambda>_.
     Inr (hex_encode E (sha256 E (push_field (push_field [] rk_ec_x963) rk_pq))))"

definition validate_party_v :: "bytes \<Rightarrow> unit crypto_result" where
  "validate_party_v party_v =
     (if party_v = [] \<or> length party_v = 16 then Inr ()
      else Inl (InvalidInput ''party_v must be empty or a 16-byte root_folder_id''))"

definition wrap_from_secrets ::
  "crypto_lib \<Rightarrow> bytes \<Rightarrow> bytes \<Rightarrow> bytes \<Rightarrow> bytes \<Rightarrow> bytes \<Rightarrow> bytes \<Rightarrow> bytes \<Rightarrow> bytes
     \<Rightarrow> HybridWrapEnvelope crypto_result" where
  "wrap_from_secrets E z_ecdh z_mlkem epk_x963 ek rk_ec_x963 rk_pq key party_v =
     rbind (validate_recipient_keys E rk_ec_x963 rk_pq) (\<lambda>_.
     rbind (validate_party_v party_v) (\<lambda>_.
     if length ek \<noteq> MLKEM1024_CT_LEN then Inl (InvalidInput ''ml-kem ciphertext length'')
     else
     rbind (ok_or (InvalidInput ''epk not on curve'') (p256_decode E epk_x963)) (\<lambda>epk_canon.
     rbind (content_wrap_kek E z_ecdh z_mlkem (build_fixed_info epk_canon ek rk_ec_x963 rk_pq party_v)) (\<lambda>kek.
     rbind (keywrap_wrap E kek key) (\<lambda>wk.
     rbind (hybrid_rfp E rk_ec_x963 rk_pq) (\<lambda>rfp.
     Inr \<lparr> hw_v = 1, hw_alg = as_jose HYBRID_ALG, hw_epk = epk_jwk E epk_canon,
           hw_ek = b64_encode E ek, hw_wk = b64_encode E wk, hw_rfp = rfp \<rparr>))))))"

definition unwrap_with_shared_secrets ::
  "crypto_lib \<Rightarrow> bytes \<Rightarrow> bytes \<Rightarrow> HybridWrapEnvelope \<Rightarrow> bytes \<Rightarrow> bytes \<Rightarrow> bytes \<Rightarrow> bytes crypto_result" where
  "unwrap_with_shared_secrets E z_ecdh z_mlkem envelope rk_ec_x963 rk_pq party_v =
     rbind (from_jose (hw_alg envelope)) (\<lambda>alg.
     if alg \<noteq> HYBRID_ALG then Inl UnknownAlgorithm
     else
     rbind (validate_recipient_keys E rk_ec_x963 rk_pq) (\<lambda>_.
     rbind (validate_party_v party_v) (\<lambda>_.
     rbind (x963_from_epk E (hw_epk envelope)) (\<lambda>epk_x963.
     rbind (ok_or (InvalidInput ''ek base64url'') (b64_decode E (hw_ek envelope))) (\<lambda>ek.
     if length ek \<noteq> MLKEM1024_CT_LEN then Inl (InvalidInput ''ml-kem ciphertext length'')
     else
     rbind (content_wrap_kek E z_ecdh z_mlkem (build_fixed_info epk_x963 ek rk_ec_x963 rk_pq party_v)) (\<lambda>kek.
     rbind (ok_or (InvalidInput ''wk base64url'') (b64_decode E (hw_wk envelope))) (\<lambda>wrapped.
     rbind (keywrap_unwrap E kek wrapped) fixed32)))))))"

subsection \<open>Key derivation\<close>

abbreviation sha_sized :: "crypto_lib \<Rightarrow> bool" where
  "sha_sized E \<equiv> hash32 (sha256_digest E)"

lemma length_sha256: "sha_sized E \<Longrightarrow> length (sha256 E x) = 32"
  by (simp add: hash32_def sha256_def)

lemma concat_kdf_loop_returns:
  assumes "sha_sized E"
  shows "\<exists>rest. concat_kdf_loop E z info n c out = Some (out @ rest) \<and> n \<le> length (out @ rest)"
proof (induction "n - length out" arbitrary: c out rule: less_induct)
  case less
  show ?case
  proof (cases "length out < n")
    case True
    let ?h = "sha256 E (be32 c @ z @ info)"
    have "length ?h = 32" using assms by (rule length_sha256)
    with True have "n - length (out @ ?h) < n - length out"
      unfolding length_append by linarith
    then obtain rest where "concat_kdf_loop E z info n (c + 1) (out @ ?h) = Some ((out @ ?h) @ rest)"
      "n \<le> length ((out @ ?h) @ rest)"
      using less [of "out @ ?h" "c + 1"] by blast
    with True show ?thesis
      by (subst concat_kdf_loop.simps) (auto intro!: exI [of _ "?h @ rest"])
  next
    case False
    then show ?thesis by (subst concat_kdf_loop.simps) auto
  qed
qed

text \<open>
  the key-derivation loop always ends, with exactly the number of bytes asked for, and for a
  32-byte key it is one hash of the counter 1, the shared secret and the context.
\<close>
theorem concat_kdf_total:
  assumes "sha_sized E"
  shows "(\<exists>out. concat_kdf_sha256 E z info n = Some out \<and> length out = n) \<and>
         concat_kdf_sha256 E z info 32 = Some (sha256 E (be32 1 @ z @ info))"
proof
  obtain rest where "concat_kdf_loop E z info n 1 [] = Some rest" "n \<le> length rest"
    using concat_kdf_loop_returns [OF assms, of z info n 1 "[]"] by auto
  then show "\<exists>out. concat_kdf_sha256 E z info n = Some out \<and> length out = n"
    by (auto simp: concat_kdf_sha256_def)
  show "concat_kdf_sha256 E z info 32 = Some (sha256 E (be32 1 @ z @ info))"
    using length_sha256 [OF assms, of "be32 1 @ z @ info"]
    by (simp add: concat_kdf_sha256_def concat_kdf_loop.simps)
qed

lemma kek_value:
  assumes "sha_sized E"
  shows "ecdh_es_a256kw_kek E z v =
    Some (sha256 E (be32 1 @ z @ jose_other_info (utf8 (as_jose EcdhEsA256Kw)) [] v 256))"
proof -
  let ?i = "jose_other_info (utf8 (as_jose EcdhEsA256Kw)) [] v 256"
  have "concat_kdf_sha256 E z ?i 32 = Some (sha256 E (be32 1 @ z @ ?i))"
    using length_sha256 [OF assms, of "be32 1 @ z @ ?i"]
    by (simp add: concat_kdf_sha256_def concat_kdf_loop.simps)
  then show ?thesis using length_sha256 [OF assms] by (simp add: ecdh_es_a256kw_kek_def Let_def)
qed

lemma datum_is_lp: "push_datum buf d = buf @ lp d" "push_field buf d = buf @ lp d"
  by (simp_all add: push_datum_def push_field_def lp_def)

lemma jose_other_info_inj:
  assumes "lp_ok v" "lp_ok w"
  shows "jose_other_info a u v n = jose_other_info a u w n \<longleftrightarrow> v = w"
  using assms by (simp add: jose_other_info_def datum_is_lp lp.cancel_iff lp.last_iff)

definition kek_input :: "bytes \<Rightarrow> bytes \<Rightarrow> bytes" where
  "kek_input z v = be32 1 @ z @ jose_other_info (utf8 (as_jose EcdhEsA256Kw)) [] v 256"

text \<open>
  the key a wrap is made under is bound to the shared secret and to the folder: two derivations
  give the same key only for the same secret and the same \<open>party_v\<close>, unless the hash collides on the
  two inputs. So a metadata key wrapped for one folder is unwrapped under a different key for any
  other folder.
\<close>
theorem kek_binds_context:
  assumes "sha_sized E" "ecdh_es_a256kw_kek E z v = ecdh_es_a256kw_kek E z' v'"
    and "length z = 32" "length z' = 32" "lp_ok v" "lp_ok v'"
    and "inj_on (sha256 E) {kek_input z v, kek_input z' v'}"
  shows "z = z' \<and> v = v'"
proof -
  have "sha256 E (kek_input z v) = sha256 E (kek_input z' v')"
    using assms(2) by (simp add: kek_value [OF assms(1)] kek_input_def)
  then have "kek_input z v = kek_input z' v'" by (rule inj_on_pair [OF assms(7)])
  with assms(3-6) show ?thesis by (simp add: kek_input_def jose_other_info_inj)
qed

subsection \<open>Classical round trips\<close>

lemma split_point65:
  assumes "length p = 65" "hd p = 0x04"
  shows "0x04 # take 32 (drop 1 p) @ take 32 (drop 33 p) = p"
proof -
  obtain q where p: "p = 0x04 # q" "length q = 64" using assms by (cases p) auto
  then have "take 32 q @ drop 32 q = q" "take 32 (drop 32 q) = drop 32 q" by auto
  with p(1) show ?thesis by simp
qed

lemma epk_roundtrip:
  assumes "b64_correct E" "p256_correct E" "p256_decode E x = Some p"
  shows "x963_from_epk E (epk_jwk E p) = Inr p"
proof -
  from assms(2,3) have p: "length p = 65" "hd p = 0x04" "p256_decode E p = Some p"
    by (auto simp: p256_correct_def)
  have "0x04 # take 32 (drop 1 p) @ take 32 (drop 33 p) = p" using p by (intro split_point65)
  with p assms(1) show ?thesis by (simp add: x963_from_epk_def epk_jwk_def Let_def)
qed

lemma wrap_unwrap:
  assumes "b64_correct E" "kw_correct E" "p256_correct E" "p256_scalar E eph" "p256_scalar E s"
    and "wrap_to E eph (p256_public E s) key v = Some (Inr env)"
  shows "unwrap_with E s env v = Some (Inr key)"
proof -
  have pub: "p256_decode E (p256_public E s) = Some (p256_public E s)"
    "p256_decode E (p256_public E eph) = Some (p256_public E eph)"
    "p256_ecdh E eph (p256_public E s) = p256_ecdh E s (p256_public E eph)"
    using assms(3-5) unfolding p256_correct_def by blast+
  obtain kek w rfp where *: "ecdh_es_a256kw_kek E (p256_ecdh E eph (p256_public E s)) v = Some kek"
    "keywrap_wrap E kek key = Inr w"
    "env = \<lparr> we_v = 1, we_alg = as_jose EcdhEsA256Kw, we_epk = epk_jwk E (p256_public E eph),
       we_ct = b64_encode E w, we_rfp = rfp \<rparr>"
    using assms(4,6) pub(1)
    by (auto simp: wrap_to_def ecdh_p256_def result_simps split: option.splits)
  have "x963_from_epk E (we_epk env) = Inr (p256_public E eph)"
    using epk_roundtrip [OF assms(1,3) pub(2)] *(3) by simp
  then show ?thesis
    using * pub assms(1,5) keywrap_roundtrip [OF assms(2) *(2)]
    by (simp add: unwrap_with_def ecdh_p256_def finish_unwrap_def del: as_jose.simps)
qed

text \<open>
  a file key wrapped to a recipient's public key is recovered by the recipient's private key, and
  a metadata key by the private key and the same folder; neither wrap gets stuck in key derivation.
\<close>
theorem wrap_roundtrip:
  assumes "sha_sized E" "b64_correct E" "kw_correct E" "p256_correct E"
    and "p256_scalar E eph" "p256_scalar E s" "length key = 32"
  shows "(\<exists>r. wrap_dek E eph (p256_public E s) key = Some r \<and>
            (\<forall>env. r = Inr env \<longrightarrow> unwrap_dek E s env = Some (Inr key))) \<and>
         (\<exists>r. wrap_metadata_key E eph (p256_public E s) key root = Some r \<and>
            (\<forall>env. r = Inr env \<longrightarrow> unwrap_metadata_key E s env root = Some (Inr key)))"
proof -
  have total: "\<exists>r. wrap_to E eph (p256_public E s) key v = Some r" for v
    by (auto simp: wrap_to_def kek_value [OF assms(1)] split: option.splits sum.splits)
  have fixed: "fixed32 key = Inr key" using assms(7) by (simp add: fixed32_def)
  show ?thesis
    using total [of "[]"] total [of root] wrap_unwrap [OF assms(2-6)] fixed
    by (auto simp: wrap_dek_def unwrap_dek_def wrap_metadata_key_def unwrap_metadata_key_def and_fixed32_def)
qed

subsection \<open>Hybrid wraps\<close>

lemma fixed_info_layout:
  "build_fixed_info epk ek rc rq v =
     lp (utf8 (as_jose HYBRID_ALG)) @ lp epk @ lp ek @ lp rc @ lp rq @ lp (be32 KEYDATALEN_BITS) @ lp v"
  by (simp add: build_fixed_info_def datum_is_lp)

text \<open>
  the context a hybrid key is derived from binds each of its parts: the ephemeral key, the ML-KEM
  ciphertext, both recipient keys and the folder can be read back from it in one way only, so no
  bytes can be moved from one field into the next.
\<close>
theorem fixed_info_binds:
  assumes "build_fixed_info epk ek rc rq v = build_fixed_info epk' ek' rc' rq' v'"
    and "list_all lp_ok [epk, ek, rc, rq, v, epk', ek', rc', rq', v']"
  shows "epk = epk' \<and> ek = ek' \<and> rc = rc' \<and> rq = rq' \<and> v = v'"
  using assms by (simp add: fixed_info_layout lp.cancel_iff lp.last_iff)

lemma hybrid_recovers:
  assumes "b64_correct E" "kw_correct E" "p256_correct E" "length key = 32"
    and "wrap_from_secrets E z_ecdh z_mlkem epk ek rk_ec rk_pq key v = Inr env"
  shows "unwrap_with_shared_secrets E z_ecdh z_mlkem env rk_ec rk_pq v = Inr key"
proof -
  obtain canon kek wk rfp where *: "validate_recipient_keys E rk_ec rk_pq = Inr ()" "validate_party_v v = Inr ()"
    "length ek = MLKEM1024_CT_LEN" "p256_decode E epk = Some canon"
    "content_wrap_kek E z_ecdh z_mlkem (build_fixed_info canon ek rk_ec rk_pq v) = Inr kek"
    "keywrap_wrap E kek key = Inr wk"
    "env = \<lparr> hw_v = 1, hw_alg = as_jose HYBRID_ALG, hw_epk = epk_jwk E canon,
       hw_ek = b64_encode E ek, hw_wk = b64_encode E wk, hw_rfp = rfp \<rparr>"
    using assms(5) by (auto simp: wrap_from_secrets_def result_simps split: if_splits)
  have "x963_from_epk E (epk_jwk E canon) = Inr canon" by (rule epk_roundtrip [OF assms(1,3) *(4)])
  then show ?thesis
    using * assms(1,4) keywrap_roundtrip(1) [OF assms(2) *(6)]
    by (simp add: unwrap_with_shared_secrets_def fixed32_def del: as_jose.simps)
qed


text \<open>
  a key wrapped with the hybrid construction is recovered with the same two shared secrets, the
  same recipient keys and the same folder, whatever encoding of the ephemeral key the sender gave.
\<close>
theorem hybrid_roundtrip:
  assumes "b64_correct E" "kw_correct E" "p256_correct E" "length key = 32"
    and "wrap_from_secrets E z_ecdh z_mlkem epk ek rk_ec rk_pq key v = Inr env"
  shows "unwrap_with_shared_secrets E z_ecdh z_mlkem env rk_ec rk_pq v = Inr key"
  by (rule hybrid_recovers [OF assms])

text \<open>
  neither unwrap accepts the other's envelopes: an envelope is only unwrapped by the path its
  algorithm names, and any other algorithm, known or not, is answered with \<open>UnknownAlgorithm\<close> before
  any key is derived.
\<close>
theorem no_algorithm_confusion:
  "(hw_alg henv \<noteq> as_jose HYBRID_ALG \<longrightarrow>
      unwrap_with_shared_secrets E z z' henv rk_ec rk_pq v = Inl UnknownAlgorithm) \<and>
   (we_alg env \<noteq> as_jose EcdhEsA256Kw \<longrightarrow> finish_unwrap E z env v = Some (Inl UnknownAlgorithm))"
proof -
  have other: "from_jose s = Inl UnknownAlgorithm \<or> (\<exists>b. from_jose s = Inr b \<and> b \<noteq> a)"
    if "s \<noteq> as_jose a" for s a
    using that by (cases "from_jose s") (auto simp: result_simps from_jose_def split: if_splits)
  show ?thesis
    using other [of "hw_alg henv" HYBRID_ALG] other [of "we_alg env" EcdhEsA256Kw]
    by (auto simp: unwrap_with_shared_secrets_def finish_unwrap_def)
qed

text \<open>
  the recipient fingerprint of a hybrid wrap commits to both recipient keys: equal fingerprints
  mean equal keys, so a bundle stripped of its post-quantum key has another fingerprint, unless the
  hash collides on the two key pairs.
\<close>
theorem hybrid_rfp_binds:
  assumes "hybrid_rfp E rc rq = Inr f" "hybrid_rfp E rc' rq' = Inr f" "hex_correct E"
    and "inj_on (sha256 E) {lp rc @ lp rq, lp rc' @ lp rq'}"
  shows "rc = rc' \<and> rq = rq'"
proof -
  have len: "length rc = 65" "length rc' = 65" "length rq = 1568" "length rq' = 1568"
    using assms(1,2)
    by (auto simp: hybrid_rfp_def validate_recipient_keys_def result_simps MLKEM1024_EK_LEN_def split: if_splits)
  have "sha256 E (lp rc @ lp rq) = sha256 E (lp rc' @ lp rq')"
    using assms(1-3) by (auto simp: hybrid_rfp_def result_simps datum_is_lp hex_encode_inj)
  then have "lp rc @ lp rq = lp rc' @ lp rq'" by (rule inj_on_pair [OF assms(4)])
  with len show ?thesis by (simp add: lp.cancel_iff lp.last_iff)
qed

subsection \<open>The theorems at concrete inputs\<close>

theorem concat_kdf_total_witness:
  "(\<exists>out. concat_kdf_sha256 demo_lib [1] [2] 70 = Some out \<and> length out = 70) \<and>
     concat_kdf_sha256 demo_lib [1] [2] 32 = Some (sha256 demo_lib (be32 1 @ [1] @ [2]))"
  by (rule concat_kdf_total) (simp add: demo_lib_correct)

theorem kek_binds_context_witness:
  "replicate 32 1 = rev (replicate 32 (1 :: byte)) \<and> [1, 2] = rev [2, 1 :: byte]"
  by (rule kek_binds_context [where E = demo_lib]) (simp_all add: demo_lib_correct)

theorem wrap_roundtrip_witness:
  "(\<exists>r. wrap_dek demo_lib (replicate 32 1) (p256_public demo_lib (replicate 32 2)) (replicate 32 7) = Some r \<and>
      (\<forall>env. r = Inr env \<longrightarrow> unwrap_dek demo_lib (replicate 32 2) env = Some (Inr (replicate 32 7)))) \<and>
   (\<exists>r. wrap_metadata_key demo_lib (replicate 32 1) (p256_public demo_lib (replicate 32 2)) (replicate 32 7) [5]
        = Some r \<and>
      (\<forall>env. r = Inr env \<longrightarrow> unwrap_metadata_key demo_lib (replicate 32 2) env [5] = Some (Inr (replicate 32 7))))"
  by (rule wrap_roundtrip) (simp_all add: demo_lib_correct demo_p256_correct, simp_all add: demo_lib_def)

theorem fixed_info_binds_witness:
  "[4] = [4 :: byte] \<and> [5, 6] = rev [6, 5 :: byte] \<and> [7] = [7 :: byte] \<and> [8] = [8 :: byte] \<and> [] = ([] :: bytes)"
  by (rule fixed_info_binds) simp_all

theorem hybrid_roundtrip_witness:
  "\<exists>env. wrap_from_secrets demo_lib (replicate 32 1) (replicate 32 2) (4 # replicate 64 3)
       (replicate 1568 4) (4 # replicate 64 5) (replicate 1568 6) (replicate 32 7) [] = Inr env \<and>
     unwrap_with_shared_secrets demo_lib (replicate 32 1) (replicate 32 2) env (4 # replicate 64 5)
       (replicate 1568 6) [] = Inr (replicate 32 7)"
proof -
  obtain env where env: "wrap_from_secrets demo_lib (replicate 32 1) (replicate 32 2) (4 # replicate 64 3)
      (replicate 1568 4) (4 # replicate 64 5) (replicate 1568 6) (replicate 32 7) [] = Inr env"
    by (simp add: wrap_from_secrets_def validate_recipient_keys_def validate_party_v_def content_wrap_kek_def
        hkdf_sha256_def keywrap_wrap_def hybrid_rfp_def MLKEM1024_EK_LEN_def MLKEM1024_CT_LEN_def demo_lib_def)
  with hybrid_roundtrip [OF demo_lib_correct(5,3) demo_p256_correct _ env] show ?thesis by simp
qed

theorem no_algorithm_confusion_witness:
  "unwrap_with_shared_secrets demo_lib [1] [2]
     \<lparr> hw_v = 1, hw_alg = ''ECDH-ES+A256KW'', hw_epk = epk_jwk demo_lib [], hw_ek = [], hw_wk = [], hw_rfp = [] \<rparr>
     [3] [4] [] = Inl UnknownAlgorithm"
  using no_algorithm_confusion [of
    "\<lparr> hw_v = 1, hw_alg = ''ECDH-ES+A256KW'', hw_epk = epk_jwk demo_lib [], hw_ek = [], hw_wk = [], hw_rfp = [] \<rparr>"]
  by (simp add: HYBRID_ALG_def)

theorem hybrid_rfp_binds_witness:
  "4 # replicate 64 5 = 4 # rev (replicate 64 (5 :: byte)) \<and> replicate 1568 6 = rev (replicate 1568 (6 :: byte))"
proof -
  obtain f where f: "hybrid_rfp demo_lib (4 # replicate 64 5) (replicate 1568 6) = Inr f"
    by (simp add: hybrid_rfp_def validate_recipient_keys_def MLKEM1024_EK_LEN_def demo_lib_def)
  then have g: "hybrid_rfp demo_lib (4 # rev (replicate 64 5)) (rev (replicate 1568 6)) = Inr f" by simp
  show ?thesis by (rule hybrid_rfp_binds [OF f g]) (simp_all add: demo_lib_correct)
qed

end
