(* ===== verification/Garnet_Revocation.thy ===== *)
theory Garnet_Revocation
  imports Prelude
begin

section \<open>The broker's revocation lease\<close>

text \<open>
  \<^verbatim>\<open>cli/src/garnet_revocation.rs\<close>: the fail-closed state machine that decides, for one grant, whether
  the broker may perform a Secure-Enclave operation now. Durations and monotonic instants are
  natural numbers of nanoseconds (\<^verbatim>\<open>as_secs\<close> divides by \<open>10 ^ 9\<close>, \<^verbatim>\<open>saturating_duration_since\<close> is
  natural subtraction); \<^verbatim>\<open>i64\<close> values are integers, with the saturating additions and the unsigned to
  signed cast written out. The overflow of a sum of two \<^verbatim>\<open>Duration\<close>s (more than \<open>2 ^ 64\<close> seconds)
  is not modelled: the sums are of configured windows of at most minutes.
\<close>

type_synonym duration = nat
type_synonym instant = nat

definition from_secs :: "nat \<Rightarrow> duration" where "from_secs s = s * 1000000000"
definition as_secs :: "duration \<Rightarrow> nat" where "as_secs d = d div 1000000000"
definition duration_since :: "instant \<Rightarrow> instant \<Rightarrow> duration" where
  "duration_since now at = now - at"

record LeaseConfig =
  lease :: duration
  outage_grace :: duration
  token_skew :: duration

definition LEASE_MIN_SECS :: nat where "LEASE_MIN_SECS = 5"
definition LEASE_MAX_SECS :: nat where "LEASE_MAX_SECS = 120"
definition OUTAGE_GRACE_MIN_SECS :: nat where "OUTAGE_GRACE_MIN_SECS = 0"
definition OUTAGE_GRACE_MAX_SECS :: nat where "OUTAGE_GRACE_MAX_SECS = 600"

definition clamp :: "nat \<Rightarrow> nat \<Rightarrow> nat \<Rightarrow> nat" where
  "clamp x lo hi = (if x < lo then lo else if x > hi then hi else x)"

definition with_server_values :: "LeaseConfig \<Rightarrow> int \<Rightarrow> int \<Rightarrow> LeaseConfig" where
  "with_server_values self lease_seconds outage_grace_seconds =
     (let l = from_secs (clamp (nat (max lease_seconds 0)) LEASE_MIN_SECS LEASE_MAX_SECS);
          g = from_secs (clamp (nat (max outage_grace_seconds 0)) OUTAGE_GRACE_MIN_SECS OUTAGE_GRACE_MAX_SECS);
          budget = lease self + outage_grace self
      in if l + g > budget then self
         else \<lparr> lease = l, outage_grace = g, token_skew = token_skew self \<rparr>)"

record ServerSla =
  lease_seconds :: int
  outage_grace_seconds :: int

datatype GrantStatusOutcome =
    Live int "ServerSla option"
  | RevokedOutcome
  | UnreachableOutcome

definition live :: "int \<Rightarrow> GrantStatusOutcome" where
  "live server_time = Live server_time None"

definition live_with_sla :: "int \<Rightarrow> int \<Rightarrow> int \<Rightarrow> GrantStatusOutcome" where
  "live_with_sla server_time l g = Live server_time (Some \<lparr> lease_seconds = l, outage_grace_seconds = g \<rparr>)"

datatype FailReason = RevokedGrant | Unreachable | TokenExpired

datatype Decision = Serve | ReconfirmRequired | FailClosed FailReason

record Confirm =
  server_time :: int
  confirm_at :: instant

record GrantLease =
  last_confirm :: "Confirm option"
  trusted_floor :: int
  server_sla :: "LeaseConfig option"

definition new_lease :: GrantLease where
  "new_lease = \<lparr> last_confirm = None, trusted_floor = i64_min, server_sla = None \<rparr>"

definition effective :: "GrantLease \<Rightarrow> LeaseConfig \<Rightarrow> LeaseConfig" where
  "effective self defaults = (case server_sla self of None \<Rightarrow> defaults | Some c \<Rightarrow> c)"

definition trusted_now :: "GrantLease \<Rightarrow> Confirm \<Rightarrow> duration \<Rightarrow> int" where
  "trusted_now self confirm age =
     max (saturating_add (server_time confirm) (u64_as_i64 (as_secs age))) (trusted_floor self)"

definition token_exp_decision :: "GrantLease \<Rightarrow> Confirm \<Rightarrow> duration \<Rightarrow> int \<Rightarrow> LeaseConfig \<Rightarrow> Decision" where
  "token_exp_decision self confirm age token_exp cfg =
     (let skew = u64_as_i64 (as_secs (token_skew cfg))
      in if saturating_add token_exp skew < trusted_now self confirm age
         then FailClosed TokenExpired else Serve)"

definition decide :: "GrantLease \<Rightarrow> instant \<Rightarrow> int \<Rightarrow> LeaseConfig \<Rightarrow> Decision" where
  "decide self now token_exp defaults =
     (let cfg = effective self defaults
      in case last_confirm self of
           None \<Rightarrow> ReconfirmRequired
         | Some confirm \<Rightarrow>
             (let age = duration_since now (confirm_at confirm)
              in if age \<ge> lease cfg then ReconfirmRequired
                 else token_exp_decision self confirm age token_exp cfg))"

definition on_grant_status ::
  "GrantLease \<Rightarrow> GrantStatusOutcome \<Rightarrow> instant \<Rightarrow> int \<Rightarrow> LeaseConfig \<Rightarrow> Decision \<times> GrantLease" where
  "on_grant_status self outcome now token_exp defaults =
     (case outcome of
        Live t sla \<Rightarrow>
          (let self = (case sla of
                         None \<Rightarrow> self
                       | Some s \<Rightarrow> self\<lparr> server_sla :=
                           Some (with_server_values defaults (lease_seconds s) (outage_grace_seconds s)) \<rparr>);
               cfg = effective self defaults;
               anchored = max t (trusted_floor self);
               confirm = \<lparr> server_time = anchored, confirm_at = now \<rparr>;
               self = self\<lparr> trusted_floor := anchored, last_confirm := Some confirm \<rparr>
           in (token_exp_decision self confirm 0 token_exp cfg, self))
      | RevokedOutcome \<Rightarrow> (FailClosed RevokedGrant, self)
      | UnreachableOutcome \<Rightarrow>
          (let cfg = effective self defaults
           in case last_confirm self of
                Some confirm \<Rightarrow>
                  (let age = duration_since now (confirm_at confirm)
                   in if age < lease cfg + outage_grace cfg
                      then (token_exp_decision self confirm age token_exp cfg, self)
                      else (FailClosed Unreachable, self))
              | None \<Rightarrow> (FailClosed Unreachable, self)))"

subsection \<open>Adopting the server's values\<close>

definition config_ok :: "LeaseConfig \<Rightarrow> LeaseConfig \<Rightarrow> bool" where
  "config_ok defaults c \<longleftrightarrow>
     lease c + outage_grace c \<le> lease defaults + outage_grace defaults \<and> token_skew c = token_skew defaults"

lemma config_ok_refl [simp]: "config_ok c c"
  by (simp add: config_ok_def)

text \<open>
  whatever numbers the server sends, negative or absurd ones included, the configuration the broker
  adopts never exceeds the deployment's total budget, keeps its token skew, and is either the compiled
  one or has a lease of 5 to 120 seconds and a grace of at most 600.
\<close>
theorem with_server_values_bounded:
  "config_ok self (with_server_values self l g) \<and>
   (with_server_values self l g = self \<or>
    from_secs 5 \<le> lease (with_server_values self l g) \<and> lease (with_server_values self l g) \<le> from_secs 120 \<and>
    outage_grace (with_server_values self l g) \<le> from_secs 600)"
  by (auto simp: with_server_values_def config_ok_def Let_def clamp_def from_secs_def LEASE_MIN_SECS_def
      LEASE_MAX_SECS_def OUTAGE_GRACE_MIN_SECS_def OUTAGE_GRACE_MAX_SECS_def)

lemma with_server_values_ok: "config_ok d (with_server_values d l g)"
  by (auto simp: with_server_values_def config_ok_def Let_def)

subsection \<open>The contract of a grant gate\<close>

text \<open>
  What the broker relies on when it asks a gate before an operation: \<open>ask\<close> may serve, refuse or
  request a confirmation, \<open>tell\<close> takes the server's answer. A gate serves without a fresh affirmative
  only within \<open>budget\<close> of the last one (\<open>confirmed\<close>), never serves on a definitive refusal, and always
  resolves once told.
\<close>

locale grant_gate =
  fixes ask :: "'g \<Rightarrow> instant \<Rightarrow> int \<Rightarrow> Decision"
    and tell :: "'g \<Rightarrow> GrantStatusOutcome \<Rightarrow> instant \<Rightarrow> int \<Rightarrow> Decision \<times> 'g"
    and confirmed :: "'g \<Rightarrow> instant option" and good :: "'g \<Rightarrow> bool" and budget :: duration
  assumes ask_serves: "good g \<Longrightarrow> ask g now exp = Serve \<Longrightarrow> \<exists>at. confirmed g = Some at \<and> now - at < budget"
    and tell_unreachable: "good g \<Longrightarrow> fst (tell g UnreachableOutcome now exp) = Serve \<Longrightarrow>
      \<exists>at. confirmed g = Some at \<and> now - at < budget"
    and tell_revoked: "fst (tell g RevokedOutcome now exp) \<noteq> Serve"
    and tell_resolves: "fst (tell g out now exp) \<noteq> ReconfirmRequired"
    and tell_good: "good g \<Longrightarrow> good (snd (tell g out now exp))"
    and tell_confirms: "confirmed (snd (tell g out now exp)) =
      (case out of Live _ _ \<Rightarrow> Some now | _ \<Rightarrow> confirmed g)"
begin

text \<open>One use of the gate: ask, and if a confirmation is needed, obtain the answer and tell it.\<close>

definition use_gate :: "'g \<Rightarrow> instant \<Rightarrow> GrantStatusOutcome \<Rightarrow> instant \<Rightarrow> int \<Rightarrow> Decision \<times> 'g" where
  "use_gate g now out now' exp =
     (case ask g now exp of ReconfirmRequired \<Rightarrow> tell g out now' exp | d \<Rightarrow> (d, g))"

lemma use_gate_serves:
  assumes "good g" "fst (use_gate g now out now' exp) = Serve" "now \<le> now'"
  shows "ask g now exp = ReconfirmRequired \<and> (\<exists>t sla. out = Live t sla) \<or>
    (\<exists>at. confirmed g = Some at \<and> now - at < budget)"
proof (cases "ask g now exp")
  case Serve
  with ask_serves assms(1) show ?thesis by blast
next
  case ReconfirmRequired
  then have told: "fst (tell g out now' exp) = Serve" using assms(2) by (simp add: use_gate_def)
  show ?thesis
  proof (cases out)
    case UnreachableOutcome
    with tell_unreachable [OF assms(1)] told obtain at where "confirmed g = Some at" "now' - at < budget"
      by blast
    moreover have "now - at \<le> now' - at" using assms(3) by (rule diff_le_mono)
    ultimately show ?thesis using le_less_trans by blast
  qed (use ReconfirmRequired told tell_revoked in auto)
qed (use assms(2) in \<open>simp_all add: use_gate_def\<close>)

lemma use_gate_resolves: "fst (use_gate g now out now' exp) \<noteq> ReconfirmRequired"
  using tell_resolves by (auto simp: use_gate_def split: Decision.split)

lemma use_gate_good: "good g \<Longrightarrow> good (snd (use_gate g now out now' exp))"
  using tell_good by (auto simp: use_gate_def split: Decision.split)

end

subsection \<open>The lease is a grant gate\<close>

definition lease_ok :: "LeaseConfig \<Rightarrow> GrantLease \<Rightarrow> bool" where
  "lease_ok defaults l \<longleftrightarrow> (\<forall>c. server_sla l = Some c \<longrightarrow> config_ok defaults c)"

lemma effective_ok: "lease_ok defaults l \<Longrightarrow> config_ok defaults (effective l defaults)"
  by (auto simp: lease_ok_def effective_def split: option.split)

lemma token_exp_decision_cases: "token_exp_decision l c age exp cfg \<in> {Serve, FailClosed TokenExpired}"
  by (simp add: token_exp_decision_def Let_def)

lemma token_exp_decision_not_reconfirm [simp]:
  "token_exp_decision l c age exp cfg \<noteq> ReconfirmRequired"
  by (simp add: token_exp_decision_def Let_def)

lemma decide_Serve:
  "decide l now exp defaults = Serve \<longleftrightarrow>
     (\<exists>c. last_confirm l = Some c \<and> now - confirm_at c < lease (effective l defaults) \<and>
        token_exp_decision l c (now - confirm_at c) exp (effective l defaults) = Serve)"
  by (auto simp: decide_def Let_def duration_since_def split: option.splits)

lemma unreachable_Serve:
  "fst (on_grant_status l UnreachableOutcome now exp defaults) = Serve \<longleftrightarrow>
     (\<exists>c. last_confirm l = Some c \<and>
        now - confirm_at c < lease (effective l defaults) + outage_grace (effective l defaults) \<and>
        token_exp_decision l c (now - confirm_at c) exp (effective l defaults) = Serve)"
  by (auto simp: on_grant_status_def Let_def duration_since_def split: option.splits)

interpretation lease_gate: grant_gate
  "\<lambda>l now exp. decide l now exp defaults" "\<lambda>l out now exp. on_grant_status l out now exp defaults"
  "\<lambda>l. map_option confirm_at (last_confirm l)" "lease_ok defaults" "lease defaults + outage_grace defaults"
  for defaults
proof
  fix g now exp
  assume ok: "lease_ok defaults g"
  note cfg = effective_ok [OF ok, unfolded config_ok_def]
  show "decide g now exp defaults = Serve \<Longrightarrow>
      \<exists>at. map_option confirm_at (last_confirm g) = Some at \<and> now - at < lease defaults + outage_grace defaults"
    using cfg by (force simp: decide_Serve)
  show "fst (on_grant_status g UnreachableOutcome now exp defaults) = Serve \<Longrightarrow>
      \<exists>at. map_option confirm_at (last_confirm g) = Some at \<and> now - at < lease defaults + outage_grace defaults"
    using cfg by (force simp: unreachable_Serve)
  fix out
  show "lease_ok defaults (snd (on_grant_status g out now exp defaults))"
    using ok by (auto simp: lease_ok_def on_grant_status_def Let_def with_server_values_ok
        split: GrantStatusOutcome.split option.splits)
qed (auto simp: on_grant_status_def Let_def split: GrantStatusOutcome.split option.splits)

subsection \<open>Runs\<close>

text \<open>
  A run of one lease: the answers fed to it, newest first, each at an instant no earlier than the one
  before. \<open>decide\<close> does not change the lease, so only answers do.
\<close>

type_synonym history = "(instant \<times> GrantStatusOutcome) list"

inductive lease_run :: "LeaseConfig \<Rightarrow> history \<Rightarrow> GrantLease \<Rightarrow> bool" for cfg where
  cold: "lease_run cfg [] new_lease"
| answer: "lease_run cfg h l \<Longrightarrow> (\<forall>(t, _) \<in> set h. t \<le> now) \<Longrightarrow>
     on_grant_status l out now exp cfg = (d, l') \<Longrightarrow> lease_run cfg ((now, out) # h) l'"

inductive_cases lease_run_ConsE: "lease_run cfg (e # h) l"

fun last_live :: "history \<Rightarrow> instant option" where
  "last_live [] = None"
| "last_live ((t, Live _ _) # h) = Some t"
| "last_live ((t, _) # h) = last_live h"

definition server_times :: "history \<Rightarrow> int list" where
  "server_times h = concat (map (\<lambda>(_, out). case out of Live s _ \<Rightarrow> [s] | _ \<Rightarrow> []) h)"

definition run_inv :: "LeaseConfig \<Rightarrow> history \<Rightarrow> GrantLease \<Rightarrow> bool" where
  "run_inv cfg h l \<longleftrightarrow>
     lease_ok cfg l \<and> map_option confirm_at (last_confirm l) = last_live h \<and>
     trusted_floor l = foldr max (server_times h) i64_min \<and>
     (\<forall>c. last_confirm l = Some c \<longrightarrow> server_time c = trusted_floor l)"

lemma server_times_Cons [simp]:
  "server_times ((t, Live s sla) # h) = s # server_times h"
  "server_times ((t, RevokedOutcome) # h) = server_times h"
  "server_times ((t, UnreachableOutcome) # h) = server_times h"
  by (simp_all add: server_times_def)

lemma on_grant_status_Live:
  "on_grant_status l (Live t sla) now exp cfg = (d, l') \<Longrightarrow>
     last_confirm l' = Some \<lparr> server_time = max t (trusted_floor l), confirm_at = now \<rparr> \<and>
     trusted_floor l' = max t (trusted_floor l)"
  by (auto simp: on_grant_status_def Let_def split: option.splits)

lemma on_grant_status_other:
  "out = RevokedOutcome \<or> out = UnreachableOutcome \<Longrightarrow> snd (on_grant_status l out now exp cfg) = l"
  by (auto simp: on_grant_status_def Let_def split: option.splits)

lemma lease_run_inv: "lease_run cfg h l \<Longrightarrow> run_inv cfg h l"
proof (induction rule: lease_run.induct)
  case cold
  show ?case by (simp add: run_inv_def new_lease_def lease_ok_def server_times_def)
next
  case (answer h l now out exp d l')
  have ok: "lease_ok cfg l'"
    using lease_gate.tell_good [of cfg l out now exp] answer by (simp add: run_inv_def)
  show ?case
  proof (cases out)
    case (Live t sla)
    with answer ok on_grant_status_Live [of l t sla now exp cfg d l'] show ?thesis
      by (simp add: run_inv_def)
  next
    case RevokedOutcome
    with answer ok on_grant_status_other [of out l now exp cfg] show ?thesis by (simp add: run_inv_def)
  next
    case UnreachableOutcome
    with answer ok on_grant_status_other [of out l now exp cfg] show ?thesis by (simp add: run_inv_def)
  qed
qed

text \<open>
  C14: in every run, an operation is served without a fresh affirmative answer only if the server's last
  affirmative answer came less than the deployment's total budget (lease plus outage grace) ago,
  whatever service levels the server asked for in between; with no affirmative answer yet, nothing is
  served.
\<close>
theorem serves_within_budget:
  assumes "lease_run cfg h l"
    and "decide l now exp cfg = Serve \<or> fst (on_grant_status l UnreachableOutcome now exp cfg) = Serve"
  shows "\<exists>at. last_live h = Some at \<and> now - at < lease cfg + outage_grace cfg"
  using assms(2) lease_run_inv [OF assms(1), unfolded run_inv_def]
    lease_gate.ask_serves [of cfg l now exp] lease_gate.tell_unreachable [of cfg l now exp]
  by auto

lemma foldr_max_upper: "x \<in> set xs \<Longrightarrow> x \<le> foldr max xs (a :: int)"
  by (induction xs) (auto simp: le_max_iff_disj)

lemma Serve_not_expired:
  "token_exp_decision l c age exp cfg = Serve \<Longrightarrow>
     trusted_floor l \<le> saturating_add exp (u64_as_i64 (as_secs (token_skew cfg)))"
  by (auto simp: token_exp_decision_def trusted_now_def Let_def split: if_splits)

text \<open>
  a token that some confirmed server time in the run already showed to be expired, beyond the
  configured skew, is never served again, in whatever order the server's clock readings arrived.
\<close>
theorem confirmed_time_never_forgotten:
  assumes "lease_run cfg h l" "s \<in> set (server_times h)"
    and "decide l now exp cfg = Serve \<or> fst (on_grant_status l out now exp cfg) = Serve"
  shows "s \<le> saturating_add exp (u64_as_i64 (as_secs (token_skew cfg)))"
proof -
  have inv: "lease_ok cfg l" "trusted_floor l = foldr max (server_times h) i64_min"
    using lease_run_inv [OF assms(1)] by (simp_all add: run_inv_def)
  then have s: "s \<le> trusted_floor l" using foldr_max_upper [OF assms(2)] by simp
  have skew: "token_skew (effective l cfg) = token_skew cfg"
    using effective_ok [OF inv(1)] by (simp add: config_ok_def)
  from assms(3) consider "decide l now exp cfg = Serve"
    | "out = UnreachableOutcome" "fst (on_grant_status l out now exp cfg) = Serve"
    | t sla where "out = Live t sla" "fst (on_grant_status l out now exp cfg) = Serve"
    by (cases out) (auto simp: on_grant_status_def)
  then show ?thesis
  proof cases
    case 1
    then show ?thesis using s skew Serve_not_expired by (fastforce simp: decide_Serve)
  next
    case 2
    then show ?thesis using s skew Serve_not_expired by (fastforce simp: unreachable_Serve)
  next
    case 3
    obtain d l' where l': "on_grant_status l (Live t sla) now exp cfg = (d, l')" by fastforce
    have "lease_ok cfg l'" using lease_gate.tell_good [OF inv(1), of "Live t sla" now exp] l' by simp
    then have "token_skew (effective l' cfg) = token_skew cfg"
      using effective_ok by (simp add: config_ok_def)
    moreover have "token_exp_decision l' \<lparr> server_time = max t (trusted_floor l), confirm_at = now \<rparr> 0 exp
        (effective l' cfg) = Serve"
      using 3 l' by (auto simp: on_grant_status_def Let_def effective_def split: option.splits)
    ultimately show ?thesis
      using Serve_not_expired [of l'] on_grant_status_Live [OF l'] s by fastforce
  qed
qed

text \<open>
  a definitive refusal is refused at once whatever lease is held, an unreachable server is refused
  when cold, and being told any answer always resolves to serving or refusing.
\<close>
theorem answers_fail_closed:
  "fst (on_grant_status l RevokedOutcome now exp cfg) = FailClosed RevokedGrant \<and>
   decide new_lease now exp cfg = ReconfirmRequired \<and>
   fst (on_grant_status new_lease UnreachableOutcome now exp cfg) = FailClosed Unreachable \<and>
   fst (on_grant_status l out now exp cfg) \<noteq> ReconfirmRequired"
  using lease_gate.tell_resolves [of l out now exp cfg]
  by (simp add: on_grant_status_def decide_def new_lease_def Let_def)

subsection \<open>Two limits of the lease\<close>

abbreviation secs :: "nat \<Rightarrow> duration" where "secs n \<equiv> n * 1000000000"

definition default_lease_config :: LeaseConfig where
  "default_lease_config = \<lparr> lease = from_secs 30, outage_grace = from_secs 90, token_skew = from_secs 30 \<rparr>"

lemmas lease_eval = on_grant_status_def decide_def token_exp_decision_def trusted_now_def effective_def
  new_lease_def duration_since_def from_secs_def as_secs_def saturating_add_def u64_as_i64_def
  i64_min_def i64_max_def default_lease_config_def Let_def



subsection \<open>The theorems at a concrete run\<close>

definition demo_lease :: GrantLease where
  "demo_lease = snd (on_grant_status new_lease (live 1000) 0 5000 default_lease_config)"

lemma demo_run: "lease_run default_lease_config [(0, live 1000)] demo_lease"
  unfolding demo_lease_def
  by (rule lease_run.answer [OF lease_run.cold _ prod.collapse [symmetric]]) simp

lemma demo_lease_serves: "decide demo_lease (secs 20) 5000 default_lease_config = Serve"
  by (simp add: demo_lease_def lease_eval live_def)

theorem serves_within_budget_witness:
  "\<exists>at. last_live [(0, live 1000)] = Some at \<and>
     secs 20 - at < lease default_lease_config + outage_grace default_lease_config"
  by (rule serves_within_budget [OF demo_run disjI1 [OF demo_lease_serves]])

theorem confirmed_time_never_forgotten_witness:
  "1000 \<le> saturating_add 5000 (u64_as_i64 (as_secs (token_skew default_lease_config)))"
  by (rule confirmed_time_never_forgotten [OF demo_run _ disjI1 [OF demo_lease_serves]])
    (simp add: live_def)

end
