(* ===== verification/X509.thy ===== *)
theory X509
  imports Crypto_Base
begin

section \<open>Certificates\<close>

text \<open>
  \<^verbatim>\<open>crypto/src/x509.rs\<close>: the depth-one certificate authority of the broker channel, issuing and
  verifying. DER, PEM and the certificate builder come from \<^verbatim>\<open>x509-cert\<close>, \<^verbatim>\<open>der\<close> and \<^verbatim>\<open>p256\<close>: the record
  \<open>x509_lib\<close> has one field for each function called. A decoded certificate is the record of the parts
  the sources read; names, key infos and serial numbers, which the sources only compare and pass on, are
  byte strings, object identifiers are their dotted text. \<open>builder_correct\<close> says what the builder
  documents: a built certificate carries what it was given, is signed by the given key, and decodes to
  itself.
\<close>

definition ECDSA_WITH_SHA256 :: string where "ECDSA_WITH_SHA256 = ''1.2.840.10045.4.3.2''"
definition ID_KP_CLIENT_AUTH :: string where "ID_KP_CLIENT_AUTH = ''1.3.6.1.5.5.7.3.2''"
definition ID_KP_SERVER_AUTH :: string where "ID_KP_SERVER_AUTH = ''1.3.6.1.5.5.7.3.1''"
definition SAN_URN_PREFIX :: string where "SAN_URN_PREFIX = ''urn:signet:prsn:''"
definition SAN_URN_BROKER_PREFIX :: string where "SAN_URN_BROKER_PREFIX = ''urn:signet:broker:''"
definition SAN_URN_SERVER_PREFIX :: string where "SAN_URN_SERVER_PREFIX = ''urn:signet:server:''"

type_synonym oid = string
type_synonym x509_name = bytes
type_synonym spki = bytes

datatype GeneralName = UniformResourceIdentifier string | OtherGeneralName bytes

record Extension =
  extn_id :: oid
  extn_value :: bytes

record Certificate =
  signature_algorithm :: oid
  issuer :: x509_name
  subject :: x509_name
  subject_public_key_info :: spki
  not_before :: nat
  not_after :: nat
  serial_number :: bytes
  extensions :: "Extension list option"
  tbs_der :: "bytes option"
  signature_bits :: "bytes option"

record CertReq =
  req_algorithm :: oid
  req_public_key :: spki
  req_info_der :: "bytes option"
  req_signature_bits :: "bytes option"

datatype ExtensionSpec =
    SubjectAltName "GeneralName list"
  | ExtendedKeyUsage "oid list"
  | BasicConstraints bool "nat option"
  | KeyUsage "string list"

datatype Profile = Leaf x509_name | Manual x509_name

record 'b x509_lib =
  cert_from_der :: "bytes \<Rightarrow> Certificate option"
  cert_to_der :: "Certificate \<Rightarrow> bytes option"
  cert_from_pem :: "string \<Rightarrow> Certificate option"
  cert_to_pem :: "Certificate \<Rightarrow> string option"
  req_from_der :: "bytes \<Rightarrow> CertReq option"
  spki_to_der :: "spki \<Rightarrow> bytes option"
  spki_from_der :: "bytes \<Rightarrow> spki option"
  point_from_spki_der :: "bytes \<Rightarrow> bytes option"
  san_from_der :: "bytes \<Rightarrow> GeneralName list option"
  bc_from_der :: "bytes \<Rightarrow> bool option"
  eku_from_der :: "bytes \<Rightarrow> oid list option"
  oid_from_str :: "string \<Rightarrow> oid option"
  name_from_str :: "string \<Rightarrow> x509_name option"
  serial_new :: "bytes \<Rightarrow> bytes option"
  validity_from_now :: "nat \<Rightarrow> (nat \<times> nat) option"
  ia5_new :: "string \<Rightarrow> string option"
  builder_new :: "Profile \<Rightarrow> bytes \<Rightarrow> nat \<times> nat \<Rightarrow> x509_name \<Rightarrow> spki \<Rightarrow> bytes \<Rightarrow> 'b option"
  add_extension :: "'b \<Rightarrow> ExtensionSpec \<Rightarrow> 'b option"
  build :: "'b \<Rightarrow> Certificate option"
  build_req_der :: "x509_name \<Rightarrow> bytes \<Rightarrow> bytes crypto_result"

record VerifiedCsr =
  csr_spki :: spki
  csr_pubkey_x963 :: bytes

record IssuedCert =
  ic_der :: bytes
  ic_pem :: string
  ic_serial_hex :: string
  ic_thumbprint_b64url :: string

subsection \<open>Certificate requests\<close>

definition verify_csr :: "crypto_lib \<Rightarrow> 'b x509_lib \<Rightarrow> bytes \<Rightarrow> VerifiedCsr crypto_result" where
  "verify_csr E X csr_der =
     rbind (ok_or (InvalidInput ''garnet csr der'') (req_from_der X csr_der)) (\<lambda>csr.
     if req_algorithm csr \<noteq> ECDSA_WITH_SHA256 then Inl (InvalidInput ''garnet csr signature algorithm'')
     else
       let spki = req_public_key csr in
       rbind (ok_or (InvalidInput ''garnet csr spki'') (spki_to_der X spki)) (\<lambda>spki_der.
       rbind (ok_or (InvalidInput ''garnet csr key not P-256'') (point_from_spki_der X spki_der)) (\<lambda>pubkey_x963.
       rbind (ok_or (InvalidInput ''garnet csr info'') (req_info_der csr)) (\<lambda>signed.
       rbind (ok_or (InvalidInput ''garnet csr signature bits'') (req_signature_bits csr)) (\<lambda>sig.
       rbind (verify_es256 E pubkey_x963 signed sig) (\<lambda>_.
       Inr \<lparr> csr_spki = spki, csr_pubkey_x963 = pubkey_x963 \<rparr>))))))"

definition x509_name_of :: "'b x509_lib \<Rightarrow> string \<Rightarrow> x509_name crypto_result" where
  "x509_name_of X s = ok_or (InvalidInput ''garnet x509 name'') (name_from_str X s)"

definition build_csr :: "crypto_lib \<Rightarrow> 'b x509_lib \<Rightarrow> bytes \<Rightarrow> string \<Rightarrow> bytes crypto_result" where
  "build_csr E X scalar subject_cn =
     rbind (guard (p256_scalar E scalar) (InvalidInput ''garnet csr key'')) (\<lambda>_.
     rbind (x509_name_of X (''CN='' @ subject_cn)) (\<lambda>subject.
     build_req_der X subject scalar))"

subsection \<open>Issuing\<close>

definition cert_thumbprint_b64url :: "crypto_lib \<Rightarrow> bytes \<Rightarrow> string" where
  "cert_thumbprint_b64url E der = b64_encode E (sha256 E der)"

definition finish :: "crypto_lib \<Rightarrow> 'b x509_lib \<Rightarrow> Certificate \<Rightarrow> IssuedCert crypto_result" where
  "finish E X cert =
     rbind (ok_or (InvalidInput ''garnet cert der'') (cert_to_der X cert)) (\<lambda>der.
     rbind (ok_or (InvalidInput ''garnet cert pem'') (cert_to_pem X cert)) (\<lambda>pem.
     Inr \<lparr> ic_der = der, ic_pem = pem, ic_serial_hex = hex_encode E (serial_number cert),
           ic_thumbprint_b64url = cert_thumbprint_b64url E der \<rparr>))"

definition build_leaf ::
  "crypto_lib \<Rightarrow> 'b x509_lib \<Rightarrow> spki \<Rightarrow> string \<Rightarrow> string \<Rightarrow> bytes \<Rightarrow> string \<Rightarrow> bytes \<Rightarrow> nat \<Rightarrow> IssuedCert crypto_result" where
  "build_leaf E X subject_spki san_uri eku_oid ca_scalar issuer_cn serial validity_secs =
     rbind (guard (p256_scalar E ca_scalar) (InvalidInput ''garnet ca key'')) (\<lambda>_.
     rbind (x509_name_of X (''CN='' @ issuer_cn)) (\<lambda>issuer.
     let subject_cn = last (split_on CHR '':'' san_uri) in
     rbind (x509_name_of X (''CN='' @ subject_cn)) (\<lambda>subject.
     rbind (ok_or (InvalidInput ''garnet cert serial'') (serial_new X serial)) (\<lambda>serial_number.
     rbind (ok_or (InvalidInput ''garnet cert validity'') (validity_from_now X validity_secs)) (\<lambda>validity.
     rbind (ok_or (InvalidInput ''garnet cert builder'')
       (builder_new X (Leaf issuer) serial_number validity subject subject_spki ca_scalar)) (\<lambda>builder.
     rbind (ok_or (InvalidInput ''garnet san'') (ia5_new X san_uri)) (\<lambda>uri.
     rbind (ok_or (InvalidInput ''garnet san ext'')
       (add_extension X builder (SubjectAltName [UniformResourceIdentifier uri]))) (\<lambda>builder.
     rbind (ok_or (InvalidInput ''garnet eku oid'') (oid_from_str X eku_oid)) (\<lambda>eku.
     rbind (ok_or (InvalidInput ''garnet eku ext'') (add_extension X builder (ExtendedKeyUsage [eku]))) (\<lambda>builder.
     rbind (ok_or (InvalidInput ''garnet cert sign'') (build X builder)) (\<lambda>cert.
     finish E X cert)))))))))))"

definition issue_agent_cert ::
  "crypto_lib \<Rightarrow> 'b x509_lib \<Rightarrow> bytes \<Rightarrow> string \<Rightarrow> bytes \<Rightarrow> string \<Rightarrow> bytes \<Rightarrow> nat \<Rightarrow> IssuedCert crypto_result" where
  "issue_agent_cert E X csr_der handle ca_scalar issuer_cn serial validity_secs =
     rbind (verify_csr E X csr_der) (\<lambda>verified.
     build_leaf E X (csr_spki verified) (SAN_URN_PREFIX @ handle) ID_KP_CLIENT_AUTH ca_scalar issuer_cn serial validity_secs)"

definition issue_broker_client_cert ::
  "crypto_lib \<Rightarrow> 'b x509_lib \<Rightarrow> bytes \<Rightarrow> string \<Rightarrow> bytes \<Rightarrow> string \<Rightarrow> bytes \<Rightarrow> nat \<Rightarrow> IssuedCert crypto_result" where
  "issue_broker_client_cert E X csr_der broker_id ca_scalar issuer_cn serial validity_secs =
     rbind (verify_csr E X csr_der) (\<lambda>verified.
     build_leaf E X (csr_spki verified) (SAN_URN_BROKER_PREFIX @ broker_id) ID_KP_CLIENT_AUTH ca_scalar issuer_cn serial
       validity_secs)"

definition build_server_leaf ::
  "crypto_lib \<Rightarrow> 'b x509_lib \<Rightarrow> bytes \<Rightarrow> string \<Rightarrow> bytes \<Rightarrow> string \<Rightarrow> bytes \<Rightarrow> nat \<Rightarrow> IssuedCert crypto_result" where
  "build_server_leaf E X server_pubkey_x963 server_id ca_scalar issuer_cn serial validity_secs =
     rbind (ok_or (InvalidInput ''garnet server pubkey not P-256'') (p256_decode E server_pubkey_x963)) (\<lambda>public_key.
     rbind (ok_or (InvalidInput ''garnet server spki'') (spki_der_of E public_key)) (\<lambda>spki_der.
     rbind (ok_or (InvalidInput ''garnet server spki der'') (spki_from_der X spki_der)) (\<lambda>spki.
     build_leaf E X spki (SAN_URN_SERVER_PREFIX @ server_id) ID_KP_SERVER_AUTH ca_scalar issuer_cn serial validity_secs)))"

definition build_ca_cert ::
  "crypto_lib \<Rightarrow> 'b x509_lib \<Rightarrow> bytes \<Rightarrow> string \<Rightarrow> bytes \<Rightarrow> nat \<Rightarrow> IssuedCert crypto_result" where
  "build_ca_cert E X ca_scalar subject_cn serial validity_secs =
     rbind (guard (p256_scalar E ca_scalar) (InvalidInput ''garnet ca key'')) (\<lambda>_.
     rbind (ok_or (InvalidInput ''garnet ca spki'') (spki_der_of E (p256_public E ca_scalar))) (\<lambda>spki_der.
     rbind (ok_or (InvalidInput ''garnet ca spki der'') (spki_from_der X spki_der)) (\<lambda>spki.
     rbind (x509_name_of X (''CN='' @ subject_cn)) (\<lambda>subject.
     rbind (ok_or (InvalidInput ''garnet ca serial'') (serial_new X serial)) (\<lambda>serial_number.
     rbind (ok_or (InvalidInput ''garnet ca validity'') (validity_from_now X validity_secs)) (\<lambda>validity.
     rbind (ok_or (InvalidInput ''garnet ca builder'')
       (builder_new X (Manual subject) serial_number validity subject spki ca_scalar)) (\<lambda>builder.
     rbind (ok_or (InvalidInput ''garnet ca basic constraints'')
       (add_extension X builder (BasicConstraints True (Some 0)))) (\<lambda>builder.
     rbind (ok_or (InvalidInput ''garnet ca key usage'')
       (add_extension X builder (KeyUsage [''keyCertSign'', ''cRLSign'']))) (\<lambda>builder.
     rbind (ok_or (InvalidInput ''garnet ca sign'') (build X builder)) (\<lambda>cert.
     finish E X cert))))))))))"

subsection \<open>Reading and verifying\<close>

definition find_ext :: "Extension list \<Rightarrow> oid \<Rightarrow> Extension option" where
  "find_ext exts i = List.find (\<lambda>e. extn_id e = i) exts"

fun first_uri :: "GeneralName list \<Rightarrow> string option" where
  "first_uri [] = None"
| "first_uri (UniformResourceIdentifier uri # _) = Some uri"
| "first_uri (_ # gns) = first_uri gns"

definition cert_san_uri :: "'b x509_lib \<Rightarrow> bytes \<Rightarrow> string option crypto_result" where
  "cert_san_uri X der =
     rbind (ok_or (InvalidInput ''garnet cert der'') (cert_from_der X der)) (\<lambda>cert.
     case extensions cert of
       None \<Rightarrow> Inr None
     | Some exts \<Rightarrow>
         (case find_ext exts ''2.5.29.17'' of
            None \<Rightarrow> Inr None
          | Some ext \<Rightarrow>
              rbind (ok_or (InvalidInput ''garnet san'') (san_from_der X (extn_value ext))) (\<lambda>san.
              Inr (first_uri san))))"

definition cert_san_handle :: "'b x509_lib \<Rightarrow> bytes \<Rightarrow> string option crypto_result" where
  "cert_san_handle X der =
     rbind (cert_san_uri X der) (\<lambda>uri. Inr (Option.bind uri (strip_prefix SAN_URN_PREFIX)))"

definition cert_validity_window :: "'b x509_lib \<Rightarrow> bytes \<Rightarrow> (nat \<times> nat) crypto_result" where
  "cert_validity_window X der =
     rbind (ok_or (InvalidInput ''certificate DER'') (cert_from_der X der)) (\<lambda>cert.
     Inr (not_before cert, not_after cert))"

definition cert_san_broker_id :: "'b x509_lib \<Rightarrow> bytes \<Rightarrow> string option crypto_result" where
  "cert_san_broker_id X der =
     rbind (cert_san_uri X der) (\<lambda>uri. Inr (Option.bind uri (strip_prefix SAN_URN_BROKER_PREFIX)))"

definition not_a_ca :: "'b x509_lib \<Rightarrow> Extension list \<Rightarrow> unit crypto_result" where
  "not_a_ca X exts =
     (case find_ext exts ''2.5.29.19'' of
        None \<Rightarrow> Inr ()
      | Some bc_ext \<Rightarrow>
          rbind (ok_or (InvalidInput ''garnet leaf basic constraints'') (bc_from_der X (extn_value bc_ext))) (\<lambda>ca.
          if ca then Inl (InvalidInput ''garnet leaf is a CA'') else Inr ()))"

definition eku_contains :: "'b x509_lib \<Rightarrow> Extension list \<Rightarrow> string \<Rightarrow> unit crypto_result" where
  "eku_contains X exts required_eku =
     rbind (ok_or (InvalidInput ''garnet required eku oid'') (oid_from_str X required_eku)) (\<lambda>want_eku.
     rbind (ok_or (InvalidInput ''garnet leaf eku missing'') (find_ext exts ''2.5.29.37'')) (\<lambda>eku_ext.
     rbind (ok_or (InvalidInput ''garnet leaf eku'') (eku_from_der X (extn_value eku_ext))) (\<lambda>eku.
     if want_eku \<notin> set eku then Inl (InvalidInput ''garnet leaf eku mismatch'') else Inr ())))"

definition signed_by :: "crypto_lib \<Rightarrow> 'b x509_lib \<Rightarrow> Certificate \<Rightarrow> Certificate \<Rightarrow> unit crypto_result" where
  "signed_by E X leaf ca =
     rbind (ok_or (InvalidInput ''garnet ca spki'') (spki_to_der X (subject_public_key_info ca))) (\<lambda>ca_spki_der.
     rbind (ok_or (InvalidInput ''garnet ca key not P-256'') (point_from_spki_der X ca_spki_der)) (\<lambda>ca_pubkey.
     rbind (ok_or (InvalidInput ''garnet leaf tbs'') (tbs_der leaf)) (\<lambda>tbs.
     rbind (ok_or (InvalidInput ''garnet leaf signature bits'') (signature_bits leaf)) (\<lambda>sig.
     verify_es256 E ca_pubkey tbs sig))))"

definition verify_leaf_chains_to_ca_uri ::
  "crypto_lib \<Rightarrow> 'b x509_lib \<Rightarrow> bytes \<Rightarrow> bytes \<Rightarrow> string \<Rightarrow> int \<Rightarrow> string crypto_result" where
  "verify_leaf_chains_to_ca_uri E X leaf_der ca_der required_eku now_unix =
     rbind (ok_or (InvalidInput ''garnet leaf der'') (cert_from_der X leaf_der)) (\<lambda>leaf.
     rbind (ok_or (InvalidInput ''garnet ca der'') (cert_from_der X ca_der)) (\<lambda>ca.
     if signature_algorithm leaf \<noteq> ECDSA_WITH_SHA256 then Inl (InvalidInput ''garnet leaf signature algorithm'')
     else if issuer leaf \<noteq> subject ca then Inl (InvalidInput ''garnet leaf issuer mismatch'')
     else
       rbind (signed_by E X leaf ca) (\<lambda>_.
       let now = nat (max now_unix 0) in
       if now < not_before leaf then Inl (InvalidInput ''garnet leaf not yet valid'')
       else if now > not_after leaf then Inl (InvalidInput ''garnet leaf expired'')
       else
         rbind (ok_or (InvalidInput ''garnet leaf extensions'') (extensions leaf)) (\<lambda>exts.
         rbind (not_a_ca X exts) (\<lambda>_.
         rbind (eku_contains X exts required_eku) (\<lambda>_.
         rbind (cert_san_uri X leaf_der) (\<lambda>uri.
         ok_or (InvalidInput ''garnet leaf san missing'') uri)))))))"

definition verify_leaf_chains_to_ca ::
  "crypto_lib \<Rightarrow> 'b x509_lib \<Rightarrow> bytes \<Rightarrow> bytes \<Rightarrow> string \<Rightarrow> int \<Rightarrow> string crypto_result" where
  "verify_leaf_chains_to_ca E X leaf_der ca_der required_eku now_unix =
     rbind (verify_leaf_chains_to_ca_uri E X leaf_der ca_der required_eku now_unix) (\<lambda>uri.
     ok_or (InvalidInput ''garnet leaf san handle missing'') (strip_prefix SAN_URN_PREFIX uri))"

definition cert_der_to_pem :: "'b x509_lib \<Rightarrow> bytes \<Rightarrow> string crypto_result" where
  "cert_der_to_pem X der =
     rbind (ok_or (InvalidInput ''garnet cert der'') (cert_from_der X der)) (\<lambda>cert.
     ok_or (InvalidInput ''garnet cert pem'') (cert_to_pem X cert))"

definition pem_to_der :: "'b x509_lib \<Rightarrow> string \<Rightarrow> bytes crypto_result" where
  "pem_to_der X pem =
     rbind (ok_or (InvalidInput ''garnet cert pem'') (cert_from_pem X pem)) (\<lambda>cert.
     ok_or (InvalidInput ''garnet cert der'') (cert_to_der X cert))"

definition cert_spki_sha256_b64url :: "crypto_lib \<Rightarrow> 'b x509_lib \<Rightarrow> bytes \<Rightarrow> string crypto_result" where
  "cert_spki_sha256_b64url E X der =
     rbind (ok_or (InvalidInput ''garnet cert der'') (cert_from_der X der)) (\<lambda>cert.
     rbind (ok_or (InvalidInput ''garnet cert spki der'') (spki_to_der X (subject_public_key_info cert))) (\<lambda>spki_der.
     Inr (b64_encode E (sha256 E spki_der))))"

definition cert_pubkey_x963 :: "'b x509_lib \<Rightarrow> bytes \<Rightarrow> bytes crypto_result" where
  "cert_pubkey_x963 X der =
     rbind (ok_or (InvalidInput ''garnet cert der'') (cert_from_der X der)) (\<lambda>cert.
     rbind (ok_or (InvalidInput ''garnet cert spki der'') (spki_to_der X (subject_public_key_info cert))) (\<lambda>spki_der.
     ok_or (InvalidInput ''garnet cert key not P-256'') (point_from_spki_der X spki_der)))"

definition csr_spki_sha256_b64url :: "crypto_lib \<Rightarrow> 'b x509_lib \<Rightarrow> bytes \<Rightarrow> string crypto_result" where
  "csr_spki_sha256_b64url E X csr_der =
     rbind (verify_csr E X csr_der) (\<lambda>verified.
     rbind (ok_or (InvalidInput ''garnet csr spki der'') (spki_to_der X (csr_spki verified))) (\<lambda>spki_der.
     Inr (b64_encode E (sha256 E spki_der))))"

subsection \<open>What the builder documents\<close>

record builder_view =
  bv_profile :: Profile
  bv_validity :: "nat \<times> nat"
  bv_spki :: spki
  bv_key :: bytes
  bv_exts :: "ExtensionSpec list"

fun profile_issuer :: "Profile \<Rightarrow> x509_name" where
  "profile_issuer (Leaf n) = n"
| "profile_issuer (Manual n) = n"

definition carries :: "crypto_lib \<Rightarrow> 'b x509_lib \<Rightarrow> builder_view \<Rightarrow> Certificate \<Rightarrow> bool" where
  "carries E X v c \<longleftrightarrow>
     signature_algorithm c = ECDSA_WITH_SHA256 \<and> issuer c = profile_issuer (bv_profile v) \<and>
     not_before c = fst (bv_validity v) \<and> not_after c = snd (bv_validity v) \<and>
     subject_public_key_info c = bv_spki v \<and>
     (\<exists>tbs sig. tbs_der c = Some tbs \<and> signature_bits c = Some sig \<and>
        verify_es256 E (p256_public E (bv_key v)) tbs sig = Inr ()) \<and>
     (\<exists>exts. extensions c = Some exts \<and>
        (\<forall>gns. SubjectAltName gns \<in> set (bv_exts v) \<longrightarrow>
           (\<exists>e. find_ext exts ''2.5.29.17'' = Some e \<and> san_from_der X (extn_value e) = Some gns)) \<and>
        (\<forall>oids. ExtendedKeyUsage oids \<in> set (bv_exts v) \<longrightarrow>
           (\<exists>e. find_ext exts ''2.5.29.37'' = Some e \<and> eku_from_der X (extn_value e) = Some oids)) \<and>
        (\<forall>n. bv_profile v = Leaf n \<longrightarrow>
           (\<exists>e. find_ext exts ''2.5.29.19'' = Some e \<and> bc_from_der X (extn_value e) = Some False)))"

definition builder_correct :: "crypto_lib \<Rightarrow> 'b x509_lib \<Rightarrow> ('b \<Rightarrow> builder_view) \<Rightarrow> bool" where
  "builder_correct E X view \<longleftrightarrow>
     (\<forall>p sn v s k key b. builder_new X p sn v s k key = Some b \<longrightarrow>
        view b = \<lparr> bv_profile = p, bv_validity = v, bv_spki = k, bv_key = key, bv_exts = [] \<rparr>) \<and>
     (\<forall>b e b'. add_extension X b e = Some b' \<longrightarrow> view b' = (view b)\<lparr> bv_exts := bv_exts (view b) @ [e] \<rparr>) \<and>
     (\<forall>b c. build X b = Some c \<longrightarrow> carries E X (view b) c) \<and>
     (\<forall>c d. cert_to_der X c = Some d \<longrightarrow> cert_from_der X d = Some c) \<and>
     (\<forall>s t. ia5_new X s = Some t \<longrightarrow> t = s) \<and> (\<forall>s t. oid_from_str X s = Some t \<longrightarrow> t = s)"

lemma build_leaf_carries:
  assumes "builder_correct E X view"
    and "build_leaf E X spki uri eku ca_scalar issuer_cn serial secs = Inr issued"
  obtains n v c where "name_from_str X (''CN='' @ issuer_cn) = Some n" "validity_from_now X secs = Some v"
    "cert_from_der X (ic_der issued) = Some c" "oid_from_str X eku = Some eku"
    "carries E X \<lparr> bv_profile = Leaf n, bv_validity = v, bv_spki = spki, bv_key = ca_scalar,
      bv_exts = [SubjectAltName [UniformResourceIdentifier uri], ExtendedKeyUsage [eku]] \<rparr> c"
proof -
  obtain n subj sn v b0 uri' b1 eku' b2 c der where *:
    "name_from_str X (''CN='' @ issuer_cn) = Some n" "validity_from_now X secs = Some v"
    "builder_new X (Leaf n) sn v subj spki ca_scalar = Some b0" "ia5_new X uri = Some uri'"
    "add_extension X b0 (SubjectAltName [UniformResourceIdentifier uri']) = Some b1"
    "oid_from_str X eku = Some eku'" "add_extension X b1 (ExtendedKeyUsage [eku']) = Some b2"
    "build X b2 = Some c" "cert_to_der X c = Some der" "ic_der issued = der"
    using assms(2) by (auto simp: build_leaf_def finish_def x509_name_of_def Let_def result_simps)
  note laws = assms(1) [unfolded builder_correct_def]
  have "uri' = uri" "eku' = eku" "cert_from_der X der = Some c" "carries E X (view b2) c"
    using laws *(4,6,8,9) by blast+
  moreover have "view b0 = \<lparr> bv_profile = Leaf n, bv_validity = v, bv_spki = spki, bv_key = ca_scalar, bv_exts = [] \<rparr>"
    using laws *(3) by blast
  moreover have "view b1 = (view b0)\<lparr> bv_exts := bv_exts (view b0) @ [SubjectAltName [UniformResourceIdentifier uri']] \<rparr>"
    "view b2 = (view b1)\<lparr> bv_exts := bv_exts (view b1) @ [ExtendedKeyUsage [eku']] \<rparr>"
    using laws *(5,7) by blast+
  ultimately show thesis using that [of n v c] * by simp
qed

subsection \<open>Identity\<close>

lemma verify_leaf_uri_read:
  "verify_leaf_chains_to_ca_uri E X leaf ca eku now = Inr uri \<Longrightarrow> cert_san_uri X leaf = Inr (Some uri)"
  by (auto simp: verify_leaf_chains_to_ca_uri_def Let_def result_simps split: if_splits)


text \<open>
  a certificate issued for a grant's handle is accepted, under the authority's certificate and within
  its validity, as that handle's client certificate and as nothing else: it carries the key whose
  possession the request proved, whatever name the request asked for, and it is refused as a server
  certificate.
\<close>
theorem issued_agent_cert_verifies:
  assumes "builder_correct E X view"
    and issue: "issue_agent_cert E X csr handle ca_scalar issuer_cn serial secs = Inr issued"
    and ca: "cert_from_der X ca_der = Some ca" "name_from_str X (''CN='' @ issuer_cn) = Some (subject ca)"
      "cert_pubkey_x963 X ca_der = Inr (p256_public E ca_scalar)"
    and window: "validity_from_now X secs = Some (nb, na)" "nb \<le> nat now" "nat now \<le> na"
    and server: "oid_from_str X ID_KP_SERVER_AUTH = Some ID_KP_SERVER_AUTH"
  shows "verify_leaf_chains_to_ca E X (ic_der issued) ca_der ID_KP_CLIENT_AUTH now = Inr handle \<and>
    verify_leaf_chains_to_ca E X (ic_der issued) ca_der ID_KP_SERVER_AUTH now =
      Inl (InvalidInput ''garnet leaf eku mismatch'') \<and>
    (\<exists>v. verify_csr E X csr = Inr v \<and> cert_pubkey_x963 X (ic_der issued) = Inr (csr_pubkey_x963 v))"
proof -
  obtain v where v: "verify_csr E X csr = Inr v"
    and leaf: "build_leaf E X (csr_spki v) (SAN_URN_PREFIX @ handle) ID_KP_CLIENT_AUTH ca_scalar issuer_cn serial secs =
      Inr issued"
    using issue by (auto simp: issue_agent_cert_def result_simps)
  obtain c where c: "cert_from_der X (ic_der issued) = Some c"
    and eku: "oid_from_str X ID_KP_CLIENT_AUTH = Some ID_KP_CLIENT_AUTH"
    and carries: "carries E X \<lparr> bv_profile = Leaf (subject ca), bv_validity = (nb, na), bv_spki = csr_spki v,
      bv_key = ca_scalar, bv_exts = [SubjectAltName [UniformResourceIdentifier (SAN_URN_PREFIX @ handle)],
        ExtendedKeyUsage [ID_KP_CLIENT_AUTH]] \<rparr> c"
    using build_leaf_carries [OF assms(1) leaf] ca(2) window(1) by (metis option.inject)
  obtain exts san_e eku_e bc_e where exts: "extensions c = Some exts"
    "find_ext exts ''2.5.29.17'' = Some san_e"
    "san_from_der X (extn_value san_e) = Some [UniformResourceIdentifier (SAN_URN_PREFIX @ handle)]"
    "find_ext exts ''2.5.29.37'' = Some eku_e" "eku_from_der X (extn_value eku_e) = Some [ID_KP_CLIENT_AUTH]"
    "find_ext exts ''2.5.29.19'' = Some bc_e" "bc_from_der X (extn_value bc_e) = Some False"
    using carries by (auto simp: carries_def)
  have fields: "signature_algorithm c = ECDSA_WITH_SHA256" "issuer c = subject ca" "not_before c = nb" "not_after c = na"
    "subject_public_key_info c = csr_spki v"
    using carries by (simp_all add: carries_def)
  have "signed_by E X c ca = Inr ()"
    using carries ca(1,3) by (auto simp: carries_def signed_by_def cert_pubkey_x963_def result_simps)
  moreover have "nat (max now 0) = nat now" by simp
  moreover have "ID_KP_SERVER_AUTH \<noteq> ID_KP_CLIENT_AUTH" by (simp add: ID_KP_SERVER_AUTH_def ID_KP_CLIENT_AUTH_def)
  moreover have "cert_pubkey_x963 X (ic_der issued) = Inr (csr_pubkey_x963 v)"
    using v c fields(5)
    by (auto simp: verify_csr_def cert_pubkey_x963_def Let_def result_simps split: if_splits)
  ultimately show ?thesis using c ca(1) fields exts eku server window(2,3) v
    by (simp add: verify_leaf_chains_to_ca_def verify_leaf_chains_to_ca_uri_def Let_def not_a_ca_def eku_contains_def
        cert_san_uri_def not_less)
qed

text \<open>A concrete instance: one authority, one request and the leaf issued for it.\<close>

definition demo_ca_key :: bytes where "demo_ca_key = replicate 32 7"
definition demo_agent_key :: bytes where "demo_agent_key = replicate 32 3"

definition demo_req :: CertReq where
  "demo_req = \<lparr> req_algorithm = ECDSA_WITH_SHA256, req_public_key = p256_public demo_lib demo_agent_key,
     req_info_der = Some [6], req_signature_bits = Some (ecdsa_sign demo_lib demo_agent_key [6]) \<rparr>"

definition demo_leaf :: Certificate where
  "demo_leaf = \<lparr> signature_algorithm = ECDSA_WITH_SHA256, issuer = [1], subject = [1],
     subject_public_key_info = p256_public demo_lib demo_agent_key, not_before = 100, not_after = 200,
     serial_number = [5], extensions = Some [\<lparr> extn_id = ''2.5.29.17'', extn_value = [1] \<rparr>,
       \<lparr> extn_id = ''2.5.29.37'', extn_value = [2] \<rparr>, \<lparr> extn_id = ''2.5.29.19'', extn_value = [3] \<rparr>],
     tbs_der = Some [9], signature_bits = Some (ecdsa_sign demo_lib demo_ca_key [9]) \<rparr>"

definition demo_ca :: Certificate where
  "demo_ca = demo_leaf\<lparr> subject_public_key_info := p256_public demo_lib demo_ca_key \<rparr>"

definition demo_view :: builder_view where
  "demo_view = \<lparr> bv_profile = Leaf [1], bv_validity = (100, 200),
     bv_spki = p256_public demo_lib demo_agent_key, bv_key = demo_ca_key,
     bv_exts = [SubjectAltName [UniformResourceIdentifier ''urn:signet:prsn:ada''], ExtendedKeyUsage [ID_KP_CLIENT_AUTH]] \<rparr>"

definition demo_x509 :: "builder_view x509_lib" where
  "demo_x509 =
     \<lparr> cert_from_der = (\<lambda>d. if d = [1] then Some demo_leaf else if d = [2] then Some demo_ca else None),
       cert_to_der = (\<lambda>c. if c = demo_leaf then Some [1] else None),
       cert_from_pem = (\<lambda>_. None), cert_to_pem = (\<lambda>_. Some ''pem''),
       req_from_der = (\<lambda>_. Some demo_req), spki_to_der = Some, spki_from_der = Some,
       point_from_spki_der = p256_decode demo_lib,
       san_from_der = (\<lambda>_. Some [UniformResourceIdentifier ''urn:signet:prsn:ada'']), bc_from_der = (\<lambda>_. Some False),
       eku_from_der = (\<lambda>_. Some [ID_KP_CLIENT_AUTH]), oid_from_str = Some, name_from_str = (\<lambda>_. Some [1]),
       serial_new = Some, validity_from_now = (\<lambda>_. Some (100, 200)), ia5_new = Some,
       builder_new = (\<lambda>p sn v s k key.
         Some \<lparr> bv_profile = p, bv_validity = v, bv_spki = k, bv_key = key, bv_exts = [] \<rparr>),
       add_extension = (\<lambda>b e. Some (b\<lparr> bv_exts := bv_exts b @ [e] \<rparr>)),
       build = (\<lambda>b. if b = demo_view then Some demo_leaf else None), build_req_der = (\<lambda>_ _. Inr []) \<rparr>"

lemma demo_signatures:
  "verify_es256 demo_lib (p256_public demo_lib demo_ca_key) m (ecdsa_sign demo_lib demo_ca_key m) = Inr ()"
  "verify_es256 demo_lib (p256_public demo_lib demo_agent_key) m (ecdsa_sign demo_lib demo_agent_key m) = Inr ()"
  by (rule sign_verify [OF demo_p256_correct demo_ecdsa_correct],
      simp add: sign_es256_def demo_lib_def demo_ca_key_def demo_agent_key_def)+

lemma demo_points:
  "p256_decode demo_lib (p256_public demo_lib demo_ca_key) = Some (p256_public demo_lib demo_ca_key)"
  "p256_decode demo_lib (p256_public demo_lib demo_agent_key) = Some (p256_public demo_lib demo_agent_key)"
  by (simp_all add: demo_lib_def)

lemma demo_builder_correct: "builder_correct demo_lib demo_x509 (\<lambda>b. b)"
proof -
  have "carries demo_lib demo_x509 demo_view demo_leaf"
    by (simp add: carries_def demo_x509_def demo_view_def demo_leaf_def find_ext_def demo_signatures)
  then show ?thesis by (auto simp: builder_correct_def demo_x509_def)
qed

lemma demo_issue:
  "issue_agent_cert demo_lib demo_x509 csr ''ada'' demo_ca_key ''ca'' [5] 100 =
     Inr \<lparr> ic_der = [1], ic_pem = ''pem'', ic_serial_hex = hex_encode demo_lib [5],
       ic_thumbprint_b64url = cert_thumbprint_b64url demo_lib [1] \<rparr>"
proof -
  have "verify_csr demo_lib demo_x509 csr =
      Inr \<lparr> csr_spki = p256_public demo_lib demo_agent_key, csr_pubkey_x963 = p256_public demo_lib demo_agent_key \<rparr>"
    by (simp add: verify_csr_def Let_def demo_x509_def demo_req_def demo_points demo_signatures)
  moreover have "p256_scalar demo_lib demo_ca_key" by (simp add: demo_lib_def demo_ca_key_def)
  moreover have "serial_number demo_leaf = [5]" by (simp add: demo_leaf_def)
  ultimately show ?thesis
    by (simp add: issue_agent_cert_def build_leaf_def Let_def x509_name_of_def finish_def demo_x509_def demo_view_def
        SAN_URN_PREFIX_def)
qed

theorem issued_agent_cert_verifies_witness:
  "verify_leaf_chains_to_ca demo_lib demo_x509 [1] [2] ID_KP_CLIENT_AUTH 150 = Inr ''ada''"
  using issued_agent_cert_verifies [OF demo_builder_correct demo_issue, of "[2]" demo_ca 100 200 150]
  by (simp add: demo_x509_def demo_ca_def demo_leaf_def cert_pubkey_x963_def demo_points)

lemma demo_verifies: "verify_leaf_chains_to_ca demo_lib demo_x509 [1] [2] ID_KP_CLIENT_AUTH 150 = Inr ''ada''"
  by (simp add: verify_leaf_chains_to_ca_def verify_leaf_chains_to_ca_uri_def signed_by_def not_a_ca_def
      eku_contains_def cert_san_uri_def find_ext_def demo_x509_def demo_ca_def demo_leaf_def demo_points demo_signatures
      SAN_URN_PREFIX_def strip_prefix_def)


end
