(* ===== verification/Cli_Error.thy ===== *)
theory Cli_Error
  imports Crypto_Base
begin

section \<open>Errors of the command line\<close>

text \<open>
  \<^verbatim>\<open>cli/src/error.rs\<close>: every failure carries an exit code, a stable machine code and the mark that the
  server's epoch moved. The human-readable message, which no code path reads back, is not modelled, here
  and in every theory below; so a constructor that only takes a message is a constant.
\<close>

record CliError =
  exit_code :: int
  code :: string
  epoch_moved :: bool

type_synonym 'a cli_result = "CliError + 'a"

definition new_error :: "int \<Rightarrow> string \<Rightarrow> CliError" where
  "new_error e c = \<lparr> exit_code = e, code = c, epoch_moved = False \<rparr>"

definition generic :: CliError where "generic = new_error 1 ''error''"
definition invalid_args :: CliError where "invalid_args = new_error 2 ''invalid_arguments''"
definition key_exists :: CliError where "key_exists = new_error 11 ''key_already_exists''"
definition key_not_found :: CliError where "key_not_found = new_error 12 ''key_not_found''"
definition filesystem :: CliError where "filesystem = new_error 21 ''filesystem_error''"
definition input_read :: CliError where "input_read = new_error 22 ''input_error''"
definition output_write :: CliError where "output_write = new_error 23 ''output_error''"
definition invalid_data :: CliError where "invalid_data = new_error 24 ''invalid_data''"
definition name_too_long :: CliError where "name_too_long = new_error 25 ''name_too_long''"
definition encryption_failed :: CliError where "encryption_failed = new_error 40 ''encryption_failed''"
definition unsupported_algorithm :: CliError where
  "unsupported_algorithm = new_error 41 ''unsupported_algorithm''"
definition decrypt_failed :: CliError where "decrypt_failed = new_error 42 ''decrypt_failed''"
definition config_error :: CliError where "config_error = new_error 50 ''config_error''"
definition unsupported_platform :: CliError where
  "unsupported_platform = new_error 51 ''unsupported_platform''"
definition se_locked :: CliError where "se_locked = new_error 52 ''se_locked''"
definition signature_invalid :: CliError where "signature_invalid = new_error 13 ''signature_invalid''"
definition attestation_expired :: CliError where
  "attestation_expired = new_error 14 ''attestation_expired''"
definition attestation_revoked :: CliError where
  "attestation_revoked = new_error 15 ''attestation_revoked''"
definition authentication_failed :: CliError where
  "authentication_failed = new_error 10 ''authentication_failed''"
definition authorization_denied :: CliError where
  "authorization_denied = new_error 17 ''authorization_denied''"
definition insufficient_storage :: CliError where
  "insufficient_storage = new_error 18 ''insufficient_storage''"
definition not_found :: CliError where "not_found = new_error 26 ''not_found''"
definition conflict :: CliError where "conflict = new_error 27 ''conflict''"
definition transfer_stalled :: CliError where "transfer_stalled = new_error 32 ''transfer_stalled''"
definition transparency_violation :: CliError where
  "transparency_violation = new_error 60 ''transparency_violation''"
definition unanchored :: CliError where "unanchored = new_error 62 ''unanchored''"
definition epoch_changed :: CliError where
  "epoch_changed = (new_error 62 ''epoch_changed'')\<lparr> epoch_moved := True \<rparr>"
definition as_epoch_move :: "CliError \<Rightarrow> CliError" where
  "as_epoch_move e = e\<lparr> epoch_moved := True \<rparr>"
definition identity_mismatch :: CliError where "identity_mismatch = new_error 61 ''identity_mismatch''"

lemmas cli_error_defs =
  generic_def invalid_args_def key_exists_def key_not_found_def filesystem_def input_read_def output_write_def
  invalid_data_def name_too_long_def encryption_failed_def unsupported_algorithm_def decrypt_failed_def
  config_error_def unsupported_platform_def se_locked_def signature_invalid_def attestation_expired_def
  attestation_revoked_def authentication_failed_def authorization_denied_def insufficient_storage_def
  not_found_def conflict_def transfer_stalled_def transparency_violation_def unanchored_def epoch_changed_def
  identity_mismatch_def new_error_def

fun from_crypto :: "CryptoError \<Rightarrow> CliError" where
  "from_crypto Authentication = decrypt_failed"
| "from_crypto SignatureInvalid = new_error 13 ''signature_invalid''"
| "from_crypto UnknownAlgorithm = unsupported_algorithm"
| "from_crypto (InvalidInput _) = invalid_args"

abbreviation lift_crypto :: "'a crypto_result \<Rightarrow> 'a cli_result" where
  "lift_crypto \<equiv> map_err from_crypto"

end
