(* ===== verification/Config.thy ===== *)
theory Config
  imports Cli_Error
begin

section \<open>Configuration\<close>

text \<open>
  \<^verbatim>\<open>cli/src/config.rs\<close>: the configuration file with its environment overrides, and the directories
  derived from the environment. The TOML parser is a parameter (it fills in the defaults that the record
  declares); the file system is the argument \<open>read\<close>: no file, a file that cannot be read, or its text.
\<close>

type_synonym environment = "string \<Rightarrow> string option"

definition DEFAULT_SERVER_URL :: string where "DEFAULT_SERVER_URL = ''https://drive.mysignet.ca''"
definition default_server_url :: string where "default_server_url = DEFAULT_SERVER_URL"
definition default_output_format :: string where "default_output_format = ''machine''"
definition default_errors_format :: string where "default_errors_format = ''human''"
definition default_log_level :: string where "default_log_level = ''warn''"

record Config =
  server_base_url :: string
  default_signing_key :: "string option"
  default_kem_key :: "string option"
  output_format :: string
  errors_format :: string
  log_level :: string

definition config_default :: Config where
  "config_default = \<lparr> server_base_url = default_server_url, default_signing_key = None, default_kem_key = None,
     output_format = default_output_format, errors_format = default_errors_format, log_level = default_log_level \<rparr>"

definition non_empty :: "environment \<Rightarrow> string \<Rightarrow> string option" where
  "non_empty env name = (case env name of Some v \<Rightarrow> (if v = [] then None else Some v) | None \<Rightarrow> None)"

definition apply_env_overrides :: "environment \<Rightarrow> Config \<Rightarrow> Config" where
  "apply_env_overrides env self =
     (let self = (case non_empty env ''SIGNET_SERVER_URL'' of
                    Some v \<Rightarrow> self\<lparr> server_base_url := v \<rparr> | None \<Rightarrow> self);
          self = (case non_empty env ''SIGNET_DEFAULT_SIGNING_KEY'' of
                    Some v \<Rightarrow> self\<lparr> default_signing_key := Some v \<rparr> | None \<Rightarrow> self);
          self = (case non_empty env ''SIGNET_DEFAULT_KEM_KEY'' of
                    Some v \<Rightarrow> self\<lparr> default_kem_key := Some v \<rparr> | None \<Rightarrow> self)
      in self)"

definition config_dir :: "environment \<Rightarrow> string" where
  "config_dir env =
     (case non_empty env ''XDG_CONFIG_HOME'' of
        Some xdg \<Rightarrow> path_join xdg ''signet''
      | None \<Rightarrow>
          (let home = (case env ''HOME'' of Some h \<Rightarrow> h | None \<Rightarrow> ''.'')
           in path_join (path_join home ''.config'') ''signet''))"

definition config_file_path :: "environment \<Rightarrow> string" where
  "config_file_path env =
     (case non_empty env ''SIGNET_CONFIG'' of
        Some path \<Rightarrow> path
      | None \<Rightarrow> path_join (config_dir env) ''config.toml'')"

datatype file_view = Absent | Unreadable | Text string

definition config_load ::
  "(string \<Rightarrow> Config option) \<Rightarrow> (string \<Rightarrow> file_view) \<Rightarrow> environment \<Rightarrow> Config cli_result" where
  "config_load toml_from_str read env =
     rbind (case read (config_file_path env) of
              Absent \<Rightarrow> Inr config_default
            | Unreadable \<Rightarrow> Inl config_error
            | Text text \<Rightarrow> ok_or config_error (toml_from_str text))
       (\<lambda>config. Inr (apply_env_overrides env config))"

definition keys_dir :: "environment \<Rightarrow> string" where
  "keys_dir env =
     (case non_empty env ''SIGNET_KEYS_DIR'' of
        Some dir \<Rightarrow> dir | None \<Rightarrow> path_join (config_dir env) ''keys'')"

definition host_signer_dir :: "environment \<Rightarrow> string" where
  "host_signer_dir env =
     (case non_empty env ''SIGNET_HOST_SIGNER_DIR'' of
        Some dir \<Rightarrow> dir | None \<Rightarrow> path_join (config_dir env) ''host-signer'')"

definition host_signer_registry_path :: "environment \<Rightarrow> string" where
  "host_signer_registry_path env = path_join (host_signer_dir env) ''registry.toml''"

definition broker_dir :: "environment \<Rightarrow> string" where
  "broker_dir env =
     (case non_empty env ''SIGNET_BROKER_DIR'' of
        Some dir \<Rightarrow> dir | None \<Rightarrow> path_join (config_dir env) ''broker'')"

definition broker_identity_path :: "environment \<Rightarrow> string" where
  "broker_identity_path env = path_join (broker_dir env) ''credential.json''"

definition default_credential_path :: "environment \<Rightarrow> string \<Rightarrow> string" where
  "default_credential_path env handle =
     path_join (path_join (config_dir env) ''garnet'') (handle @ ''.json'')"

lemma path_join_inj:
  assumes "path_join d x = path_join d y" "x \<noteq> []" "y \<noteq> []" "hd x \<noteq> CHR ''/''" "hd y \<noteq> CHR ''/''"
  shows "x = y"
  using assms by (simp add: path_join_def split: if_splits)

lemma credential_paths_distinct:
  assumes "default_credential_path env h = default_credential_path env h'"
    "h \<noteq> []" "h' \<noteq> []" "hd h \<noteq> CHR ''/''" "hd h' \<noteq> CHR ''/''"
  shows "h = h'"
  using path_join_inj [OF assms(1) [unfolded default_credential_path_def]] assms(2-5) by simp

end
