(* ===== verification/Rust_Std.thy ===== *)
theory Rust_Std
  imports Prelude "HOL-Library.Char_ord"
begin

section \<open>More of the standard library\<close>

text \<open>
  The functions of \<^verbatim>\<open>str\<close> that the command-line client uses beyond those of the prelude: \<open>split_once\<close>,
  \<open>str_lines\<close> (\<^verbatim>\<open>lines\<close>), ASCII lower case and case-insensitive comparison, \<open>trim_end_char\<close>
  (\<^verbatim>\<open>trim_end_matches\<close> with a character), \<open>contains_str\<close>, and the decimal text of an unsigned integer
  with \<open>parse_unsigned\<close>, which reads it back within the bound of its type (a leading plus sign is
  accepted, as in Rust). \<open>try_map\<close> is a loop that stops at the first error, \<open>iter_max\<close> and \<open>max_by_key\<close> the
  methods of iterators, and the operations \<open>bt_insert\<close>, \<open>bt_or_insert\<close> those of a \<^verbatim>\<open>BTreeMap\<close>, which is a list
  of pairs in the order of its keys.
\<close>

subsection \<open>Searching and splitting\<close>

fun split_once :: "string \<Rightarrow> string \<Rightarrow> (string \<times> string) option" where
  "split_once p [] = (if p = [] then Some ([], []) else None)"
| "split_once p (c # s) =
     (case strip_prefix p (c # s) of
        Some r \<Rightarrow> Some ([], r)
      | None \<Rightarrow> map_option (\<lambda>(a, b). (c # a, b)) (split_once p s))"

definition contains_str :: "string \<Rightarrow> string \<Rightarrow> bool" where
  "contains_str p s \<longleftrightarrow> split_once p s \<noteq> None"

definition starts_with :: "string \<Rightarrow> string \<Rightarrow> bool" where
  "starts_with p s \<longleftrightarrow> strip_prefix p s \<noteq> None"

definition trim_end_char :: "char \<Rightarrow> string \<Rightarrow> string" where
  "trim_end_char d s = rev (dropWhile (\<lambda>c. c = d) (rev s))"

text \<open>A line loses one carriage return before its line feed; the text after the last line feed is a line if it is not empty.\<close>

definition strip_cr :: "string \<Rightarrow> string" where
  "strip_cr s = (case strip_suffix [CHR 0x0D] s of Some r \<Rightarrow> r | None \<Rightarrow> s)"

definition str_lines :: "string \<Rightarrow> string list" where
  "str_lines s =
     (let ps = split_on (CHR 0x0A) s in
      map strip_cr (butlast ps) @ (if last ps = [] then [] else [last ps]))"

definition join_lines :: "string list \<Rightarrow> string" where
  "join_lines ls = (case ls of [] \<Rightarrow> [] | l # ls \<Rightarrow> l @ concat (map (\<lambda>x. CHR 0x0A # x) ls))"

subsection \<open>Characters\<close>

definition ascii_lower :: "char \<Rightarrow> char" where
  "ascii_lower c =
     (if CHR ''A'' \<le> c \<and> c \<le> CHR ''Z'' then char_of ((of_char c :: nat) + 32) else c)"

definition to_ascii_lowercase :: "string \<Rightarrow> string" where
  "to_ascii_lowercase s = map ascii_lower s"

definition eq_ignore_ascii_case :: "string \<Rightarrow> string \<Rightarrow> bool" where
  "eq_ignore_ascii_case s t \<longleftrightarrow> to_ascii_lowercase s = to_ascii_lowercase t"

definition is_digit :: "char \<Rightarrow> bool" where
  "is_digit c \<longleftrightarrow> CHR ''0'' \<le> c \<and> c \<le> CHR ''9''"

definition ascii_alphanumeric :: "char \<Rightarrow> bool" where
  "ascii_alphanumeric c \<longleftrightarrow>
     is_digit c \<or> (CHR ''A'' \<le> c \<and> c \<le> CHR ''Z'') \<or> (CHR ''a'' \<le> c \<and> c \<le> CHR ''z'')"

subsection \<open>Decimal numbers\<close>

definition digit :: "nat \<Rightarrow> char" where "digit n = char_of (48 + n)"
definition digit_value :: "char \<Rightarrow> nat" where "digit_value c = of_char c - 48"

fun show_nat :: "nat \<Rightarrow> string" where
  "show_nat n = (if n < 10 then [digit n] else show_nat (n div 10) @ [digit (n mod 10)])"

declare show_nat.simps [simp del]

definition parse_unsigned :: "nat \<Rightarrow> string \<Rightarrow> nat option" where
  "parse_unsigned bound s =
     (let t = (case s of c # r \<Rightarrow> if c = CHR ''+'' then r else s | [] \<Rightarrow> s) in
      if t \<noteq> [] \<and> list_all is_digit t
      then (let n = foldl (\<lambda>a c. a * 10 + digit_value c) 0 t in if n < bound then Some n else None)
      else None)"

definition u16_try_from :: "nat \<Rightarrow> u16 option" where
  "u16_try_from n = (if n < 65536 then Some (of_nat n) else None)"

subsection \<open>Iterators, arrays and ordered maps\<close>

primrec try_map :: "('a \<Rightarrow> 'e + 'b) \<Rightarrow> 'a list \<Rightarrow> 'e + 'b list" where
  "try_map f [] = Inr []"
| "try_map f (x # xs) = rbind (f x) (\<lambda>y. rbind (try_map f xs) (\<lambda>ys. Inr (y # ys)))"

definition iter_max :: "'a::linorder list \<Rightarrow> 'a option" where
  "iter_max xs = (case xs of [] \<Rightarrow> None | x # xs \<Rightarrow> Some (foldl max x xs))"

text \<open>Of several greatest elements \<^verbatim>\<open>max_by_key\<close> gives the last.\<close>

definition max_by_key :: "('a \<Rightarrow> 'k::linorder) \<Rightarrow> 'a list \<Rightarrow> 'a option" where
  "max_by_key f xs = (case xs of [] \<Rightarrow> None | x # xs \<Rightarrow> Some (foldl (\<lambda>m y. if f m \<le> f y then y else m) x xs))"

definition try_array :: "nat \<Rightarrow> bytes \<Rightarrow> bytes option" where
  "try_array n b = (if length b = n then Some b else None)"

fun bt_insert :: "'k::linorder \<Rightarrow> 'v \<Rightarrow> ('k \<times> 'v) list \<Rightarrow> ('k \<times> 'v) list" where
  "bt_insert k v [] = [(k, v)]"
| "bt_insert k v ((k', v') # m) =
     (if k < k' then (k, v) # (k', v') # m
      else if k = k' then (k, v) # m else (k', v') # bt_insert k v m)"

definition bt_or_insert :: "'k::linorder \<Rightarrow> 'v \<Rightarrow> ('k \<times> 'v) list \<Rightarrow> ('k \<times> 'v) list" where
  "bt_or_insert k v m = (if map_of m k = None then bt_insert k v m else m)"

definition bt_ok :: "('k::linorder \<times> 'v) list \<Rightarrow> bool" where
  "bt_ok m \<longleftrightarrow> sorted (map fst m) \<and> distinct (map fst m)"

subsection \<open>Lemmas\<close>

lemma try_map_Inr: "try_map f xs = Inr ys \<longleftrightarrow> list_all2 (\<lambda>x y. f x = Inr y) xs ys"
  by (induction xs arbitrary: ys) (auto simp: result_simps list_all2_Cons1)

lemma try_map_append:
  "try_map f (xs @ ys) = rbind (try_map f xs) (\<lambda>a. rbind (try_map f ys) (\<lambda>b. Inr (a @ b)))"
proof (induction xs)
  case Nil
  then show ?case by (cases "try_map f ys") simp_all
next
  case (Cons x xs)
  then show ?case
    by (cases "f x"; cases "try_map f xs"; cases "try_map f ys") simp_all
qed

lemma foldl_max: "foldl max (x :: 'a::linorder) xs = Max (insert x (set xs))"
proof (induction xs arbitrary: x)
  case (Cons a xs)
  have "Max (insert (max x a) (set xs)) = Max (insert x (insert a (set xs)))"
    by (cases "xs = []") (simp_all add: max.assoc)
  then show ?case using Cons.IH [of "max x a"] by simp
qed simp

lemma iter_max_simps: "iter_max [] = None" "xs \<noteq> [] \<Longrightarrow> iter_max xs = Some (Max (set xs))"
  by (auto simp: iter_max_def foldl_max split: list.split)

lemma try_array_iff [result_simps]: "try_array n b = Some c \<longleftrightarrow> length b = n \<and> c = b"
  by (auto simp: try_array_def)

lemma map_of_bt_insert [simp]:
  "bt_ok m \<Longrightarrow> map_of (bt_insert k v m) = (map_of m)(k \<mapsto> v)"
proof (induction k v m rule: bt_insert.induct)
  case (2 k v k' v' m)
  have "bt_ok m" using "2.prems" by (simp add: bt_ok_def)
  then show ?case using "2.IH" by (auto simp: fun_eq_iff)
qed simp

lemma set_bt_insert: "bt_ok m \<Longrightarrow> fst ` set (bt_insert k v m) = insert k (fst ` set m)"
  by (metis dom_fun_upd dom_map_of_conv_image_fst map_of_bt_insert option.distinct(1))

lemma bt_ok_insert [simp, intro]: "bt_ok m \<Longrightarrow> bt_ok (bt_insert k v m)"
proof (induction k v m rule: bt_insert.induct)
  case (2 k v k' v' m)
  have ok: "bt_ok m" using "2.prems" by (simp add: bt_ok_def)
  have "fst ` set (bt_insert k v m) = insert k (fst ` set m)" by (rule set_bt_insert [OF ok])
  then show ?case using "2.IH" "2.prems" ok by (auto simp: bt_ok_def)
qed (simp add: bt_ok_def)

lemma bt_ok_Nil [simp]: "bt_ok []" by (simp add: bt_ok_def)

lemma bt_ok_filter [simp]: "bt_ok m \<Longrightarrow> bt_ok (filter P m)"
  by (simp add: bt_ok_def sorted_filter distinct_map_filter)

lemma bt_ok_or_insert [simp]: "bt_ok m \<Longrightarrow> bt_ok (bt_or_insert k v m)"
  by (simp add: bt_or_insert_def)

text \<open>An ordered map is determined by its lookups.\<close>

lemma bt_unique:
  assumes "bt_ok m" "bt_ok n" "map_of m = map_of n"
  shows "m = n"
proof -
  have "set m = set n"
    using assms by (metis bt_ok_def map_of_eqI map_of_inject_set)
  moreover have "inj_on fst (set m \<union> set n)"
    using assms(1) \<open>set m = set n\<close> by (simp add: bt_ok_def distinct_map)
  ultimately show ?thesis
    using assms(1,2) by (intro map_sorted_distinct_set_unique [of fst]) (simp_all add: bt_ok_def)
qed

lemma bt_fold_insert:
  assumes "distinct (map fst kvs)" "bt_ok m"
  shows "bt_ok (fold (\<lambda>(k, v). bt_insert k v) kvs m) \<and>
    map_of (fold (\<lambda>(k, v). bt_insert k v) kvs m) = map_of m ++ map_of kvs"
  using assms
proof (induction kvs arbitrary: m)
  case (Cons p kvs)
  obtain k v where p: "p = (k, v)" by fastforce
  have "map_of kvs k = None" using Cons.prems(1) p by (simp add: map_of_eq_None_iff)
  then have "(map_of m)(k \<mapsto> v) ++ map_of kvs = map_of m ++ map_of (p # kvs)"
    by (auto simp: p fun_eq_iff map_add_def split: option.split)
  moreover have "map_of (bt_insert k v m) = (map_of m)(k \<mapsto> v)" "bt_ok (bt_insert k v m)"
    using Cons.prems(2) by (rule map_of_bt_insert) (use Cons.prems(2) in simp)
  moreover have "distinct (map fst kvs)" using Cons.prems(1) by simp
  ultimately show ?case using Cons.IH [of "bt_insert k v m"] by (simp only: fold.simps p case_prod_conv o_apply)
qed simp

lemma split_once_Some: "split_once p s = Some (a, b) \<Longrightarrow> s = a @ p @ b"
  by (induction s arbitrary: a b) (auto simp: strip_prefix_iff split: option.splits if_splits)

lemma split_once_char_iff:
  "split_once [d] s = Some (a, b) \<longleftrightarrow> s = a @ d # b \<and> d \<notin> set a"
proof (induction s arbitrary: a)
  case (Cons c s)
  show ?case
  proof (cases "c = d")
    case True
    then have "strip_prefix [d] (c # s) = Some s" by (simp add: strip_prefix_iff)
    then show ?thesis using True by (cases a) auto
  next
    case False
    then have "strip_prefix [d] (c # s) = None"
      by (metis append_Cons list.inject not_None_eq strip_prefix_iff)
    then show ?thesis using False Cons.IH by (cases a) auto
  qed
qed simp

lemma split_once_char_None: "split_once [d] s = None \<longleftrightarrow> d \<notin> set s"
proof
  assume none: "split_once [d] s = None"
  show "d \<notin> set s"
  proof
    assume "d \<in> set s"
    then obtain a b where "s = a @ d # b" "d \<notin> set a" by (meson split_list_first)
    then have "split_once [d] s = Some (a, b)" using split_once_char_iff by blast
    with none show False by simp
  qed
next
  assume "d \<notin> set s"
  then show "split_once [d] s = None"
    by (metis in_set_conv_decomp not_None_eq prod.exhaust split_once_char_iff)
qed

lemma eq_ignore_ascii_case_refl [simp]: "eq_ignore_ascii_case s s"
  by (simp add: eq_ignore_ascii_case_def)

lemma digit_facts:
  assumes "n < 10"
  shows "digit_value (digit n) = n" "is_digit (digit n)" "digit n \<noteq> CHR ''+''"
proof -
  have c: "of_char (digit n) = 48 + n" using assms by (simp add: digit_def)
  then show "digit_value (digit n) = n" by (simp add: digit_value_def)
  show "is_digit (digit n)" using c assms by (simp add: is_digit_def less_eq_char_def)
  show "digit n \<noteq> CHR ''+''" using c by auto
qed

lemma show_nat_facts:
  "foldl (\<lambda>a c. a * 10 + digit_value c) 0 (show_nat n) = n"
  "list_all is_digit (show_nat n)" "show_nat n \<noteq> []" "hd (show_nat n) \<noteq> CHR ''+''"
proof (induction n rule: show_nat.induct)
  case (1 n)
  have "foldl (\<lambda>a c. a * 10 + digit_value c) 0 (show_nat n) = n \<and>
      list_all is_digit (show_nat n) \<and> show_nat n \<noteq> [] \<and> hd (show_nat n) \<noteq> CHR ''+''"
  proof (cases "n < 10")
    case True
    then show ?thesis using digit_facts [of n] by (simp add: show_nat.simps [of n])
  next
    case False
    then have s: "show_nat n = show_nat (n div 10) @ [digit (n mod 10)]" by (simp add: show_nat.simps [of n])
    show ?thesis using "1.IH" [OF False] digit_facts [of "n mod 10"] by (simp add: s)
  qed
  then show "foldl (\<lambda>a c. a * 10 + digit_value c) 0 (show_nat n) = n"
    "list_all is_digit (show_nat n)" "show_nat n \<noteq> []" "hd (show_nat n) \<noteq> CHR ''+''" by auto
qed

lemma parse_show [simp]: "parse_unsigned b (show_nat n) = (if n < b then Some n else None)"
  using show_nat_facts [of n] by (cases "show_nat n") (simp_all add: parse_unsigned_def Let_def)

lemma show_nat_inj [simp]: "show_nat m = show_nat n \<longleftrightarrow> m = n"
  by (metis show_nat_facts(1))

lemma u16_try_from_unat [simp]: "u16_try_from (unat e) = Some e"
  using unsigned_less [of e, where ?'a = nat] by (simp add: u16_try_from_def)

lemma str_lines_join:
  assumes "list_all (\<lambda>l. l \<noteq> [] \<and> CHR 0x0A \<notin> set l \<and> CHR 0x0D \<notin> set l) ls"
  shows "str_lines (join_lines ls) = ls"
proof (cases ls)
  case Nil
  then show ?thesis by (simp add: join_lines_def str_lines_def)
next
  case (Cons l ls')
  have cr: "strip_cr x = x" if "CHR 0x0D \<notin> set x" for x
    using that by (auto simp: strip_cr_def strip_suffix_iff split: option.split)
  have "split_on (CHR 0x0A) (l @ concat (map (\<lambda>x. CHR 0x0A # x) ls')) = l # ls'"
    using assms unfolding Cons
    by (induction ls' arbitrary: l) auto
  moreover have "map strip_cr (butlast (l # ls')) = butlast (l # ls')"
    using assms unfolding Cons list_all_iff
    by (intro map_idI cr) (meson in_set_butlastD)
  moreover have "last (l # ls') \<noteq> []"
    using assms last_in_set [of "l # ls'"] unfolding Cons list_all_iff by blast
  ultimately show ?thesis
    unfolding Cons join_lines_def str_lines_def Let_def by (simp only: list.case append_butlast_last_id if_False) simp
qed

text \<open>A text that starts and ends with a printable ASCII character is not trimmed.\<close>

definition plain :: "char \<Rightarrow> bool" where
  "plain c \<longleftrightarrow> 32 < (of_char c :: nat) \<and> (of_char c :: nat) < 128"

lemma white_not_plain: "list_all (\<lambda>w. w \<noteq> [] \<and> \<not> plain (hd w) \<and> \<not> plain (last w)) white_spaces"
  by (simp add: white_spaces_def plain_def upt_rec)

lemma trim_plain:
  assumes "s \<noteq> []" "plain (hd s)" "plain (last s)"
  shows "trim s = s"
proof -
  have "strip_prefix w s = None" "strip_suffix w s = None" if "w \<in> set white_spaces" for w
  proof -
    have w: "w \<noteq> []" "\<not> plain (hd w)" "\<not> plain (last w)" using white_not_plain that by (auto simp: list_all_iff)
    show "strip_prefix w s = None"
    proof (rule ccontr)
      assume "strip_prefix w s \<noteq> None"
      then obtain r where "s = w @ r" by (auto simp: strip_prefix_iff)
      with w assms show False by simp
    qed
    show "strip_suffix w s = None"
    proof (rule ccontr)
      assume "strip_suffix w s \<noteq> None"
      then obtain r where "s = r @ w" by (auto simp: strip_suffix_iff)
      with w assms show False by simp
    qed
  qed
  then have "strip_white strip_prefix s = None" "strip_white strip_suffix s = None"
    by (auto simp: strip_white_def find_None_iff split: option.split dest: find_Some_iff [THEN iffD1])
  then show ?thesis by (cases s) (simp_all add: trim_def Let_def)
qed

end
