(* ===== verification/Keystore_Labels.thy ===== *)
theory Keystore_Labels
  imports Config Rust_Std
begin

section \<open>Key labels and the keystore interface\<close>

text \<open>
  \<^verbatim>\<open>cli/src/keystore/mod.rs\<close>: purposes, tiers, the label grammar \<^verbatim>\<open><handle>-<purpose>\<close>, the trait every
  custody backend implements, and how a backend is selected. The trait \<^verbatim>\<open>Keystore\<close> is the record
  \<open>keystore\<close> of operations on a state, so that a backend is a value of it. Environment variables are a
  function from names to values; the target platform is an argument.
\<close>

datatype Purpose = Signing | Kem | SigningPq | KemPq

fun purpose_as_str :: "Purpose \<Rightarrow> string" where
  "purpose_as_str Signing = ''signing''"
| "purpose_as_str Kem = ''kem''"
| "purpose_as_str SigningPq = ''signing-pq''"
| "purpose_as_str KemPq = ''kem-pq''"

fun purpose_suffix :: "Purpose \<Rightarrow> string" where
  "purpose_suffix Signing = ''-signing''"
| "purpose_suffix Kem = ''-kem''"
| "purpose_suffix SigningPq = ''-signing-pq''"
| "purpose_suffix KemPq = ''-kem-pq''"

fun default_alg :: "Purpose \<Rightarrow> string" where
  "default_alg Signing = ''ES256''"
| "default_alg Kem = ''ECDH-ES+A256KW''"
| "default_alg SigningPq = ''ML-DSA-87''"
| "default_alg KemPq = ''ML-KEM-1024''"

datatype Tier = SecureEnclave | Software

fun tier_as_str :: "Tier \<Rightarrow> string" where
  "tier_as_str SecureEnclave = ''secure-enclave''"
| "tier_as_str Software = ''software''"

fun tier_wire_str :: "Tier \<Rightarrow> string" where
  "tier_wire_str SecureEnclave = ''secure_enclave''"
| "tier_wire_str Software = ''software''"

record KeyLabel =
  label_handle :: string
  label_purpose :: Purpose

definition is_alnum :: "char \<Rightarrow> bool" where
  "is_alnum c \<longleftrightarrow> (CHR ''a'' \<le> c \<and> c \<le> CHR ''z'') \<or> (CHR ''0'' \<le> c \<and> c \<le> CHR ''9'')"

definition validate_handle :: "string \<Rightarrow> unit cli_result" where
  "validate_handle handle =
     (let n = length handle
      in if \<not> (2 \<le> n \<and> n \<le> 64) then Inl invalid_args
         else if \<not> is_alnum (handle ! 0) \<or> \<not> is_alnum (handle ! (n - 1)) then Inl invalid_args
         else if \<not> list_all (\<lambda>b. is_alnum b \<or> b = CHR ''-'') handle then Inl invalid_args
         else if strip_suffix ''-ai'' handle = None then Inl invalid_args
         else Inr ())"

definition split_purpose :: "string \<Rightarrow> (string \<times> Purpose) cli_result" where
  "split_purpose label =
     (case strip_suffix (purpose_suffix SigningPq) label of
        Some h \<Rightarrow> Inr (h, SigningPq)
      | None \<Rightarrow>
     (case strip_suffix (purpose_suffix KemPq) label of
        Some h \<Rightarrow> Inr (h, KemPq)
      | None \<Rightarrow>
     (case strip_suffix (purpose_suffix Signing) label of
        Some h \<Rightarrow> Inr (h, Signing)
      | None \<Rightarrow>
     (case strip_suffix (purpose_suffix Kem) label of
        Some h \<Rightarrow> Inr (h, Kem)
      | None \<Rightarrow> Inl invalid_args))))"

definition parse_label :: "string \<Rightarrow> Purpose option \<Rightarrow> KeyLabel cli_result" where
  "parse_label label expected =
     rbind (split_purpose label) (\<lambda>(handle, purpose).
     if (case expected of Some p \<Rightarrow> p \<noteq> purpose | None \<Rightarrow> False) then Inl invalid_args
     else rbind (validate_handle handle) (\<lambda>_.
          Inr \<lparr> label_handle = handle, label_purpose = purpose \<rparr>))"

definition label_from_handle :: "string \<Rightarrow> Purpose \<Rightarrow> KeyLabel cli_result" where
  "label_from_handle handle purpose =
     rbind (validate_handle handle) (\<lambda>_. Inr \<lparr> label_handle = handle, label_purpose = purpose \<rparr>)"

definition full :: "KeyLabel \<Rightarrow> string" where
  "full l = label_handle l @ purpose_suffix (label_purpose l)"

record KeyMeta =
  km_label :: string
  km_purpose :: string
  km_algorithm :: string
  km_storage :: string
  km_fingerprint :: string
  km_public_key :: bytes

record 's keystore =
  ks_tier :: Tier
  ks_generate :: "'s \<Rightarrow> KeyLabel \<Rightarrow> string \<Rightarrow> KeyMeta cli_result \<times> 's"
  ks_meta :: "'s \<Rightarrow> KeyLabel \<Rightarrow> KeyMeta cli_result"
  ks_sign :: "'s \<Rightarrow> KeyLabel \<Rightarrow> bytes \<Rightarrow> bytes cli_result"
  ks_ecdh :: "'s \<Rightarrow> KeyLabel \<Rightarrow> bytes \<Rightarrow> bytes cli_result"
  ks_ml_kem_decapsulate :: "'s \<Rightarrow> KeyLabel \<Rightarrow> bytes \<Rightarrow> bytes cli_result"
  ks_ml_dsa_sign :: "'s \<Rightarrow> KeyLabel \<Rightarrow> bytes \<Rightarrow> bytes \<Rightarrow> bytes cli_result"
  ks_list :: "'s \<Rightarrow> KeyMeta list cli_result"
  ks_delete :: "'s \<Rightarrow> KeyLabel \<Rightarrow> unit cli_result \<times> 's"
  ks_exists :: "'s \<Rightarrow> KeyLabel \<Rightarrow> bool cli_result"

text \<open>
  What the host-signer relies on when it scopes a keystore to one handle: an operation on a label leaves
  the keys of every other handle alone (\<open>untouched h\<close> relates two states that agree outside \<open>h\<close>), and a key
  that exists is never generated over.
\<close>

locale keystore_scope =
  fixes ks :: "'s keystore" and untouched :: "string \<Rightarrow> 's \<Rightarrow> 's \<Rightarrow> bool"
  assumes untouched_refl: "untouched h s s"
    and untouched_trans: "untouched h s t \<Longrightarrow> untouched h t u \<Longrightarrow> untouched h s u"
    and generate_scope: "untouched (label_handle l) s (snd (ks_generate ks s l a))"
    and delete_scope: "untouched (label_handle l) s (snd (ks_delete ks s l))"
    and generate_fresh: "ks_exists ks s l = Inr True \<Longrightarrow> ks_generate ks s l a = (Inl key_exists, s)"

definition ML_DSA_87_SIG_LEN :: nat where "ML_DSA_87_SIG_LEN = 4627"

definition validate_mldsa_ctx :: "bytes \<Rightarrow> unit cli_result" where
  "validate_mldsa_ctx ctx = (if length ctx > 255 then Inl invalid_args else Inr ())"

definition cli_error_from_wire :: "string \<Rightarrow> CliError" where
  "cli_error_from_wire c =
     (if c = ''key_already_exists'' then key_exists
      else if c = ''key_not_found'' then key_not_found
      else if c = ''unsupported_algorithm'' then unsupported_algorithm
      else if c = ''invalid_arguments'' then invalid_args
      else if c = ''invalid_data'' then invalid_data
      else if c = ''unsupported_platform'' then unsupported_platform
      else if c = ''authorization_denied'' then authorization_denied
      else if c = ''filesystem_error'' then filesystem
      else if c = ''encryption_failed'' then encryption_failed
      else if c = ''decrypt_failed'' then decrypt_failed
      else if c = ''access_paused'' then new_error 77 ''access_paused''
      else generic)"

subsection \<open>Selecting a backend\<close>

definition detect_tier :: "bool \<Rightarrow> environment \<Rightarrow> Tier" where
  "detect_tier apple_silicon env =
     (let auto = (if env ''SIGNET_HOST_CHANNEL_DIR'' \<noteq> None then SecureEnclave
                  else if apple_silicon then SecureEnclave else Software)
      in case env ''SIGNET_KEY_TIER'' of
           Some forced \<Rightarrow>
             (if forced = ''software'' then Software
              else if forced = ''secure_enclave'' \<or> forced = ''secure-enclave'' then SecureEnclave
              else auto)
         | None \<Rightarrow> auto)"

definition check_identity_match :: "string option \<Rightarrow> string option \<Rightarrow> unit cli_result" where
  "check_identity_match pinned asserted =
     (case (pinned, asserted) of
        (_, None) \<Rightarrow> Inr ()
      | (None, Some _) \<Rightarrow> Inr ()
      | (Some p, Some a) \<Rightarrow> (if p = a then Inr () else Inl identity_mismatch))"

definition env_trimmed :: "environment \<Rightarrow> string \<Rightarrow> string option" where
  "env_trimmed env name =
     (case env name of
        None \<Rightarrow> None
      | Some s \<Rightarrow> (let t = trim s in if t = [] then None else Some t))"

definition verify_channel_identity :: "environment \<Rightarrow> string option cli_result \<Rightarrow> unit cli_result" where
  "verify_channel_identity env pinned_identity =
     (let asserted = env_trimmed env ''SIGNET_HANDLE''
      in rbind pinned_identity (\<lambda>pinned. check_identity_match pinned asserted))"

record SocketAddr =
  addr_text :: string
  is_ipv6 :: bool
  is_loopback :: bool

definition resolve_broker_addr :: "(string \<Rightarrow> SocketAddr list option) \<Rightarrow> string \<Rightarrow> SocketAddr cli_result" where
  "resolve_broker_addr to_socket_addrs addr =
     rbind (ok_or config_error (to_socket_addrs addr)) (\<lambda>resolved.
     case sort_key is_ipv6 resolved of [] \<Rightarrow> Inl config_error | a # _ \<Rightarrow> Inr a)"

definition broker_credential_path :: "environment \<Rightarrow> string cli_result" where
  "broker_credential_path env =
     (case env_trimmed env ''SIGNET_BROKER_CREDENTIAL'' of
        Some p \<Rightarrow> Inr p
      | None \<Rightarrow>
          (case env_trimmed env ''SIGNET_HANDLE'' of
             Some handle \<Rightarrow> Inr (default_credential_path env handle)
           | None \<Rightarrow> Inl config_error))"

record BrokerDelegation =
  broker_addr :: SocketAddr
  credential_path :: string

definition broker_delegation ::
  "(string \<Rightarrow> SocketAddr list option) \<Rightarrow> environment \<Rightarrow> BrokerDelegation option cli_result" where
  "broker_delegation to_socket_addrs env =
     (case env_trimmed env ''SIGNET_BROKER_ADDR'' of
        None \<Rightarrow> Inr None
      | Some addr \<Rightarrow>
          rbind (resolve_broker_addr to_socket_addrs addr) (\<lambda>a.
          rbind (broker_credential_path env) (\<lambda>p.
          Inr (Some \<lparr> broker_addr = a, credential_path = p \<rparr>))))"

definition read_channel_secret :: "crypto_lib \<Rightarrow> (string \<Rightarrow> string option) \<Rightarrow> string \<Rightarrow> bytes cli_result" where
  "read_channel_secret E read_to_string path =
     rbind (ok_or config_error (read_to_string path)) (\<lambda>text.
     rbind (ok_or config_error (hex_decode E (trim text))) (\<lambda>bs.
     if length bs = 32 then Inr bs else Inl config_error))"

record HostDelegation =
  channel_dir :: string
  hd_channel_id :: string
  hd_secret :: bytes

definition host_delegation ::
  "crypto_lib \<Rightarrow> (string \<Rightarrow> string option) \<Rightarrow> environment \<Rightarrow> HostDelegation option cli_result" where
  "host_delegation E read_to_string env =
     (case env ''SIGNET_HOST_CHANNEL_DIR'' of
        None \<Rightarrow> Inr None
      | Some dir \<Rightarrow>
          rbind (ok_or config_error (env ''SIGNET_HOST_CHANNEL_ID'')) (\<lambda>cid.
          rbind (ok_or config_error (env ''SIGNET_HOST_CHANNEL_SECRET_FILE'')) (\<lambda>secret_file.
          rbind (read_channel_secret E read_to_string secret_file) (\<lambda>secret.
          Inr (Some \<lparr> channel_dir = dir, hd_channel_id = cid, hd_secret = secret \<rparr>)))))"

text \<open>
  Which backend \<^verbatim>\<open>open\<close> opens. Opening one does I/O, so its outcome is an argument: \<open>pinned_identity\<close> is
  the host-signer's answer on the channel, \<open>auto_pickup\<close> the outcome of claiming a missing credential,
  \<open>credential_exists\<close> whether the file is there.
\<close>

datatype Backend =
    BrokerBackend BrokerDelegation
  | DelegatedBackend HostDelegation
  | SoftwareBackend string
  | SecureEnclaveBackend

record open_world =
  w_env :: environment
  w_macos :: bool
  w_apple_silicon :: bool
  w_to_socket_addrs :: "string \<Rightarrow> SocketAddr list option"
  w_read_to_string :: "string \<Rightarrow> string option"
  w_credential_exists :: "string \<Rightarrow> bool"
  w_auto_pickup :: "string \<Rightarrow> unit cli_result"
  w_broker_open :: "BrokerDelegation \<Rightarrow> unit cli_result"
  w_pinned_identity :: "HostDelegation \<Rightarrow> string option cli_result"

definition open_non_broker :: "crypto_lib \<Rightarrow> open_world \<Rightarrow> Backend cli_result" where
  "open_non_broker E W =
     rbind (host_delegation E (w_read_to_string W) (w_env W)) (\<lambda>hd.
     case hd of
       Some d \<Rightarrow> rbind (verify_channel_identity (w_env W) (w_pinned_identity W d)) (\<lambda>_. Inr (DelegatedBackend d))
     | None \<Rightarrow>
         (case detect_tier (w_apple_silicon W) (w_env W) of
            Software \<Rightarrow> Inr (SoftwareBackend (keys_dir (w_env W)))
          | SecureEnclave \<Rightarrow> (if w_macos W then Inr SecureEnclaveBackend else Inl unsupported_platform)))"

definition open_enrollment_channel :: "crypto_lib \<Rightarrow> open_world \<Rightarrow> Backend cli_result" where
  "open_enrollment_channel E W = open_non_broker E W"

definition open_keystore :: "crypto_lib \<Rightarrow> open_world \<Rightarrow> Backend cli_result" where
  "open_keystore E W =
     rbind (broker_delegation (w_to_socket_addrs W) (w_env W)) (\<lambda>bd.
     case bd of
       Some d \<Rightarrow>
         rbind (if w_credential_exists W (credential_path d) then Inr ()
                else w_auto_pickup W (credential_path d)) (\<lambda>_.
         rbind (w_broker_open W d) (\<lambda>_. Inr (BrokerBackend d)))
     | None \<Rightarrow> open_non_broker E W)"

subsection \<open>Labels\<close>

lemma strip_other_suffix:
  "p \<noteq> q \<Longrightarrow> strip_suffix (purpose_suffix q) (h @ purpose_suffix p) = None"
  by (cases p; cases q) (simp_all add: strip_suffix_def strip_prefix_def)

lemma strip_own_suffix: "strip_suffix (purpose_suffix p) (h @ purpose_suffix p) = Some h"
  by (simp add: strip_suffix_iff)

lemma split_purpose_iff [result_simps]: "split_purpose s = Inr (h, p) \<longleftrightarrow> s = h @ purpose_suffix p"
proof
  show "split_purpose s = Inr (h, p) \<Longrightarrow> s = h @ purpose_suffix p"
    unfolding split_purpose_def by (auto simp only: strip_suffix_iff sum.inject Pair_inject split: option.splits)
  show "s = h @ purpose_suffix p \<Longrightarrow> split_purpose s = Inr (h, p)"
    unfolding split_purpose_def
    by (cases p) (simp_all only: strip_own_suffix strip_other_suffix option.case Purpose.distinct not_False_eq_True
        simp_thms)
qed

lemma parse_label_full:
  assumes "parse_label s e = Inr l"
  shows "s = full l" "validate_handle (label_handle l) = Inr ()"
  using assms by (auto simp: parse_label_def result_simps full_def split: if_splits)

lemma parse_full: "validate_handle (label_handle l) = Inr () \<Longrightarrow> parse_label (full l) None = Inr l"
  by (cases l) (simp add: parse_label_def full_def split_purpose_iff [THEN iffD2, OF refl])

text \<open>
  parsing a label and printing one are inverse: a string parses to a label exactly when it is that
  label printed and its handle is valid, so no two labels share a key file name.
\<close>
theorem parse_label_iff:
  "parse_label s None = Inr l \<longleftrightarrow> s = full l \<and> validate_handle (label_handle l) = Inr ()"
  using parse_label_full parse_full by blast

lemma full_inj: "full l = full m \<longleftrightarrow> l = m"
proof
  assume "full l = full m"
  then have "split_purpose (full m) = Inr (label_handle l, label_purpose l)"
    "split_purpose (full m) = Inr (label_handle m, label_purpose m)"
    by (simp_all add: split_purpose_iff full_def)
  then show "l = m" by simp
qed simp

lemma valid_handle_nonempty: "validate_handle h = Inr () \<Longrightarrow> 2 \<le> length h \<and> is_alnum (hd h)"
  by (cases h) (auto simp: validate_handle_def Let_def split: if_splits)

subsection \<open>Errors over the wire\<close>

text \<open>
  an error code that crosses the wire comes back as the error it was, exit code included, for the
  eleven codes the table names; the code of a locked Secure Enclave is not among them and comes back as
  the generic failure with exit code 1 instead of 52.
\<close>
theorem wire_errors:
  "list_all (\<lambda>e. cli_error_from_wire (code e) = e)
     [key_exists, key_not_found, unsupported_algorithm, invalid_args, invalid_data, unsupported_platform,
      authorization_denied, filesystem, encryption_failed, decrypt_failed, new_error 77 ''access_paused'', generic] \<and>
   exit_code se_locked = 52 \<and> exit_code (cli_error_from_wire (code se_locked)) = 1"
  by (simp add: cli_error_from_wire_def cli_error_defs)

subsection \<open>Opening\<close>

text \<open>
  opening the keystore never falls back silently. With a broker configured, the backend opened is the
  broker's or nothing is opened; and a channel backend is opened only if the handle pinned by the
  host-signer is the one the launch configuration asserts, when both are present.
\<close>
theorem open_never_falls_back:
  assumes "open_keystore E W = Inr b"
  shows "(env_trimmed (w_env W) ''SIGNET_BROKER_ADDR'' = None \<or> (\<exists>d. b = BrokerBackend d)) \<and>
    (\<forall>d p a. b = DelegatedBackend d \<and> w_pinned_identity W d = Inr (Some p) \<and>
       env_trimmed (w_env W) ''SIGNET_HANDLE'' = Some a \<longrightarrow> p = a)"
proof -
  have "p = a" if "verify_channel_identity (w_env W) (Inr (Some p)) = Inr ()"
    "env_trimmed (w_env W) ''SIGNET_HANDLE'' = Some a" for p a
    using that by (auto simp: verify_channel_identity_def check_identity_match_def Let_def split: if_splits)
  then show ?thesis using assms
    by (auto simp: open_keystore_def open_non_broker_def broker_delegation_def result_simps
        split: option.splits Tier.splits if_splits)
qed

definition demo_world :: open_world where
  "demo_world = \<lparr> w_env = [''HOME'' \<mapsto> ''/h'', ''SIGNET_BROKER_ADDR'' \<mapsto> ''b:1'', ''SIGNET_BROKER_CREDENTIAL'' \<mapsto> ''c''],
     w_macos = False, w_apple_silicon = False,
     w_to_socket_addrs = (\<lambda>a. Some [\<lparr> addr_text = ''::1'', is_ipv6 = True, is_loopback = True \<rparr>,
       \<lparr> addr_text = ''127.0.0.1:1'', is_ipv6 = False, is_loopback = True \<rparr>]),
     w_read_to_string = (\<lambda>_. None), w_credential_exists = (\<lambda>_. True), w_auto_pickup = (\<lambda>_. Inl generic),
     w_broker_open = (\<lambda>_. Inr ()), w_pinned_identity = (\<lambda>_. Inr None) \<rparr>"

lemma demo_trim: "trim ''b:1'' = ''b:1''" "trim ''c'' = ''c''"
  by (simp_all add: trim_plain plain_def)

lemma demo_open:
  "open_keystore demo_lib demo_world =
     Inr (BrokerBackend \<lparr> broker_addr = \<lparr> addr_text = ''127.0.0.1:1'', is_ipv6 = False, is_loopback = True \<rparr>,
       credential_path = ''c'' \<rparr>)"
  by (simp add: open_keystore_def broker_delegation_def env_trimmed_def resolve_broker_addr_def
      broker_credential_path_def demo_world_def demo_trim)

theorem open_never_falls_back_witness:
  "env_trimmed (w_env demo_world) ''SIGNET_BROKER_ADDR'' = Some ''b:1'' \<and>
   (env_trimmed (w_env demo_world) ''SIGNET_BROKER_ADDR'' = None \<or>
    (\<exists>d. BrokerBackend \<lparr> broker_addr = \<lparr> addr_text = ''127.0.0.1:1'', is_ipv6 = False, is_loopback = True \<rparr>,
       credential_path = ''c'' \<rparr> = BrokerBackend d))"
  by (rule conjI [OF _ conjunct1 [OF open_never_falls_back [OF demo_open]]])
    (simp add: env_trimmed_def demo_world_def demo_trim)

end
