(* ===== verification/Software_Keystore.thy ===== *)
theory Software_Keystore
  imports Keystore_Labels "HOL-Library.List_Lexorder"
begin

section \<open>The software keystore\<close>

text \<open>
  \<^verbatim>\<open>cli/src/keystore/software.rs\<close>: key records as files, each private key sealed under the keystore's own
  key with its label as associated data. The state is the directory (file names and contents in scan
  order) and that key. JSON, the standard base64 alphabet and the post-quantum algorithms are third-party:
  the record \<open>sw_lib\<close> has one field for each function called; \<open>sw_fault\<close> says which file-system calls
  fail; \<open>sw_entropy\<close> is the randomness a call draws (the secret of \<^verbatim>\<open>generate\<close> and its nonce, the signing
  randomness of ML-DSA).
\<close>

datatype fs_call = FsRead | FsWrite | FsChmod | FsRemove | FsScan

record StoredKey =
  sk_label :: string
  sk_purpose :: string
  sk_algorithm :: string
  sk_tier :: string
  sk_fingerprint :: string
  sk_public_key_b64url :: string
  sk_scalar_blob_b64 :: string

record sw_lib =
  sw_fault :: "fs_call \<Rightarrow> string \<Rightarrow> bool"
  sw_entropy :: "string \<Rightarrow> nat \<Rightarrow> bytes"
  stored_to_json :: "StoredKey \<Rightarrow> bytes option"
  stored_from_json :: "string \<Rightarrow> StoredKey option"
  b64_std_encode :: "bytes \<Rightarrow> string"
  b64_std_decode :: "string \<Rightarrow> bytes option"
  mldsa_public :: "bytes \<Rightarrow> bytes"
  mldsa_sign :: "bytes \<Rightarrow> bytes \<Rightarrow> bytes \<Rightarrow> bytes \<Rightarrow> bytes option"
  mlkem_public :: "bytes \<Rightarrow> bytes \<Rightarrow> bytes"
  mlkem_decap :: "bytes \<Rightarrow> bytes \<Rightarrow> bytes \<Rightarrow> bytes option"

record SoftwareKeystore =
  sw_files :: "(string \<times> bytes) list"
  sw_kek :: bytes

definition KEK_FILE :: string where "KEK_FILE = ''keystore.kek''"
definition AT_REST_AAD_DOMAIN :: bytes where "AT_REST_AAD_DOMAIN = utf8 ''signet-cli-keystore-v1'' @ [0]"

definition at_rest_aad :: "KeyLabel \<Rightarrow> bytes" where
  "at_rest_aad label = AT_REST_AAD_DOMAIN @ utf8 (full label)"

definition key_path :: "KeyLabel \<Rightarrow> string" where
  "key_path label = full label @ ''.json''"

definition file_exists :: "SoftwareKeystore \<Rightarrow> string \<Rightarrow> bool" where
  "file_exists self name \<longleftrightarrow> map_of (sw_files self) name \<noteq> None"

definition write_secret_file ::
  "sw_lib \<Rightarrow> string \<Rightarrow> bytes \<Rightarrow> SoftwareKeystore \<Rightarrow> unit cli_result \<times> SoftwareKeystore" where
  "write_secret_file S name bs self =
     (if sw_fault S FsWrite name then (Inl output_write, self)
      else
        let self = self\<lparr> sw_files := filter (\<lambda>(n, _). n \<noteq> name) (sw_files self) @ [(name, bs)] \<rparr>
        in if sw_fault S FsChmod name then (Inl output_write, self) else (Inr (), self))"

definition load_or_create_kek ::
  "sw_lib \<Rightarrow> bytes \<Rightarrow> (string \<times> bytes) list \<Rightarrow> bytes cli_result \<times> (string \<times> bytes) list" where
  "load_or_create_kek S random files =
     (case map_of files KEK_FILE of
        Some bs \<Rightarrow>
          ((if sw_fault S FsRead KEK_FILE then Inl filesystem
            else if length bs = 32 then Inr bs else Inl config_error), files)
      | None \<Rightarrow>
          (case write_secret_file S KEK_FILE random \<lparr> sw_files = files, sw_kek = [] \<rparr> of
             (Inl e, st) \<Rightarrow> (Inl e, sw_files st)
           | (Inr _, st) \<Rightarrow> (Inr random, sw_files st)))"

definition sw_open ::
  "sw_lib \<Rightarrow> bytes \<Rightarrow> (string \<times> bytes) list \<Rightarrow> SoftwareKeystore cli_result \<times> (string \<times> bytes) list" where
  "sw_open S random files =
     (if sw_fault S FsWrite [] \<or> sw_fault S FsChmod [] then (Inl filesystem, files)
      else
        (case load_or_create_kek S random files of
           (Inl e, files) \<Rightarrow> (Inl e, files)
         | (Inr kek, files) \<Rightarrow> (Inr \<lparr> sw_files = files, sw_kek = kek \<rparr>, files)))"

definition read_stored :: "sw_lib \<Rightarrow> SoftwareKeystore \<Rightarrow> KeyLabel \<Rightarrow> StoredKey cli_result" where
  "read_stored S self label =
     (case map_of (sw_files self) (key_path label) of
        None \<Rightarrow> Inl key_not_found
      | Some bs \<Rightarrow>
          (if sw_fault S FsRead (key_path label) then Inl filesystem
           else rbind (ok_or filesystem (from_utf8 bs)) (\<lambda>text.
                ok_or filesystem (stored_from_json S text))))"

definition seal_bytes ::
  "crypto_lib \<Rightarrow> sw_lib \<Rightarrow> SoftwareKeystore \<Rightarrow> KeyLabel \<Rightarrow> bytes \<Rightarrow> bytes \<Rightarrow> string cli_result" where
  "seal_bytes E S self label secret nonce =
     rbind (lift_crypto (seal E (sw_kek self) nonce secret (at_rest_aad label))) (\<lambda>ct.
     Inr (b64_std_encode S (nonce @ ct)))"

definition open_bytes ::
  "crypto_lib \<Rightarrow> sw_lib \<Rightarrow> SoftwareKeystore \<Rightarrow> KeyLabel \<Rightarrow> StoredKey \<Rightarrow> bytes cli_result" where
  "open_bytes E S self label stored =
     rbind (ok_or filesystem (b64_std_decode S (sk_scalar_blob_b64 stored))) (\<lambda>blob.
     if length blob < 12 then Inl filesystem
     else lift_crypto (open_sealed E (sw_kek self) (take 12 blob) (drop 12 blob) (at_rest_aad label)))"

definition open_scalar ::
  "crypto_lib \<Rightarrow> sw_lib \<Rightarrow> SoftwareKeystore \<Rightarrow> KeyLabel \<Rightarrow> StoredKey \<Rightarrow> bytes cli_result" where
  "open_scalar E S self label stored =
     rbind (open_bytes E S self label stored) (\<lambda>plain.
     if length plain = 32 then Inr plain else Inl decrypt_failed)"

definition to_meta :: "crypto_lib \<Rightarrow> StoredKey \<Rightarrow> KeyMeta cli_result" where
  "to_meta E stored =
     rbind (ok_or filesystem (b64_decode E (sk_public_key_b64url stored))) (\<lambda>public_key.
     Inr \<lparr> km_label = sk_label stored, km_purpose = sk_purpose stored, km_algorithm = sk_algorithm stored,
           km_storage = sk_tier stored, km_fingerprint = sk_fingerprint stored, km_public_key = public_key \<rparr>)"

fun fresh_key :: "crypto_lib \<Rightarrow> sw_lib \<Rightarrow> Purpose \<Rightarrow> bytes \<Rightarrow> (bytes \<times> bytes \<times> string) cli_result" where
  "fresh_key E S Signing secret =
     rbind (lift_crypto (fingerprint E (p256_public E secret))) (\<lambda>fp. Inr (secret, p256_public E secret, fp))"
| "fresh_key E S Kem secret =
     rbind (lift_crypto (fingerprint E (p256_public E secret))) (\<lambda>fp. Inr (secret, p256_public E secret, fp))"
| "fresh_key E S SigningPq seed =
     (let public = mldsa_public S seed in Inr (seed, public, fingerprint_raw E public))"
| "fresh_key E S KemPq dz =
     (let public = mlkem_public S (take 32 dz) (drop 32 dz) in Inr (dz, public, fingerprint_raw E public))"

definition sw_generate ::
  "crypto_lib \<Rightarrow> sw_lib \<Rightarrow> SoftwareKeystore \<Rightarrow> KeyLabel \<Rightarrow> string \<Rightarrow> KeyMeta cli_result \<times> SoftwareKeystore" where
  "sw_generate E S self label algorithm =
     (if file_exists self (key_path label) then (Inl key_exists, self)
      else
        (case rbind (fresh_key E S (label_purpose label) (sw_entropy S (full label) 0)) (\<lambda>(secret, public_key, fp).
              rbind (seal_bytes E S self label secret (sw_entropy S (full label) 1)) (\<lambda>blob.
              let stored = \<lparr> sk_label = full label, sk_purpose = purpose_as_str (label_purpose label),
                    sk_algorithm = algorithm, sk_tier = tier_as_str Software, sk_fingerprint = fp,
                    sk_public_key_b64url = b64_encode E public_key, sk_scalar_blob_b64 = blob \<rparr>
              in rbind (ok_or generic (stored_to_json S stored)) (\<lambda>bs. Inr (stored, fp, public_key, bs)))) of
           Inl e \<Rightarrow> (Inl e, self)
         | Inr (stored, fp, public_key, bs) \<Rightarrow>
             (case write_secret_file S (key_path label) bs self of
                (Inl e, self) \<Rightarrow> (Inl e, self)
              | (Inr _, self) \<Rightarrow>
                  (Inr \<lparr> km_label = sk_label stored, km_purpose = sk_purpose stored, km_algorithm = sk_algorithm stored,
                     km_storage = sk_tier stored, km_fingerprint = fp, km_public_key = public_key \<rparr>, self))))"

definition sw_meta :: "crypto_lib \<Rightarrow> sw_lib \<Rightarrow> SoftwareKeystore \<Rightarrow> KeyLabel \<Rightarrow> KeyMeta cli_result" where
  "sw_meta E S self label = rbind (read_stored S self label) (to_meta E)"

definition sw_sign :: "crypto_lib \<Rightarrow> sw_lib \<Rightarrow> SoftwareKeystore \<Rightarrow> KeyLabel \<Rightarrow> bytes \<Rightarrow> bytes cli_result" where
  "sw_sign E S self label msg =
     (if label_purpose label \<noteq> Signing then Inl unsupported_algorithm
      else rbind (read_stored S self label) (\<lambda>stored.
           rbind (open_scalar E S self label stored) (\<lambda>scalar.
           lift_crypto (sign_es256 E scalar msg))))"

definition sw_ecdh :: "crypto_lib \<Rightarrow> sw_lib \<Rightarrow> SoftwareKeystore \<Rightarrow> KeyLabel \<Rightarrow> bytes \<Rightarrow> bytes cli_result" where
  "sw_ecdh E S self label peer_pub_x963 =
     (if label_purpose label \<noteq> Kem then Inl unsupported_algorithm
      else rbind (read_stored S self label) (\<lambda>stored.
           rbind (open_scalar E S self label stored) (\<lambda>scalar.
           lift_crypto (ecdh_p256 E scalar peer_pub_x963))))"

definition sw_ml_kem_decapsulate ::
  "crypto_lib \<Rightarrow> sw_lib \<Rightarrow> SoftwareKeystore \<Rightarrow> KeyLabel \<Rightarrow> bytes \<Rightarrow> bytes cli_result" where
  "sw_ml_kem_decapsulate E S self label ek =
     (if label_purpose label \<noteq> KemPq then Inl unsupported_algorithm
      else rbind (read_stored S self label) (\<lambda>stored.
           rbind (open_bytes E S self label stored) (\<lambda>dz.
           if length dz \<noteq> 64 then Inl decrypt_failed
           else if length ek \<noteq> 1568 then Inl invalid_data
           else ok_or decrypt_failed (mlkem_decap S (take 32 dz) (drop 32 dz) ek))))"

definition sw_ml_dsa_sign ::
  "crypto_lib \<Rightarrow> sw_lib \<Rightarrow> SoftwareKeystore \<Rightarrow> KeyLabel \<Rightarrow> bytes \<Rightarrow> bytes \<Rightarrow> bytes cli_result" where
  "sw_ml_dsa_sign E S self label msg ctx =
     (if label_purpose label \<noteq> SigningPq then Inl unsupported_algorithm
      else rbind (validate_mldsa_ctx ctx) (\<lambda>_.
           rbind (read_stored S self label) (\<lambda>stored.
           rbind (open_bytes E S self label stored) (\<lambda>seed.
           if length seed \<noteq> 32 then Inl decrypt_failed
           else ok_or generic (mldsa_sign S seed msg ctx (sw_entropy S (full label) 2))))))"

fun list_files :: "crypto_lib \<Rightarrow> sw_lib \<Rightarrow> (string \<times> bytes) list \<Rightarrow> KeyMeta list cli_result" where
  "list_files E S [] = Inr []"
| "list_files E S ((name, bs) # entries) =
     (if path_extension name \<noteq> Some ''json'' then list_files E S entries
      else if sw_fault S FsRead name then Inl filesystem
      else rbind (ok_or filesystem (from_utf8 bs)) (\<lambda>text.
           case stored_from_json S text of
             None \<Rightarrow> list_files E S entries
           | Some stored \<Rightarrow>
               rbind (to_meta E stored) (\<lambda>m.
               rbind (list_files E S entries) (\<lambda>out. Inr (m # out)))))"

definition sw_list :: "crypto_lib \<Rightarrow> sw_lib \<Rightarrow> SoftwareKeystore \<Rightarrow> KeyMeta list cli_result" where
  "sw_list E S self =
     (if sw_fault S FsScan [] then Inl filesystem
      else rbind (list_files E S (sw_files self)) (\<lambda>out. Inr (sort_key km_label out)))"

definition sw_delete :: "sw_lib \<Rightarrow> SoftwareKeystore \<Rightarrow> KeyLabel \<Rightarrow> unit cli_result \<times> SoftwareKeystore" where
  "sw_delete S self label =
     (let path = key_path label in
      if \<not> file_exists self path then (Inl key_not_found, self)
      else if sw_fault S FsRemove path then (Inl filesystem, self)
      else (Inr (), self\<lparr> sw_files := filter (\<lambda>(n, _). n \<noteq> path) (sw_files self) \<rparr>))"

definition software :: "crypto_lib \<Rightarrow> sw_lib \<Rightarrow> SoftwareKeystore keystore" where
  "software E S =
     \<lparr> ks_tier = Software, ks_generate = sw_generate E S, ks_meta = sw_meta E S, ks_sign = sw_sign E S,
       ks_ecdh = sw_ecdh E S, ks_ml_kem_decapsulate = sw_ml_kem_decapsulate E S,
       ks_ml_dsa_sign = sw_ml_dsa_sign E S, ks_list = sw_list E S, ks_delete = sw_delete S,
       ks_exists = (\<lambda>self label. Inr (file_exists self (key_path label))) \<rparr>"

subsection \<open>Operations touch one key file\<close>

lemma map_of_replace:
  "map_of (filter (\<lambda>(n, _). n \<noteq> name) fs @ [(name, bs)]) x = (if x = name then Some bs else map_of fs x)"
  by (induction fs) auto

lemma map_of_remove: "map_of (filter (\<lambda>(n, _). n \<noteq> name) fs) x = (if x = name then None else map_of fs x)"
  by (induction fs) auto

definition one_file :: "string \<Rightarrow> SoftwareKeystore \<Rightarrow> SoftwareKeystore \<Rightarrow> bool" where
  "one_file name st st' \<longleftrightarrow> sw_kek st' = sw_kek st \<and>
     (\<forall>x. x \<noteq> name \<longrightarrow> map_of (sw_files st') x = map_of (sw_files st) x)"

lemma write_secret_file_one: "one_file name st (snd (write_secret_file S name bs st))"
  by (simp add: one_file_def write_secret_file_def Let_def map_of_replace del: map_of_append)

lemma sw_generate_one: "one_file (key_path l) st (snd (sw_generate E S st l a))"
proof -
  have refl: "one_file (key_path l) st st" by (simp add: one_file_def)
  show ?thesis
    unfolding sw_generate_def
    using refl write_secret_file_one [of "key_path l" st S]
    by (auto split: sum.split prod.split) (metis snd_conv)+
qed

lemma sw_delete_one: "one_file (key_path l) st (snd (sw_delete S st l))"
  by (simp add: one_file_def sw_delete_def Let_def map_of_remove)

definition sw_untouched :: "string \<Rightarrow> SoftwareKeystore \<Rightarrow> SoftwareKeystore \<Rightarrow> bool" where
  "sw_untouched h st st' \<longleftrightarrow> sw_kek st' = sw_kek st \<and>
     (\<forall>x. (\<forall>l. label_handle l = h \<longrightarrow> x \<noteq> key_path l) \<longrightarrow> map_of (sw_files st') x = map_of (sw_files st) x)"

lemma one_file_untouched: "one_file (key_path l) st st' \<Longrightarrow> sw_untouched (label_handle l) st st'"
  by (auto simp: one_file_def sw_untouched_def)

interpretation software_scope: keystore_scope "software E S" sw_untouched for E S
proof
  fix h s t u l a
  show "sw_untouched h s s" by (simp add: sw_untouched_def)
  show "sw_untouched h s t \<Longrightarrow> sw_untouched h t u \<Longrightarrow> sw_untouched h s u" by (simp add: sw_untouched_def)
  show "sw_untouched (label_handle l) s (snd (ks_generate (software E S) s l a))"
    by (simp only: software_def keystore.simps) (rule one_file_untouched [OF sw_generate_one])
  show "sw_untouched (label_handle l) s (snd (ks_delete (software E S) s l))"
    by (simp only: software_def keystore.simps) (rule one_file_untouched [OF sw_delete_one])
  show "ks_exists (software E S) s l = Inr True \<Longrightarrow> ks_generate (software E S) s l a = (Inl key_exists, s)"
    by (simp add: software_def sw_generate_def)
qed

subsection \<open>A generated key works\<close>

definition sw_correct :: "sw_lib \<Rightarrow> bool" where
  "sw_correct S \<longleftrightarrow>
     (\<forall>x. b64_std_decode S (b64_std_encode S x) = Some x) \<and>
     (\<forall>k bs. stored_to_json S k = Some bs \<longrightarrow> (\<exists>t. from_utf8 bs = Some t \<and> stored_from_json S t = Some k))"

lemma sw_generate_Inr:
  assumes "sw_generate E S st l a = (Inr m, st')"
  obtains secret pk fp blob stored bs where
    "fresh_key E S (label_purpose l) (sw_entropy S (full l) 0) = Inr (secret, pk, fp)"
    "seal_bytes E S st l secret (sw_entropy S (full l) 1) = Inr blob"
    "stored = \<lparr> sk_label = full l, sk_purpose = purpose_as_str (label_purpose l), sk_algorithm = a,
       sk_tier = tier_as_str Software, sk_fingerprint = fp, sk_public_key_b64url = b64_encode E pk,
       sk_scalar_blob_b64 = blob \<rparr>"
    "stored_to_json S stored = Some bs" "map_of (sw_files st') (key_path l) = Some bs" "sw_kek st' = sw_kek st"
    "m = \<lparr> km_label = full l, km_purpose = purpose_as_str (label_purpose l), km_algorithm = a,
       km_storage = tier_as_str Software, km_fingerprint = fp, km_public_key = pk \<rparr>"
  using assms
  by (auto simp: sw_generate_def write_secret_file_def Let_def result_simps map_of_replace simp del: map_of_append
      split: if_splits sum.splits prod.splits)

text \<open>
  a signing key the software keystore generates can be used at once: signing with its label succeeds
  and the signature verifies under the public key the generation returned, the stored metadata are the
  ones returned, and generating the label again is refused without touching the stored key.
\<close>
theorem generated_key_signs:
  assumes laws: "gcm_correct E" "p256_correct E" "ecdsa_correct E" "b64_correct E" "sw_correct S"
    and gen: "sw_generate E S st l a = (Inr m, st')" and "label_purpose l = Signing"
    and "\<not> sw_fault S FsRead (key_path l)"
    and rnd: "p256_scalar E (sw_entropy S (full l) 0)" "length (sw_entropy S (full l) 0) = 32"
      "length (sw_entropy S (full l) 1) = 12"
  shows "\<exists>sig. sw_sign E S st' l msg = Inr sig \<and> verify_es256 E (km_public_key m) msg sig = Inr () \<and>
    sw_meta E S st' l = Inr m \<and> sw_generate E S st' l a' = (Inl key_exists, st')"
proof -
  define secret where "secret = sw_entropy S (full l) 0"
  define nonce where "nonce = sw_entropy S (full l) 1"
  obtain sec pk fp blob stored bs where gen':
    "fresh_key E S (label_purpose l) (sw_entropy S (full l) 0) = Inr (sec, pk, fp)"
    "seal_bytes E S st l sec (sw_entropy S (full l) 1) = Inr blob"
    "stored = \<lparr> sk_label = full l, sk_purpose = purpose_as_str (label_purpose l), sk_algorithm = a,
       sk_tier = tier_as_str Software, sk_fingerprint = fp, sk_public_key_b64url = b64_encode E pk,
       sk_scalar_blob_b64 = blob \<rparr>"
    "stored_to_json S stored = Some bs" "map_of (sw_files st') (key_path l) = Some bs" "sw_kek st' = sw_kek st"
    "m = \<lparr> km_label = full l, km_purpose = purpose_as_str (label_purpose l), km_algorithm = a,
       km_storage = tier_as_str Software, km_fingerprint = fp, km_public_key = pk \<rparr>"
    by (rule sw_generate_Inr [OF gen])
  have sec: "sec = secret" "pk = p256_public E secret"
    using gen'(1) assms(7) by (auto simp: secret_def result_simps)
  note * = sec(2) gen'(2) [unfolded sec(1), folded nonce_def] gen'(3-7)
  obtain ct where ct: "seal E (sw_kek st) nonce secret (at_rest_aad l) = Inr ct" "blob = b64_std_encode S (nonce @ ct)"
    using *(2) by (auto simp: seal_bytes_def result_simps)
  have stored: "read_stored S st' l = Inr stored"
    using *(4,5) assms(5,8) by (fastforce simp: read_stored_def sw_correct_def)
  have "open_sealed E (sw_kek st') nonce ct (at_rest_aad l) = Inr secret"
    using seal_open(1) [OF laws(1) ct(1)] *(6) by simp
  then have scalar: "open_scalar E S st' l stored = Inr secret"
    using laws(5) rnd *(3) ct(2)
    by (simp add: open_scalar_def open_bytes_def sw_correct_def secret_def nonce_def)
  obtain sig where sig: "sign_es256 E secret msg = Inr sig"
    using rnd(1) by (simp add: sign_es256_def secret_def)
  have "sw_sign E S st' l msg = Inr sig" using stored scalar sig assms(7) by (simp add: sw_sign_def)
  moreover have "verify_es256 E (km_public_key m) msg sig = Inr ()"
    using sign_verify(1) [OF laws(2,3) sig] *(1,7) by simp
  moreover have "sw_meta E S st' l = Inr m"
    using stored laws(4) *(3,7) by (simp add: sw_meta_def to_meta_def)
  moreover have "sw_generate E S st' l a' = (Inl key_exists, st')"
    using *(5) by (simp add: sw_generate_def file_exists_def)
  ultimately show ?thesis by blast
qed

text \<open>A concrete keystore with one possible key record.\<close>

definition demo_label :: KeyLabel where
  "demo_label = \<lparr> label_handle = ''hlin-ai'', label_purpose = Signing \<rparr>"

definition demo_store :: SoftwareKeystore where
  "demo_store = \<lparr> sw_files = [], sw_kek = replicate 32 2 \<rparr>"

definition demo_pk :: bytes where "demo_pk = p256_public demo_lib (replicate 32 7)"

definition demo_stored :: StoredKey where
  "demo_stored = \<lparr> sk_label = full demo_label, sk_purpose = ''signing'', sk_algorithm = ''ES256'', sk_tier = ''software'',
     sk_fingerprint = hex_encode demo_lib (sha256 demo_lib demo_pk), sk_public_key_b64url = b64_encode demo_lib demo_pk,
     sk_scalar_blob_b64 = of_utf8 (replicate 12 1 @ replicate 32 7 @
       demo_tag (replicate 32 2) (replicate 12 1) (at_rest_aad demo_label)) \<rparr>"

definition demo_sw :: sw_lib where
  "demo_sw = \<lparr> sw_fault = (\<lambda>_ _. False), sw_entropy = (\<lambda>_ i. if i = 0 then replicate 32 7 else replicate 12 1),
     stored_to_json = (\<lambda>k. if k = demo_stored then Some [] else None),
     stored_from_json = (\<lambda>t. if t = [] then Some demo_stored else None),
     b64_std_encode = of_utf8, b64_std_decode = (\<lambda>s. Some (utf8 s)),
     mldsa_public = (\<lambda>s. s), mldsa_sign = (\<lambda>s m c r. Some []), mlkem_public = (\<lambda>d z. []),
     mlkem_decap = (\<lambda>d z c. None) \<rparr>"

lemma demo_sw_correct: "sw_correct demo_sw"
proof -
  have "from_utf8 [] = Some []" by (simp add: from_utf8_def of_utf8_def)
  then show ?thesis by (simp add: sw_correct_def demo_sw_def)
qed

lemma demo_fresh_key:
  "fresh_key demo_lib demo_sw Signing (replicate 32 7) =
     Inr (replicate 32 7, demo_pk, hex_encode demo_lib (sha256 demo_lib demo_pk))"
  by (simp add: fingerprint_def demo_pk_def demo_lib_def sha256_def)

lemma demo_seal_bytes:
  "seal_bytes demo_lib demo_sw st l sec n = Inr (of_utf8 (n @ sec @ demo_tag (sw_kek st) n (at_rest_aad l)))"
proof -
  have "seal demo_lib k n sec a = Inr (sec @ demo_tag k n a)" for k a by (simp add: seal_def demo_lib_def)
  then show ?thesis by (simp add: seal_bytes_def demo_sw_def)
qed

lemma demo_generate:
  "\<exists>m st'. sw_generate demo_lib demo_sw demo_store demo_label ''ES256'' = (Inr m, st')"
proof -
  have label: "label_purpose demo_label = Signing" "file_exists demo_store (key_path demo_label) = False"
    by (simp_all add: demo_label_def demo_store_def file_exists_def)
  have rnd: "sw_entropy demo_sw s 0 = replicate 32 7" "sw_entropy demo_sw s 1 = replicate 12 1" for s
    by (simp_all add: demo_sw_def)
  have seal: "seal_bytes demo_lib demo_sw demo_store demo_label (replicate 32 7) (replicate 12 1) =
      Inr (sk_scalar_blob_b64 demo_stored)"
    unfolding demo_seal_bytes by (simp only: demo_stored_def demo_store_def StoredKey.simps SoftwareKeystore.simps)
  have json: "stored_to_json demo_sw \<lparr> sk_label = full demo_label, sk_purpose = purpose_as_str Signing,
      sk_algorithm = ''ES256'', sk_tier = tier_as_str Software,
      sk_fingerprint = hex_encode demo_lib (sha256 demo_lib demo_pk),
      sk_public_key_b64url = b64_encode demo_lib demo_pk, sk_scalar_blob_b64 = sk_scalar_blob_b64 demo_stored \<rparr> = Some []"
    by (simp add: demo_sw_def demo_stored_def)
  obtain st' where written: "write_secret_file demo_sw (key_path demo_label) [] demo_store = (Inr (), st')"
    by (simp add: write_secret_file_def demo_sw_def)
  show ?thesis
    unfolding sw_generate_def
    by (simp only: label if_False rnd demo_fresh_key rbind_simps prod.case seal Let_def json ok_or_simps sum.case written)
      blast
qed

theorem generated_key_signs_witness:
  "\<exists>m st' sig. sw_generate demo_lib demo_sw demo_store demo_label ''ES256'' = (Inr m, st') \<and>
     sw_sign demo_lib demo_sw st' demo_label [1, 2, 3] = Inr sig \<and>
     verify_es256 demo_lib (km_public_key m) [1, 2, 3] sig = Inr ()"
proof -
  obtain m st' where gen: "sw_generate demo_lib demo_sw demo_store demo_label ''ES256'' = (Inr m, st')"
    using demo_generate by blast
  have "\<exists>sig. sw_sign demo_lib demo_sw st' demo_label [1, 2, 3] = Inr sig \<and>
      verify_es256 demo_lib (km_public_key m) [1, 2, 3] sig = Inr () \<and> sw_meta demo_lib demo_sw st' demo_label = Inr m \<and>
      sw_generate demo_lib demo_sw st' demo_label [] = (Inl key_exists, st')"
    by (rule generated_key_signs [OF demo_lib_correct(2) demo_p256_correct demo_ecdsa_correct demo_lib_correct(5)
        demo_sw_correct gen]) (simp_all add: demo_label_def demo_sw_def demo_lib_def)
  with gen show ?thesis by blast
qed

end
