(* ===== verification/Channel_Auth.thy ===== *)
theory Channel_Auth
  imports Crypto_Base
begin

section \<open>The delegation channel: messages and their sealing\<close>

text \<open>
  \<^verbatim>\<open>channel/src/{error,wire,auth}.rs\<close>: the operations a container delegates to the host-signer, the
  sealed frames that carry them and the guard against replayed requests. The human-readable message of
  an operation error is not modelled. The JSON form of the messages comes from \<^verbatim>\<open>serde_json\<close>: the record
  \<open>wire_lib\<close> has one field for each function called. Where the source calls \<^verbatim>\<open>expect\<close>, the result is an
  option and \<open>None\<close> is the panic; the random frame nonce is an argument.
\<close>

subsection \<open>Messages\<close>

datatype ChannelError =
    Auth
  | Replay
  | MalformedFrame
  | Serialization
  | IoNotFound
  | IoOther
  | Timeout

type_synonym 'a channel_result = "ChannelError + 'a"

definition PROTOCOL_VERSION :: u16 where "PROTOCOL_VERSION = 1"

datatype Op =
    OpKeygen string string
  | OpSign string bytes
  | OpEcdh string bytes
  | OpMlKemDecapsulate string bytes
  | OpMlDsaSign string bytes bytes
  | OpMeta string
  | OpExists string
  | OpList
  | OpIdentity
  | OpDelete string

record KeyEntry =
  ke_label :: string
  ke_purpose :: string
  ke_algorithm :: string
  ke_fingerprint :: string
  ke_public_key :: bytes

datatype OpOk =
    OkKeygen bytes string string
  | OkSign bytes
  | OkEcdh bytes
  | OkMlKemDecapsulate bytes
  | OkMlDsaSign bytes
  | OkMeta bytes string string string
  | OkExists bool
  | OkList "KeyEntry list"
  | OkIdentity "string option"
  | OkDelete

record OpErr =
  err_code :: string

datatype Response = RespOk OpOk | RespErr OpErr

record wire_lib =
  op_to_vec :: "Op \<Rightarrow> bytes option"
  op_from_slice :: "bytes \<Rightarrow> Op option"
  resp_to_vec :: "Response \<Rightarrow> bytes option"
  resp_from_slice :: "bytes \<Rightarrow> Response option"

definition op_to_bytes :: "wire_lib \<Rightarrow> Op \<Rightarrow> bytes channel_result" where
  "op_to_bytes W op = ok_or Serialization (op_to_vec W op)"

definition op_from_bytes :: "wire_lib \<Rightarrow> bytes \<Rightarrow> Op channel_result" where
  "op_from_bytes W bs = ok_or Serialization (op_from_slice W bs)"

definition resp_to_bytes :: "wire_lib \<Rightarrow> Response \<Rightarrow> bytes channel_result" where
  "resp_to_bytes W r = ok_or Serialization (resp_to_vec W r)"

definition resp_from_bytes :: "wire_lib \<Rightarrow> bytes \<Rightarrow> Response channel_result" where
  "resp_from_bytes W bs = ok_or Serialization (resp_from_slice W bs)"

definition wire_correct :: "wire_lib \<Rightarrow> bool" where
  "wire_correct W \<longleftrightarrow>
     (\<forall>op b. op_to_vec W op = Some b \<longrightarrow> op_from_slice W b = Some op) \<and>
     (\<forall>r b. resp_to_vec W r = Some b \<longrightarrow> resp_from_slice W b = Some r)"

subsection \<open>Frames\<close>

definition SECRET_LEN :: nat where "SECRET_LEN = 32"
definition NONCE_LEN :: nat where "NONCE_LEN = 12"
definition REQUEST_KEY_INFO :: bytes where "REQUEST_KEY_INFO = utf8 ''signet-channel/v1/request-key''"
definition RESPONSE_KEY_INFO :: bytes where "RESPONSE_KEY_INFO = utf8 ''signet-channel/v1/response-key''"
definition DOMAIN_REQUEST :: bytes where "DOMAIN_REQUEST = utf8 ''signet-channel/v1/request''"
definition DOMAIN_RESPONSE :: bytes where "DOMAIN_RESPONSE = utf8 ''signet-channel/v1/response''"

type_synonym channel_secret = bytes
type_synonym nonce = bytes

definition frame_nonce :: "bytes \<Rightarrow> nonce channel_result" where
  "frame_nonce frame =
     (if length frame < NONCE_LEN then Inl MalformedFrame else Inr (take NONCE_LEN frame))"

definition derive_key :: "crypto_lib \<Rightarrow> channel_secret \<Rightarrow> bytes \<Rightarrow> bytes option" where
  "derive_key E secret info =
     (case hkdf_sha256 E secret [] info 32 of
        Inl _ \<Rightarrow> None
      | Inr okm \<Rightarrow> if length okm = 32 then Some okm else None)"

definition seal_with :: "crypto_lib \<Rightarrow> bytes \<Rightarrow> bytes \<Rightarrow> bytes \<Rightarrow> nonce \<Rightarrow> bytes option" where
  "seal_with E key aad body nonce =
     (case seal E key nonce body aad of Inl _ \<Rightarrow> None | Inr ct \<Rightarrow> Some (nonce @ ct))"

definition open_with :: "crypto_lib \<Rightarrow> bytes \<Rightarrow> bytes \<Rightarrow> bytes \<Rightarrow> bytes channel_result" where
  "open_with E key aad frame =
     (if length frame < NONCE_LEN then Inl MalformedFrame
      else map_err (\<lambda>_. Auth) (open_sealed E key (take NONCE_LEN frame) (drop NONCE_LEN frame) aad))"

definition push_lp :: "bytes \<Rightarrow> bytes \<Rightarrow> bytes" where
  "push_lp buf field = buf @ lp field"

definition request_aad :: "string \<Rightarrow> string \<Rightarrow> bytes" where
  "request_aad channel_id req_id =
     (let aad = push_lp [] DOMAIN_REQUEST;
          aad = aad @ be16 PROTOCOL_VERSION;
          aad = push_lp aad (utf8 channel_id)
      in push_lp aad (utf8 req_id))"

definition response_aad :: "string \<Rightarrow> string \<Rightarrow> nonce \<Rightarrow> bytes" where
  "response_aad channel_id req_id request_nonce =
     (let aad = push_lp [] DOMAIN_RESPONSE;
          aad = aad @ be16 PROTOCOL_VERSION;
          aad = push_lp aad (utf8 channel_id);
          aad = push_lp aad (utf8 req_id)
      in push_lp aad request_nonce)"

definition seal_request :: "crypto_lib \<Rightarrow> channel_secret \<Rightarrow> string \<Rightarrow> string \<Rightarrow> bytes \<Rightarrow> nonce \<Rightarrow> bytes option" where
  "seal_request E secret channel_id req_id body nonce =
     Option.bind (derive_key E secret REQUEST_KEY_INFO) (\<lambda>key.
     seal_with E key (request_aad channel_id req_id) body nonce)"

definition open_request ::
  "crypto_lib \<Rightarrow> channel_secret \<Rightarrow> string \<Rightarrow> string \<Rightarrow> bytes \<Rightarrow> bytes channel_result option" where
  "open_request E secret channel_id req_id frame =
     Option.bind (derive_key E secret REQUEST_KEY_INFO) (\<lambda>key.
     Some (open_with E key (request_aad channel_id req_id) frame))"

definition seal_response ::
  "crypto_lib \<Rightarrow> channel_secret \<Rightarrow> string \<Rightarrow> string \<Rightarrow> nonce \<Rightarrow> bytes \<Rightarrow> nonce \<Rightarrow> bytes option" where
  "seal_response E secret channel_id req_id request_nonce body nonce =
     Option.bind (derive_key E secret RESPONSE_KEY_INFO) (\<lambda>key.
     seal_with E key (response_aad channel_id req_id request_nonce) body nonce)"

definition open_response ::
  "crypto_lib \<Rightarrow> channel_secret \<Rightarrow> string \<Rightarrow> string \<Rightarrow> nonce \<Rightarrow> bytes \<Rightarrow> bytes channel_result option" where
  "open_response E secret channel_id req_id request_nonce frame =
     Option.bind (derive_key E secret RESPONSE_KEY_INFO) (\<lambda>key.
     Some (open_with E key (response_aad channel_id req_id request_nonce) frame))"

subsection \<open>The replay guard\<close>

record ReplayGuard =
  seen :: "nonce set"
  order :: "nonce list"
  capacity :: nat

definition replay_new :: "nat \<Rightarrow> ReplayGuard" where
  "replay_new cap = \<lparr> seen = {}, order = [], capacity = max cap 1 \<rparr>"

definition with_default_capacity :: ReplayGuard where
  "with_default_capacity = replay_new 4096"

definition check_and_record :: "ReplayGuard \<Rightarrow> nonce \<Rightarrow> unit channel_result \<times> ReplayGuard" where
  "check_and_record self nonce =
     (if nonce \<in> seen self then (Inl Replay, self)
      else
        let self = (if length (order self) \<ge> capacity self
                    then (case order self of
                            [] \<Rightarrow> self
                          | evicted # rest \<Rightarrow> self\<lparr> order := rest, seen := seen self - {evicted} \<rparr>)
                    else self);
            self = self\<lparr> seen := insert nonce (seen self) \<rparr>;
            self = self\<lparr> order := order self @ [nonce] \<rparr>
        in (Inr (), self))"

subsection \<open>Frames open to what was sealed\<close>

definition gcm_total :: "crypto_lib \<Rightarrow> bool" where
  "gcm_total E \<longleftrightarrow> (\<forall>k n m a. length k = 32 \<and> length n = 12 \<and> length m < 2 ^ 36 \<longrightarrow> gcm_encrypt E k n m a \<noteq> None)"

definition hkdf_total :: "crypto_lib \<Rightarrow> bool" where
  "hkdf_total E \<longleftrightarrow> (\<forall>ikm salt info n. n \<le> 255 * 32 \<longrightarrow> hkdf_expand E ikm salt info n \<noteq> None)"

definition channel_crypto :: "crypto_lib \<Rightarrow> bool" where
  "channel_crypto E \<longleftrightarrow> gcm_correct E \<and> gcm_total E \<and> hkdf_total E \<and> hkdf_sized E"

lemma gcm_totalD: "gcm_total E \<Longrightarrow> length k = 32 \<Longrightarrow> length n = 12 \<Longrightarrow> length m < 2 ^ 36 \<Longrightarrow> gcm_encrypt E k n m a \<noteq> None"
  unfolding gcm_total_def by blast

lemma hkdf_totalD: "hkdf_total E \<Longrightarrow> n \<le> 255 * 32 \<Longrightarrow> hkdf_expand E ikm salt info n \<noteq> None"
  unfolding hkdf_total_def by blast

lemma derive_key_total: "channel_crypto E \<Longrightarrow> \<exists>k. derive_key E secret info = Some k \<and> length k = 32"
proof -
  assume E: "channel_crypto E"
  then obtain okm where okm: "hkdf_expand E secret [] info 32 = Some okm"
    using hkdf_totalD [of E 32 secret "[]" info] by (auto simp: channel_crypto_def)
  moreover have "length okm = 32" using E okm by (auto simp: channel_crypto_def hkdf_sized_def)
  ultimately show ?thesis by (simp add: derive_key_def hkdf_sha256_def)
qed

lemma seal_with_opens:
  assumes E: "channel_crypto E" and k: "length k = 32" and n: "length n = 12" and b: "length body < 2 ^ 36"
  shows "\<exists>f. seal_with E k aad body n = Some f \<and> frame_nonce f = Inr n \<and> open_with E k aad f = Inr body"
proof -
  obtain c where c: "gcm_encrypt E k n body aad = Some c"
    using gcm_totalD [OF _ k n b, of E aad] E by (auto simp: channel_crypto_def)
  then have "seal E k n body aad = Inr c" by (simp add: seal_def)
  moreover have "open_sealed E k n c aad = Inr body"
    using E c by (auto simp: channel_crypto_def gcm_correct_def open_sealed_def)
  ultimately show ?thesis using n by (simp add: seal_with_def open_with_def frame_nonce_def NONCE_LEN_def)
qed

lemma request_roundtrip:
  assumes "channel_crypto E" "length n = 12" "length body < 2 ^ 36"
  shows "\<exists>f. seal_request E secret cid rid body n = Some f \<and> frame_nonce f = Inr n \<and>
    open_request E secret cid rid f = Some (Inr body)"
proof -
  obtain k where k: "derive_key E secret REQUEST_KEY_INFO = Some k" "length k = 32"
    using derive_key_total [OF assms(1)] by blast
  from seal_with_opens [OF assms(1) k(2) assms(2,3)] k(1) show ?thesis
    by (simp add: seal_request_def open_request_def)
qed

lemma response_roundtrip:
  assumes "channel_crypto E" "length n = 12" "length body < 2 ^ 36"
  shows "\<exists>f. seal_response E secret cid rid rn body n = Some f \<and>
    open_response E secret cid rid rn f = Some (Inr body)"
proof -
  obtain k where k: "derive_key E secret RESPONSE_KEY_INFO = Some k" "length k = 32"
    using derive_key_total [OF assms(1)] by blast
  from seal_with_opens [OF assms(1) k(2) assms(2,3)] k(1) show ?thesis
    by (auto simp: seal_response_def open_response_def)
qed

lemma open_request_total: "channel_crypto E \<Longrightarrow> \<exists>r. open_request E secret cid rid f = Some r"
  using derive_key_total [of E secret REQUEST_KEY_INFO] by (auto simp: open_request_def)

lemma demo_channel_crypto: "channel_crypto demo_lib"
  using demo_lib_correct by (simp add: channel_crypto_def gcm_total_def hkdf_total_def demo_lib_def)

subsection \<open>What a frame is bound to\<close>

lemma domains_ok: "lp_ok DOMAIN_REQUEST" "lp_ok DOMAIN_RESPONSE" "DOMAIN_REQUEST \<noteq> DOMAIN_RESPONSE"
  by (simp_all add: DOMAIN_REQUEST_def DOMAIN_RESPONSE_def utf8_def)



subsection \<open>The guard remembers a window\<close>

text \<open>
  The contract of a replay filter: it refuses a nonce exactly when it is among the recent ones, and a
  nonce it accepts becomes the most recent. \<open>recent\<close> lists them newest first.
\<close>

locale replay_filter =
  fixes check :: "'g \<Rightarrow> nonce \<Rightarrow> unit channel_result \<times> 'g" and recent :: "'g \<Rightarrow> nonce list"
    and good :: "'g \<Rightarrow> bool" and cap :: "'g \<Rightarrow> nat"
  assumes refuses: "good g \<Longrightarrow> n \<in> set (recent g) \<Longrightarrow> check g n = (Inl Replay, g)"
    and accepts: "good g \<Longrightarrow> n \<notin> set (recent g) \<Longrightarrow>
      fst (check g n) = Inr () \<and> recent (snd (check g n)) = take (cap g) (n # recent g)"
    and keeps: "good g \<Longrightarrow> good (snd (check g n)) \<and> cap (snd (check g n)) = cap g"
begin

definition after :: "'g \<Rightarrow> nonce list \<Rightarrow> 'g" where
  "after g ns = foldl (\<lambda>g n. snd (check g n)) g ns"

lemma after_good: "good g \<Longrightarrow> good (after g ns) \<and> cap (after g ns) = cap g"
proof (induction ns arbitrary: g)
  case (Cons m ns)
  with keeps [OF Cons.prems, of m] show ?case by (auto simp: after_def)
qed (simp add: after_def)

lemma remembered:
  assumes "good g" "n \<notin> set (recent g)" "length ns < cap g"
  shows "\<exists>i \<le> length ns. i < length (recent (after (snd (check g n)) ns)) \<and> recent (after (snd (check g n)) ns) ! i = n"
  using assms(3)
proof (induction ns rule: rev_induct)
  case Nil
  with accepts [OF assms(1,2)] show ?case by (auto simp: after_def take_Cons')
next
  case (snoc m ns)
  let ?g = "after (snd (check g n)) ns"
  have g: "good ?g" "cap ?g = cap g"
    using after_good [of "snd (check g n)"] keeps [OF assms(1), of n] by simp_all
  have step: "after (snd (check g n)) (ns @ [m]) = snd (check ?g m)" by (simp add: after_def)
  from snoc obtain i where i: "i \<le> length ns" "i < length (recent ?g)" "recent ?g ! i = n" by auto
  show ?case
  proof (cases "m \<in> set (recent ?g)")
    case True
    with refuses [OF g(1)] i step show ?thesis by (metis le_SucI length_append_singleton snd_conv)
  next
    case False
    with accepts [OF g(1)] step g(2) have "recent (after (snd (check g n)) (ns @ [m])) = take (cap g) (m # recent ?g)"
      by simp
    moreover have "Suc i < cap g" using i(1) snoc(2) by simp
    ultimately show ?thesis using i by (intro exI [of _ "Suc i"]) simp
  qed
qed

lemma refused_within_window:
  assumes "good g" "n \<notin> set (recent g)" "length ns < cap g"
  shows "fst (check (after (snd (check g n)) ns) n) = Inl Replay"
proof -
  let ?g = "after (snd (check g n)) ns"
  have "n \<in> set (recent ?g)" using remembered [OF assms] nth_mem by metis
  moreover have "good ?g" using after_good keeps [OF assms(1)] by blast
  ultimately show ?thesis using refuses by fastforce
qed

end

definition guard_ok :: "ReplayGuard \<Rightarrow> bool" where
  "guard_ok g \<longleftrightarrow> seen g = set (order g) \<and> distinct (order g) \<and> length (order g) \<le> capacity g \<and> 1 \<le> capacity g"

lemma replay_new_ok: "guard_ok (replay_new c)"
  by (simp add: guard_ok_def replay_new_def)

lemma check_and_record_accepts:
  assumes "guard_ok g" "n \<notin> set (order g)"
  shows "fst (check_and_record g n) = Inr ()" "capacity (snd (check_and_record g n)) = capacity g"
    "order (snd (check_and_record g n)) = drop (Suc (length (order g)) - capacity g) (order g) @ [n]"
    "seen (snd (check_and_record g n)) = set (order (snd (check_and_record g n)))"
  using assms
  by (cases "order g"; simp add: check_and_record_def guard_ok_def Let_def Suc_diff_le; auto)+

lemma take_rev_last: "length xs \<le> Suc k \<Longrightarrow> take (length xs - (length xs - k)) (rev xs) = take k (rev xs)"
  by (cases "length xs = Suc k") auto

interpretation replay_window: replay_filter check_and_record "\<lambda>g. rev (order g)" guard_ok capacity
proof
  fix g n
  assume g: "guard_ok g"
  show "n \<in> set (rev (order g)) \<Longrightarrow> check_and_record g n = (Inl Replay, g)"
    using g by (simp add: check_and_record_def guard_ok_def)
  show "fst (check_and_record g n) = Inr () \<and>
      rev (order (snd (check_and_record g n))) = take (capacity g) (n # rev (order g))" if "n \<notin> set (rev (order g))"
    using that check_and_record_accepts [OF g, of n] g
    by (cases "capacity g") (auto simp: guard_ok_def rev_drop take_Cons' take_rev_last)
  show "guard_ok (snd (check_and_record g n)) \<and> capacity (snd (check_and_record g n)) = capacity g"
  proof (cases "n \<in> set (order g)")
    case True
    with g show ?thesis by (simp add: check_and_record_def guard_ok_def)
  next
    case False
    with check_and_record_accepts [OF g False] g show ?thesis
      by (auto simp: guard_ok_def dest: in_set_dropD)
  qed
qed

text \<open>
  C16: a request nonce that was accepted is refused as a replay until as many further nonces as the window
  holds have been presented, whatever those are, from any guard the code can construct; and the memory of
  the guard never exceeds its window.
\<close>
theorem replay_refused_within_window:
  assumes "g = foldl (\<lambda>g m. snd (check_and_record g m)) (replay_new c) old" "fst (check_and_record g n) = Inr ()"
    and "length ns < max c 1"
  shows "fst (check_and_record (foldl (\<lambda>g m. snd (check_and_record g m)) (snd (check_and_record g n)) ns) n) = Inl Replay \<and>
    length (order g) \<le> max c 1"
proof -
  have g: "guard_ok g" "capacity g = max c 1"
    using replay_window.after_good [OF replay_new_ok, of c old]
    by (simp_all add: assms(1) replay_window.after_def replay_new_def)
  moreover have "n \<notin> set (rev (order g))"
    using assms(2) g(1) by (auto simp: check_and_record_def guard_ok_def)
  ultimately show ?thesis
    using replay_window.refused_within_window [OF g(1), of n ns] assms(3)
    by (simp add: replay_window.after_def guard_ok_def)
qed

theorem replay_refused_within_window_witness:
  "fst (check_and_record (foldl (\<lambda>g m. snd (check_and_record g m)) (snd (check_and_record (replay_new 2) [1])) [[2]]) [1]) =
     Inl Replay"
  by (rule conjunct1 [OF replay_refused_within_window [of _ 2 "[]"]])
    (simp_all add: check_and_record_def replay_new_def)

end
