(* ===== verification/Channel_Transport.thy ===== *)
theory Channel_Transport
  imports Channel_Auth
begin

section \<open>The delegation channel: transport\<close>

text \<open>
  \<^verbatim>\<open>channel/src/transport.rs\<close>: request and response files in a shared folder. A folder is the list of its
  files (name and content) in the order a directory scan returns them, \<open>None\<close> when it does not exist.
  \<open>write_atomic\<close> replaces the whole file in one step, as the rename does; the record \<open>io\<close> says for which
  names reading, writing and removing fail. The handler is a function on its own state. The client's
  waiting loop reads the folder repeatedly while others write it: what each read finds and the time that
  has passed are the argument \<open>obs\<close>, and fuel bounds the number of reads.
\<close>

type_synonym folder = "(string \<times> bytes) list"

record io =
  read_fails :: "string \<Rightarrow> bool"
  write_fails :: "string \<Rightarrow> bool"
  remove_fails :: "string \<Rightarrow> bool"

definition put_file :: "string \<Rightarrow> bytes \<Rightarrow> folder \<Rightarrow> folder" where
  "put_file name bs d = filter (\<lambda>(n, _). n \<noteq> name) d @ [(name, bs)]"

definition del_file :: "string \<Rightarrow> folder \<Rightarrow> folder" where
  "del_file name d = filter (\<lambda>(n, _). n \<noteq> name) d"

definition write_atomic :: "io \<Rightarrow> string \<Rightarrow> bytes \<Rightarrow> folder \<Rightarrow> unit channel_result \<times> folder" where
  "write_atomic io name bs d = (if write_fails io name then (Inl IoOther, d) else (Inr (), put_file name bs d))"

definition remove_file :: "io \<Rightarrow> string \<Rightarrow> folder \<Rightarrow> folder" where
  "remove_file io name d = (if remove_fails io name then d else del_file name d)"

definition read_file :: "io \<Rightarrow> string \<Rightarrow> folder \<Rightarrow> bytes option" where
  "read_file io name d = (if read_fails io name then None else map_of d name)"

definition req_path :: "string \<Rightarrow> string" where "req_path req_id = req_id @ ''.req''"
definition resp_path :: "string \<Rightarrow> string" where "resp_path req_id = req_id @ ''.resp''"

subsection \<open>The client\<close>

record Pending =
  p_req_id :: string
  p_req_nonce :: nonce

record ChannelClient =
  cc_channel_id :: string
  cc_secret :: channel_secret

definition new_req_id :: "crypto_lib \<Rightarrow> bytes \<Rightarrow> string" where
  "new_req_id E raw = b64_encode E raw"

definition send ::
  "crypto_lib \<Rightarrow> wire_lib \<Rightarrow> io \<Rightarrow> ChannelClient \<Rightarrow> Op \<Rightarrow> bytes \<Rightarrow> nonce \<Rightarrow> folder \<Rightarrow>
   (Pending channel_result \<times> folder) option" where
  "send E W io self op raw nonce d =
     (let req_id = new_req_id E raw in
      case op_to_bytes W op of
        Inl e \<Rightarrow> Some (Inl e, d)
      | Inr body \<Rightarrow>
          (case seal_request E (cc_secret self) (cc_channel_id self) req_id body nonce of
             None \<Rightarrow> None
           | Some frame \<Rightarrow>
               (case frame_nonce frame of
                  Inl e \<Rightarrow> Some (Inl e, d)
                | Inr req_nonce \<Rightarrow>
                    (case write_atomic io (req_path req_id) frame d of
                       (Inl e, d) \<Rightarrow> Some (Inl e, d)
                     | (Inr _, d) \<Rightarrow> Some (Inr \<lparr> p_req_id = req_id, p_req_nonce = req_nonce \<rparr>, d)))))"

definition cleanup :: "io \<Rightarrow> string \<Rightarrow> folder \<Rightarrow> folder" where
  "cleanup io req_id d = remove_file io (req_path req_id) (remove_file io (resp_path req_id) d)"

datatype read_outcome = ReadOk bytes | ReadNotFound | ReadFailed

text \<open>
  One turn of the waiting loop. \<open>Inr None\<close> is: wait and read again; the flag says whether the client
  removed its files.
\<close>

definition await_step ::
  "crypto_lib \<Rightarrow> wire_lib \<Rightarrow> ChannelClient \<Rightarrow> Pending \<Rightarrow> nat \<Rightarrow> read_outcome \<Rightarrow> nat \<Rightarrow>
   (Response option channel_result \<times> bool) option" where
  "await_step E W self pending timeout read elapsed =
     (let late = (if elapsed > timeout then (Inl Timeout, True) else (Inr None, False)) in
      case read of
        ReadOk frame \<Rightarrow>
          (case open_response E (cc_secret self) (cc_channel_id self) (p_req_id pending) (p_req_nonce pending) frame of
             None \<Rightarrow> None
           | Some (Inl _) \<Rightarrow> Some late
           | Some (Inr body) \<Rightarrow>
               (case resp_from_bytes W body of
                  Inl e \<Rightarrow> Some (Inl e, False)
                | Inr resp \<Rightarrow> Some (Inr (Some resp), True)))
      | ReadNotFound \<Rightarrow> Some late
      | ReadFailed \<Rightarrow> Some (Inl IoOther, False))"

fun await_response ::
  "nat \<Rightarrow> crypto_lib \<Rightarrow> wire_lib \<Rightarrow> ChannelClient \<Rightarrow> Pending \<Rightarrow> nat \<Rightarrow> (nat \<Rightarrow> read_outcome \<times> nat) \<Rightarrow>
   (Response channel_result \<times> bool) option" where
  "await_response 0 E W self pending timeout obs = None"
| "await_response (Suc fuel) E W self pending timeout obs =
     (case await_step E W self pending timeout (fst (obs 0)) (snd (obs 0)) of
        None \<Rightarrow> None
      | Some (Inl e, cl) \<Rightarrow> Some (Inl e, cl)
      | Some (Inr (Some r), cl) \<Rightarrow> Some (Inr r, cl)
      | Some (Inr None, _) \<Rightarrow> await_response fuel E W self pending timeout (\<lambda>i. obs (Suc i)))"

subsection \<open>The server\<close>

record ChannelServer =
  cs_channel_id :: string
  cs_secret :: channel_secret
  cs_replay :: ReplayGuard

definition server_new :: "string \<Rightarrow> channel_secret \<Rightarrow> ChannelServer" where
  "server_new channel_id secret =
     \<lparr> cs_channel_id = channel_id, cs_secret = secret, cs_replay = with_default_capacity \<rparr>"

definition process ::
  "crypto_lib \<Rightarrow> wire_lib \<Rightarrow> ('h \<Rightarrow> Op \<Rightarrow> Response \<times> 'h) \<Rightarrow> ChannelServer \<Rightarrow> 'h \<Rightarrow> string \<Rightarrow> bytes \<Rightarrow> nonce \<Rightarrow>
   (bytes channel_result \<times> ChannelServer \<times> 'h) option" where
  "process E W handler self h req_id frame nonce =
     (case frame_nonce frame of
        Inl e \<Rightarrow> Some (Inl e, self, h)
      | Inr req_nonce \<Rightarrow>
     (case open_request E (cs_secret self) (cs_channel_id self) req_id frame of
        None \<Rightarrow> None
      | Some (Inl e) \<Rightarrow> Some (Inl e, self, h)
      | Some (Inr body) \<Rightarrow>
     (let (checked, g) = check_and_record (cs_replay self) req_nonce;
          self = self\<lparr> cs_replay := g \<rparr>
      in case checked of
        Inl e \<Rightarrow> Some (Inl e, self, h)
      | Inr _ \<Rightarrow>
     (case op_from_bytes W body of
        Inl e \<Rightarrow> Some (Inl e, self, h)
      | Inr op \<Rightarrow>
     (let (response, h) = handler h op
      in case resp_to_bytes W response of
        Inl e \<Rightarrow> Some (Inl e, self, h)
      | Inr resp_body \<Rightarrow>
     (case seal_response E (cs_secret self) (cs_channel_id self) req_id req_nonce resp_body nonce of
        None \<Rightarrow> None
      | Some f \<Rightarrow> Some (Inr f, self, h)))))))"

fun poll_files ::
  "crypto_lib \<Rightarrow> wire_lib \<Rightarrow> io \<Rightarrow> ('h \<Rightarrow> Op \<Rightarrow> Response \<times> 'h) \<Rightarrow> (string \<Rightarrow> nonce) \<Rightarrow>
   string list \<Rightarrow> nat \<Rightarrow> ChannelServer \<Rightarrow> 'h \<Rightarrow> folder \<Rightarrow> (nat \<times> ChannelServer \<times> 'h \<times> folder) option" where
  "poll_files E W io handler fresh [] answered self h d = Some (answered, self, h, d)"
| "poll_files E W io handler fresh (name # requests) answered self h d =
     (case read_file io name d of
        None \<Rightarrow> poll_files E W io handler fresh requests answered self h d
      | Some frame \<Rightarrow>
          (case process E W handler self h (file_stem name) frame (fresh name) of
             None \<Rightarrow> None
           | Some (Inl _, self, h) \<Rightarrow>
               poll_files E W io handler fresh requests answered self h (remove_file io name d)
           | Some (Inr resp_frame, self, h) \<Rightarrow>
               poll_files E W io handler fresh requests (Suc answered) self h
                 (remove_file io name (snd (write_atomic io (resp_path (file_stem name)) resp_frame d)))))"

definition poll_once ::
  "crypto_lib \<Rightarrow> wire_lib \<Rightarrow> io \<Rightarrow> ('h \<Rightarrow> Op \<Rightarrow> Response \<times> 'h) \<Rightarrow> (string \<Rightarrow> nonce) \<Rightarrow>
   ChannelServer \<Rightarrow> 'h \<Rightarrow> folder option \<Rightarrow> (nat channel_result \<times> ChannelServer \<times> 'h \<times> folder option) option" where
  "poll_once E W io handler fresh self h dir =
     (case dir of
        None \<Rightarrow> Some (Inl IoNotFound, self, h, None)
      | Some d \<Rightarrow>
          (let requests = filter (\<lambda>name. path_extension name = Some ''req'') (map fst d)
           in case poll_files E W io handler fresh requests 0 self h d of
                None \<Rightarrow> None
              | Some (answered, self, h, d) \<Rightarrow> Some (Inr answered, self, h, Some d)))"

definition idle_backoff :: "nat \<Rightarrow> nat" where
  "idle_backoff idle_rounds = min (2 ^ min idle_rounds 6) 50"

subsection \<open>File names\<close>

lemma req_name: "r \<noteq> [] \<Longrightarrow> path_extension (req_path r) = Some ''req'' \<and> file_stem (req_path r) = r"
  using file_split_dot [of r "''req''"] by (simp add: path_extension_def file_stem_def req_path_def)

lemma file_split_stem: "file_split name = (s, Some e) \<Longrightarrow> s \<noteq> []"
  by (auto simp: file_split_def Let_def split: list.splits if_splits)

lemma resp_not_req:
  assumes "path_extension name = Some ''req''"
  shows "path_extension (resp_path (file_stem name)) = Some ''resp''"
proof -
  obtain s where "file_split name = (s, Some ''req'')"
    using assms by (cases "file_split name") (simp add: path_extension_def)
  then have "file_stem name \<noteq> []" using file_split_stem by (simp add: file_stem_def)
  then show ?thesis
    using file_split_dot [of "file_stem name" "''resp''"] by (simp add: path_extension_def resp_path_def)
qed

subsection \<open>Only authentic, fresh requests are executed\<close>

lemma process_cases:
  assumes "process E W handler self h rid frame n = Some (r, self', h')"
  shows "(\<exists>e. r = Inl e) \<and> self' = self \<and> h' = h \<or>
    (\<exists>nonce body. frame_nonce frame = Inr nonce \<and>
       open_request E (cs_secret self) (cs_channel_id self) rid frame = Some (Inr body) \<and>
       self' = self\<lparr> cs_replay := snd (check_and_record (cs_replay self) nonce) \<rparr> \<and>
       ((\<exists>e. r = Inl e) \<and> h' = h \<or>
        fst (check_and_record (cs_replay self) nonce) = Inr () \<and>
        (\<exists>op. op_from_bytes W body = Inr op \<and> h' = snd (handler h op))))"
proof (cases "frame_nonce frame")
  case (Inr nonce)
  obtain o1 g where g: "check_and_record (cs_replay self) nonce = (o1, g)" by fastforce
  from assms Inr g show ?thesis
    by (cases o1) (auto simp: process_def Let_def split: sum.splits option.splits prod.splits)
next
  case (Inl e)
  then have "r = Inl e \<and> self' = self \<and> h' = h" using assms by (auto simp: process_def)
  then show ?thesis by blast
qed

text \<open>
  C13: the handler runs only on a frame that opens under this channel's secret, channel id and request id,
  whose nonce the guard has not seen, and it runs on exactly the operation that was sealed; the nonce is
  recorded before it runs, so the same frame is refused afterwards. A frame that does not authenticate
  leaves the guard untouched.
\<close>
theorem only_authentic_requests_run:
  assumes "process E W handler self h rid frame n = Some (r, self', h')" "guard_ok (cs_replay self)"
  shows "(h' = h \<and> (\<exists>e. r = Inl e) \<or>
      (\<exists>nonce body op. frame_nonce frame = Inr nonce \<and>
         open_request E (cs_secret self) (cs_channel_id self) rid frame = Some (Inr body) \<and>
         nonce \<notin> seen (cs_replay self) \<and> nonce \<in> seen (cs_replay self') \<and>
         op_from_bytes W body = Inr op \<and> h' = snd (handler h op))) \<and>
    (cs_replay self' = cs_replay self \<or>
       (\<exists>body. open_request E (cs_secret self) (cs_channel_id self) rid frame = Some (Inr body)))"
proof -
  have "nonce \<notin> seen (cs_replay self) \<and> nonce \<in> seen (snd (check_and_record (cs_replay self) nonce))"
    if "fst (check_and_record (cs_replay self) nonce) = Inr ()" for nonce
  proof -
    have fresh: "nonce \<notin> seen (cs_replay self)" using that by (auto simp: check_and_record_def)
    with assms(2) have "nonce \<notin> set (order (cs_replay self))" by (simp add: guard_ok_def)
    from check_and_record_accepts(3,4) [OF assms(2) this] fresh show ?thesis by simp
  qed
  with process_cases [OF assms(1)] show ?thesis by auto
qed

subsection \<open>The waiting loop ends\<close>

lemma open_response_total: "channel_crypto E \<Longrightarrow> \<exists>r. open_response E secret cid rid rn f = Some r"
  using derive_key_total [of E secret RESPONSE_KEY_INFO] by (auto simp: open_response_def)

lemma await_step_total:
  assumes "channel_crypto E"
  shows "\<exists>r cl. await_step E W self pending timeout read elapsed = Some (r, cl) \<and>
    (r = Inr None \<longrightarrow> elapsed \<le> timeout)"
proof (cases read)
  case (ReadOk frame)
  obtain r where "open_response E (cc_secret self) (cc_channel_id self) (p_req_id pending) (p_req_nonce pending) frame = Some r"
    using open_response_total [OF assms] by blast
  with ReadOk show ?thesis by (auto simp: await_step_def Let_def split: sum.split)
qed (auto simp: await_step_def Let_def)

text \<open>
  the client's waiting loop ends: whatever the folder shows, it returns at the latest at the first
  read after the timeout has passed, with a response or an error.
\<close>
theorem await_response_returns:
  assumes "channel_crypto E" "timeout < snd (obs k)" "k < fuel"
  shows "\<exists>r cl. await_response fuel E W self pending timeout obs = Some (r, cl)"
  using assms(2,3)
proof (induction fuel arbitrary: k obs)
  case (Suc fuel)
  obtain r cl where step: "await_step E W self pending timeout (fst (obs 0)) (snd (obs 0)) = Some (r, cl)"
    "r = Inr None \<longrightarrow> snd (obs 0) \<le> timeout"
    using await_step_total [OF assms(1)] by blast
  show ?case
  proof (cases "r = Inr None")
    case True
    with step(2) Suc.prems(1) have "k \<noteq> 0" by (cases k) auto
    with Suc.IH [of "\<lambda>i. obs (Suc i)" "k - 1"] Suc.prems True step(1) show ?thesis by simp
  next
    case False
    with step(1) show ?thesis by (auto split: sum.split option.split)
  qed
qed simp

subsection \<open>Round trip\<close>

definition no_faults :: io where
  "no_faults = \<lparr> read_fails = (\<lambda>_. False), write_fails = (\<lambda>_. False), remove_fails = (\<lambda>_. False) \<rparr>"

lemma process_answers:
  assumes E: "channel_crypto E" and "wire_correct W"
    and frame: "frame_nonce frame = Inr nonce" "open_request E (cs_secret self) (cs_channel_id self) rid frame = Some (Inr body)"
    and op: "op_to_vec W op = Some body" and resp: "resp_to_vec W (fst (handler h op)) = Some rb"
    and "length rb < 2 ^ 36" "length n = 12" "nonce \<notin> seen (cs_replay self)"
  shows "\<exists>f self'. process E W handler self h rid frame n = Some (Inr f, self', snd (handler h op)) \<and>
    open_response E (cs_secret self) (cs_channel_id self) rid nonce f = Some (Inr rb)"
proof -
  obtain f where f: "seal_response E (cs_secret self) (cs_channel_id self) rid nonce rb n = Some f"
    "open_response E (cs_secret self) (cs_channel_id self) rid nonce f = Some (Inr rb)"
    using response_roundtrip [OF E assms(8,7)] by blast
  have "op_from_bytes W body = Inr op" using assms(2) op by (simp add: op_from_bytes_def wire_correct_def)
  moreover have "fst (check_and_record (cs_replay self) nonce) = Inr ()"
    using assms(9) by (simp add: check_and_record_def Let_def)
  ultimately show ?thesis using frame resp f
    by (cases "check_and_record (cs_replay self) nonce"; cases "handler h op") (simp add: process_def resp_to_bytes_def)
qed

text \<open>
  an operation sent over the channel is executed once by the handler and its answer comes back. If the
  two sides share the channel id and the secret and the nonce is fresh, then after one send and one poll
  the handler has run on exactly that operation, one request is reported answered, and the response file
  opens, on the client's first read, to exactly the handler's response.
\<close>
theorem delegation_roundtrip:
  assumes "channel_crypto E" "wire_correct W"
    and send: "send E W no_faults cl op raw nonce [] = Some (Inr pending, d)"
    and same: "cc_channel_id cl = cs_channel_id sv" "cc_secret cl = cs_secret sv"
    and "b64_encode E raw \<noteq> []" "length nonce = 12" "nonce \<notin> seen (cs_replay sv)" "\<forall>s. length (fresh s) = 12"
    and body: "op_to_vec W op = Some body" "length body < 2 ^ 36"
    and resp: "resp_to_vec W (fst (handler h op)) = Some rb" "length rb < 2 ^ 36"
  shows "\<exists>sv' d' f. poll_once E W no_faults handler fresh sv h (Some d) = Some (Inr 1, sv', snd (handler h op), Some d') \<and>
    map_of d' (resp_path (p_req_id pending)) = Some f \<and>
    await_response 1 E W cl pending timeout (\<lambda>_. (ReadOk f, elapsed)) = Some (Inr (fst (handler h op)), True)"
proof -
  define rid where "rid = b64_encode E raw"
  obtain frame where frame: "seal_request E (cs_secret sv) (cs_channel_id sv) rid body nonce = Some frame"
    "frame_nonce frame = Inr nonce" "open_request E (cs_secret sv) (cs_channel_id sv) rid frame = Some (Inr body)"
    using request_roundtrip [OF assms(1,7) body(2)] by blast
  have sent: "pending = \<lparr> p_req_id = rid, p_req_nonce = nonce \<rparr>" "d = [(req_path rid, frame)]"
    using send frame(1,2) body(1)
    by (simp_all add: send_def new_req_id_def op_to_bytes_def same rid_def [symmetric] write_atomic_def no_faults_def
        put_file_def)
  obtain f sv' where f: "process E W handler sv h rid frame (fresh (req_path rid)) = Some (Inr f, sv', snd (handler h op))"
    "open_response E (cs_secret sv) (cs_channel_id sv) rid nonce f = Some (Inr rb)"
    using process_answers [where n = "fresh (req_path rid)" and handler = handler and h = h, OF assms(1,2) frame(2,3) body(1) resp(1,2) _ assms(8)] assms(9)
    by blast
  have name: "path_extension (req_path rid) = Some ''req''" "file_stem (req_path rid) = rid"
    using req_name assms(6) by (simp_all add: rid_def)
  have neq: "resp_path rid \<noteq> req_path rid" by (simp add: resp_path_def req_path_def)
  have "poll_once E W no_faults handler fresh sv h (Some d) =
      Some (Inr 1, sv', snd (handler h op), Some [(resp_path rid, f)])"
    using f(1) name neq
    by (simp add: poll_once_def sent(2) read_file_def write_atomic_def remove_file_def no_faults_def put_file_def
        del_file_def)
  moreover have "await_response 1 E W cl pending timeout (\<lambda>_. (ReadOk f, elapsed)) = Some (Inr (fst (handler h op)), True)"
    using f(2) assms(2) resp(1)
    by (simp add: await_step_def sent(1) same resp_from_bytes_def wire_correct_def)
  ultimately show ?thesis by (simp add: sent(1))
qed

text \<open>A concrete channel: one operation and one answer, on the concrete library.\<close>

definition demo_wire :: wire_lib where
  "demo_wire = \<lparr> op_to_vec = (\<lambda>op. if op = OpList then Some [1] else None),
     op_from_slice = (\<lambda>b. if b = [1] then Some OpList else None),
     resp_to_vec = (\<lambda>r. if r = RespOk (OkList []) then Some [2] else None),
     resp_from_slice = (\<lambda>b. if b = [2] then Some (RespOk (OkList [])) else None) \<rparr>"

definition demo_handler :: "nat \<Rightarrow> Op \<Rightarrow> Response \<times> nat" where
  "demo_handler h op = (RespOk (OkList []), Suc h)"

definition demo_client :: ChannelClient where
  "demo_client = \<lparr> cc_channel_id = ''ch'', cc_secret = replicate 32 5 \<rparr>"

definition demo_server :: ChannelServer where
  "demo_server = server_new ''ch'' (replicate 32 5)"

lemma demo_wire_correct: "wire_correct demo_wire"
  by (simp add: wire_correct_def demo_wire_def)

lemma demo_send:
  obtains pending d where "send demo_lib demo_wire no_faults demo_client OpList [7] (replicate 12 9) [] = Some (Inr pending, d)"
proof -
  obtain f where "seal_request demo_lib (replicate 32 5) ''ch'' (b64_encode demo_lib [7]) [1] (replicate 12 9) = Some f"
    "frame_nonce f = Inr (replicate 12 9)"
    using request_roundtrip [OF demo_channel_crypto, of "replicate 12 9" "[1]" "replicate 32 5" "''ch''" "b64_encode demo_lib [7]"]
    by auto
  with that show thesis
    by (simp add: send_def Let_def demo_wire_def demo_client_def new_req_id_def op_to_bytes_def write_atomic_def no_faults_def)
qed

theorem delegation_roundtrip_witness:
  "\<exists>pending d sv' d' f.
     poll_once demo_lib demo_wire no_faults demo_handler (\<lambda>_. replicate 12 4) demo_server 0 (Some d) =
       Some (Inr 1, sv', 1, Some d') \<and>
     map_of d' (resp_path (p_req_id pending)) = Some f \<and>
     await_response 1 demo_lib demo_wire demo_client pending 30 (\<lambda>_. (ReadOk f, 0)) = Some (Inr (RespOk (OkList [])), True)"
proof -
  obtain pending d where send: "send demo_lib demo_wire no_faults demo_client OpList [7] (replicate 12 9) [] = Some (Inr pending, d)"
    by (rule demo_send)
  have "\<exists>sv' d' f. poll_once demo_lib demo_wire no_faults demo_handler (\<lambda>_. replicate 12 4) demo_server 0 (Some d) =
      Some (Inr 1, sv', snd (demo_handler 0 OpList), Some d') \<and>
     map_of d' (resp_path (p_req_id pending)) = Some f \<and>
     await_response 1 demo_lib demo_wire demo_client pending 30 (\<lambda>_. (ReadOk f, 0)) =
       Some (Inr (fst (demo_handler 0 OpList)), True)"
    by (rule delegation_roundtrip [OF demo_channel_crypto demo_wire_correct send, where body = "[1]" and rb = "[2]"])
      (simp_all add: demo_client_def demo_server_def server_new_def with_default_capacity_def replay_new_def demo_wire_def
        demo_handler_def demo_lib_def of_utf8_def)
  moreover have "snd (demo_handler 0 OpList) = 1" "fst (demo_handler 0 OpList) = RespOk (OkList [])"
    by (simp_all add: demo_handler_def)
  ultimately show ?thesis by metis
qed

lemma demo_short_frame: "process E W demo_handler demo_server 0 ''r'' [] n = Some (Inl MalformedFrame, demo_server, 0)"
  by (simp add: process_def frame_nonce_def NONCE_LEN_def)

theorem only_authentic_requests_run_witness:
  "process demo_lib demo_wire demo_handler demo_server 0 ''r'' [] [] = Some (Inl MalformedFrame, demo_server, 0) \<and>
   ((0 :: nat) = 0 \<and> (\<exists>e. (Inl MalformedFrame :: bytes channel_result) = Inl e) \<or>
      (\<exists>nonce body op. frame_nonce [] = Inr nonce \<and>
         open_request demo_lib (cs_secret demo_server) (cs_channel_id demo_server) ''r'' [] = Some (Inr body) \<and>
         nonce \<notin> seen (cs_replay demo_server) \<and> nonce \<in> seen (cs_replay demo_server) \<and>
         op_from_bytes demo_wire body = Inr op \<and> 0 = snd (demo_handler 0 op)))"
  using only_authentic_requests_run [OF demo_short_frame [of demo_lib demo_wire "[]"]] replay_new_ok demo_short_frame
  by (simp add: demo_server_def server_new_def with_default_capacity_def)

theorem await_response_returns_witness:
  "\<exists>r cl. await_response 3 demo_lib demo_wire demo_client \<lparr> p_req_id = ''r'', p_req_nonce = [] \<rparr> 30
     (\<lambda>i. (ReadNotFound, 20 * i)) = Some (r, cl)"
  by (rule await_response_returns [OF demo_channel_crypto, of _ _ 2]) simp_all

end
