(* ===== verification/Host_Signer.thy ===== *)
theory Host_Signer
  imports Software_Keystore Channel_Transport Key_Wrap
begin

section \<open>The host signer\<close>

text \<open>
  \<^verbatim>\<open>cli/src/host_signer.rs\<close>: the daemon that executes delegated operations on the host keystore, one
  handle per channel. It is generic in the keystore, as the source is. The pinned handles are files of the
  state directory (\<open>pins\<close>, by path); \<open>pin_fails\<close> says which of them cannot be written, and log lines are
  not modelled. The registry file is parsed by the \<^verbatim>\<open>toml\<close> crate, a parameter.
\<close>

subsection \<open>Dispatch\<close>

definition scoped_label :: "string \<Rightarrow> string \<Rightarrow> KeyLabel cli_result" where
  "scoped_label label prsn_handle =
     rbind (parse_label label None) (\<lambda>parsed.
     if label_handle parsed \<noteq> prsn_handle then Inl authorization_denied else Inr parsed)"

definition to_entry :: "KeyMeta \<Rightarrow> KeyEntry" where
  "to_entry m = \<lparr> ke_label = km_label m, ke_purpose = km_purpose m, ke_algorithm = km_algorithm m,
     ke_fingerprint = km_fingerprint m, ke_public_key = km_public_key m \<rparr>"

fun dispatch :: "'s keystore \<Rightarrow> string \<Rightarrow> 's \<Rightarrow> Op \<Rightarrow> OpOk cli_result \<times> 's" where
  "dispatch ks prsn_handle s (OpKeygen label algorithm) =
     (case scoped_label label prsn_handle of
        Inl e \<Rightarrow> (Inl e, s)
      | Inr label \<Rightarrow>
          (case ks_generate ks s label algorithm of
             (Inl e, s) \<Rightarrow> (Inl e, s)
           | (Inr m, s) \<Rightarrow> (Inr (OkKeygen (km_public_key m) (km_fingerprint m) (km_algorithm m)), s)))"
| "dispatch ks prsn_handle s (OpSign label msg) =
     (rbind (scoped_label label prsn_handle) (\<lambda>label.
      rbind (ks_sign ks s label msg) (\<lambda>sig. Inr (OkSign sig))), s)"
| "dispatch ks prsn_handle s (OpEcdh label peer_pub_x963) =
     (rbind (scoped_label label prsn_handle) (\<lambda>label.
      rbind (ks_ecdh ks s label peer_pub_x963) (\<lambda>z. Inr (OkEcdh z))), s)"
| "dispatch ks prsn_handle s (OpMlKemDecapsulate label ek) =
     (rbind (scoped_label label prsn_handle) (\<lambda>label.
      if length ek \<noteq> MLKEM1024_CT_LEN then Inl invalid_args
      else rbind (ks_ml_kem_decapsulate ks s label ek) (\<lambda>z. Inr (OkMlKemDecapsulate z))), s)"
| "dispatch ks prsn_handle s (OpMlDsaSign label msg ctx) =
     (rbind (scoped_label label prsn_handle) (\<lambda>label.
      rbind (validate_mldsa_ctx ctx) (\<lambda>_.
      rbind (ks_ml_dsa_sign ks s label msg ctx) (\<lambda>sig. Inr (OkMlDsaSign sig)))), s)"
| "dispatch ks prsn_handle s (OpMeta label) =
     (rbind (scoped_label label prsn_handle) (\<lambda>label.
      rbind (ks_meta ks s label) (\<lambda>m.
      Inr (OkMeta (km_public_key m) (km_fingerprint m) (km_algorithm m) (km_purpose m)))), s)"
| "dispatch ks prsn_handle s (OpExists label) =
     (rbind (scoped_label label prsn_handle) (\<lambda>label.
      rbind (ks_exists ks s label) (\<lambda>b. Inr (OkExists b))), s)"
| "dispatch ks prsn_handle s OpList =
     (rbind (ks_list ks s) (\<lambda>ms.
      Inr (OkList (map to_entry
        (filter (\<lambda>m. case parse_label (km_label m) None of Inl _ \<Rightarrow> False | Inr l \<Rightarrow> label_handle l = prsn_handle) ms)))), s)"
| "dispatch ks prsn_handle s OpIdentity = (Inr (OkIdentity (Some prsn_handle)), s)"
| "dispatch ks prsn_handle s (OpDelete label) =
     (case scoped_label label prsn_handle of
        Inl e \<Rightarrow> (Inl e, s)
      | Inr label \<Rightarrow>
          (case ks_delete ks s label of
             (Inl e, s) \<Rightarrow> (Inl e, s)
           | (Inr _, s) \<Rightarrow> (Inr OkDelete, s)))"

definition handle_op :: "'s keystore \<Rightarrow> string \<Rightarrow> 's \<Rightarrow> Op \<Rightarrow> Response \<times> 's" where
  "handle_op ks prsn_handle s op =
     (case dispatch ks prsn_handle s op of
        (Inr ok, s) \<Rightarrow> (RespOk ok, s)
      | (Inl e, s) \<Rightarrow> (RespErr \<lparr> err_code = code e \<rparr>, s))"

subsection \<open>Registry\<close>

record ChannelConfig =
  cfg_id :: string
  cfg_dir :: string
  cfg_secret_hex :: string

record Registry =
  reg_state_dir :: string
  reg_channels :: "ChannelConfig list"

definition registry_load :: "(string \<Rightarrow> Registry option) \<Rightarrow> (string \<Rightarrow> file_view) \<Rightarrow> string \<Rightarrow> Registry cli_result" where
  "registry_load toml_from_str read path =
     (case read path of
        Text text \<Rightarrow> ok_or config_error (toml_from_str text)
      | _ \<Rightarrow> Inl config_error)"

definition registry_load_or_init ::
  "(string \<Rightarrow> Registry option) \<Rightarrow> (string \<Rightarrow> file_view) \<Rightarrow> string \<Rightarrow> string \<Rightarrow> Registry cli_result" where
  "registry_load_or_init toml_from_str read path default_state_dir =
     (if read path \<noteq> Absent then registry_load toml_from_str read path
      else Inr \<lparr> reg_state_dir = default_state_dir, reg_channels = [] \<rparr>)"

definition parse_secret_hex :: "crypto_lib \<Rightarrow> string \<Rightarrow> channel_secret cli_result" where
  "parse_secret_hex E hex_str =
     rbind (ok_or config_error (hex_decode E (trim hex_str))) (\<lambda>bs.
     if length bs = 32 then Inr bs else Inl config_error)"

subsection \<open>The handle pinned to a channel\<close>

record ChannelState =
  pinned_handle :: "string option"
  pin_path :: string

definition channel_state_load :: "(string \<Rightarrow> file_view) \<Rightarrow> string \<Rightarrow> string \<Rightarrow> ChannelState cli_result" where
  "channel_state_load read channel_id state_dir =
     (let path = path_join state_dir (channel_id @ ''.handle'')
      in case read path of
           Text s \<Rightarrow>
             (let h = trim s
              in Inr \<lparr> pinned_handle = (if h = [] then None else Some h), pin_path = path \<rparr>)
         | Absent \<Rightarrow> Inr \<lparr> pinned_handle = None, pin_path = path \<rparr>
         | Unreadable \<Rightarrow> Inl config_error)"

definition persist ::
  "(string \<Rightarrow> bool) \<Rightarrow> ChannelState \<Rightarrow> string \<Rightarrow> (string \<rightharpoonup> string) \<Rightarrow> unit cli_result \<times> (string \<rightharpoonup> string)" where
  "persist pin_fails self handle pins =
     (if pin_fails (pin_path self) then (Inl config_error, pins)
      else (Inr (), pins(pin_path self \<mapsto> handle)))"

record 's signer =
  sg_state :: ChannelState
  sg_pins :: "string \<rightharpoonup> string"
  sg_keys :: 's

definition channel_handle :: "'s keystore \<Rightarrow> (string \<Rightarrow> bool) \<Rightarrow> 's signer \<Rightarrow> Op \<Rightarrow> Response \<times> 's signer" where
  "channel_handle ks pin_fails self op =
     (if op = OpIdentity then (RespOk (OkIdentity (pinned_handle (sg_state self))), self)
      else
        (case pinned_handle (sg_state self) of
           Some h \<Rightarrow>
             (let (response, s) = handle_op ks h (sg_keys self) op
              in (response, self\<lparr> sg_keys := s \<rparr>))
         | None \<Rightarrow>
             (case op of
                OpKeygen label algorithm \<Rightarrow>
                  (case parse_label label None of
                     Inl e \<Rightarrow> (RespErr \<lparr> err_code = code e \<rparr>, self)
                   | Inr l \<Rightarrow>
                       (let (response, s) = handle_op ks (label_handle l) (sg_keys self) op;
                            self = self\<lparr> sg_keys := s \<rparr>
                        in case response of
                             RespOk _ \<Rightarrow>
                               (let st = (sg_state self)\<lparr> pinned_handle := Some (label_handle l) \<rparr>
                                in (response, self\<lparr> sg_state := st,
                                      sg_pins := snd (persist pin_fails st (label_handle l) (sg_pins self)) \<rparr>))
                           | RespErr _ \<Rightarrow> (response, self)))
              | _ \<Rightarrow> (RespErr \<lparr> err_code = ''authorization_denied'' \<rparr>, self))))"

subsection \<open>Polling and eviction\<close>

definition EVICT_AFTER_MISSING_POLLS :: nat where "EVICT_AFTER_MISSING_POLLS = 20"

record Active =
  a_server :: ChannelServer
  a_state :: ChannelState
  a_id :: string
  a_dir :: string
  missing_polls :: nat

record PollOutcome =
  worked :: bool
  evict :: bool

definition saturating_u32 :: "nat \<Rightarrow> nat" where
  "saturating_u32 n = min (n + 1) (2 ^ 32 - 1)"

definition poll ::
  "crypto_lib \<Rightarrow> wire_lib \<Rightarrow> io \<Rightarrow> 's keystore \<Rightarrow> (string \<Rightarrow> bool) \<Rightarrow> (string \<Rightarrow> nonce) \<Rightarrow> Active \<Rightarrow>
   (string \<rightharpoonup> string) \<times> 's \<Rightarrow> folder option \<Rightarrow> (PollOutcome \<times> Active \<times> ((string \<rightharpoonup> string) \<times> 's) \<times> folder option) option" where
  "poll E W io ks pin_fails fresh self shared dir =
     (case poll_once E W io (channel_handle ks pin_fails) fresh (a_server self)
             \<lparr> sg_state = a_state self, sg_pins = fst shared, sg_keys = snd shared \<rparr> dir of
        None \<Rightarrow> None
      | Some (result, server, h, dir) \<Rightarrow>
          (let self = self\<lparr> a_server := server, a_state := sg_state h \<rparr>;
               shared = (sg_pins h, sg_keys h)
           in case result of
                Inr n \<Rightarrow> Some (\<lparr> worked = n > 0, evict = False \<rparr>, self\<lparr> missing_polls := 0 \<rparr>, shared, dir)
              | Inl IoNotFound \<Rightarrow>
                  (let m = saturating_u32 (missing_polls self)
                   in Some (\<lparr> worked = False, evict = (m = EVICT_AFTER_MISSING_POLLS) \<rparr>,
                            self\<lparr> missing_polls := m \<rparr>, shared, dir))
              | Inl _ \<Rightarrow> Some (\<lparr> worked = False, evict = False \<rparr>, self\<lparr> missing_polls := 0 \<rparr>, shared, dir)))"

fun start_channels ::
  "crypto_lib \<Rightarrow> (string \<Rightarrow> file_view) \<Rightarrow> string \<Rightarrow> ChannelConfig list \<Rightarrow> Active list cli_result" where
  "start_channels E read state_dir [] = Inr []"
| "start_channels E read state_dir (cfg # cfgs) =
     rbind (parse_secret_hex E (cfg_secret_hex cfg)) (\<lambda>secret.
     rbind (channel_state_load read (cfg_id cfg) state_dir) (\<lambda>state.
     rbind (start_channels E read state_dir cfgs) (\<lambda>rest.
     Inr (\<lparr> a_server = server_new (cfg_id cfg) secret, a_state = state, a_id = cfg_id cfg, a_dir = cfg_dir cfg,
            missing_polls = 0 \<rparr> # rest))))"

text \<open>One pass of the loop over the active channels; \<open>dirs\<close> are the channel folders, by path.\<close>

fun run_pass ::
  "crypto_lib \<Rightarrow> wire_lib \<Rightarrow> io \<Rightarrow> 's keystore \<Rightarrow> (string \<Rightarrow> bool) \<Rightarrow> (string \<Rightarrow> nonce) \<Rightarrow> Active list \<Rightarrow>
   (string \<rightharpoonup> string) \<times> 's \<Rightarrow> (string \<Rightarrow> folder option) \<Rightarrow>
   (bool \<times> Active list \<times> ((string \<rightharpoonup> string) \<times> 's) \<times> (string \<Rightarrow> folder option)) option" where
  "run_pass E W io ks pin_fails fresh [] shared dirs = Some (False, [], shared, dirs)"
| "run_pass E W io ks pin_fails fresh (a # as) shared dirs =
     (case poll E W io ks pin_fails fresh a shared (dirs (a_dir a)) of
        None \<Rightarrow> None
      | Some (outcome, a, shared, dir) \<Rightarrow>
          (case run_pass E W io ks pin_fails fresh as shared (dirs(a_dir a := dir)) of
             None \<Rightarrow> None
           | Some (w, as, shared, dirs) \<Rightarrow>
               Some (worked outcome \<or> w, if evict outcome then as else a # as, shared, dirs)))"

subsection \<open>A channel stays within its handle\<close>

lemma scoped_label_Inr [result_simps]:
  "scoped_label s h = Inr l \<longleftrightarrow> parse_label s None = Inr l \<and> label_handle l = h"
  by (auto simp: scoped_label_def result_simps)

fun op_label :: "Op \<Rightarrow> string option" where
  "op_label (OpKeygen label _) = Some label"
| "op_label (OpSign label _) = Some label"
| "op_label (OpEcdh label _) = Some label"
| "op_label (OpMlKemDecapsulate label _) = Some label"
| "op_label (OpMlDsaSign label _ _) = Some label"
| "op_label (OpMeta label) = Some label"
| "op_label (OpExists label) = Some label"
| "op_label (OpDelete label) = Some label"
| "op_label _ = None"

text \<open>
  an operation that names a key of another handle is refused with an authorization error and leaves
  the keystore as it was, whatever the operation and the keystore.
\<close>
theorem foreign_label_refused:
  assumes "op_label op = Some label" "parse_label label None = Inr l" "label_handle l \<noteq> h"
  shows "handle_op ks h s op = (RespErr \<lparr> err_code = ''authorization_denied'' \<rparr>, s)"
proof -
  have "scoped_label label h = Inl authorization_denied"
    using assms(2,3) by (simp add: scoped_label_def)
  with assms(1) show ?thesis
    by (cases op) (simp_all add: handle_op_def authorization_denied_def new_error_def)
qed

lemma demo_parse: "parse_label ''hlin-ai-signing'' None = Inr demo_label"
proof -
  have "validate_handle (label_handle demo_label) = Inr ()" by code_simp
  from parse_full [OF this] show ?thesis by (simp add: full_def demo_label_def)
qed

theorem foreign_label_refused_witness:
  "handle_op (software demo_lib demo_sw) ''mira-ai'' demo_store (OpSign ''hlin-ai-signing'' [1]) =
     (RespErr \<lparr> err_code = ''authorization_denied'' \<rparr>, demo_store)"
  by (rule foreign_label_refused [OF _ demo_parse]) (simp_all add: demo_label_def)

lemma handle_unpinned:
  assumes "pinned_handle (sg_state sg) = None"
  shows "pinned_handle (sg_state (snd (channel_handle ks pf sg op))) = None \<or>
    (\<exists>label alg l. op = OpKeygen label alg \<and> parse_label label None = Inr l \<and>
       pinned_handle (sg_state (snd (channel_handle ks pf sg op))) = Some (label_handle l) \<and>
       (\<exists>m. fst (ks_generate ks (sg_keys sg) l alg) = Inr m))"
proof (cases op)
  case (OpKeygen label alg)
  show ?thesis
  proof (cases "parse_label label None")
    case (Inr l)
    obtain r s where gen: "ks_generate ks (sg_keys sg) l alg = (r, s)" by fastforce
    with OpKeygen Inr assms show ?thesis
      by (cases r) (simp_all add: channel_handle_def handle_op_def scoped_label_def Let_def)
  qed (use OpKeygen assms in \<open>simp add: channel_handle_def\<close>)
qed (use assms in \<open>simp_all add: channel_handle_def\<close>)

context keystore_scope
begin

lemma dispatch_scope: "untouched h s (snd (dispatch ks h s op))"
proof (cases op)
  case (OpKeygen label alg)
  show ?thesis
  proof (cases "scoped_label label h")
    case (Inr l)
    then have "label_handle l = h" by (simp add: result_simps)
    with generate_scope [of l s alg] OpKeygen Inr show ?thesis by (auto split: prod.split sum.split)
  qed (simp add: OpKeygen untouched_refl)
next
  case (OpDelete label)
  show ?thesis
  proof (cases "scoped_label label h")
    case (Inr l)
    then have "label_handle l = h" by (simp add: result_simps)
    with delete_scope [of l s] OpDelete Inr show ?thesis by (auto split: prod.split sum.split)
  qed (simp add: OpDelete untouched_refl)
qed (simp_all add: untouched_refl)

lemma handle_op_scope: "untouched h s (snd (handle_op ks h s op))"
  using dispatch_scope [of h s op] by (auto simp: handle_op_def split: prod.split sum.split)

lemma handle_pinned:
  assumes "pinned_handle (sg_state sg) = Some h"
  shows "pinned_handle (sg_state (snd (channel_handle ks pf sg op))) = Some h \<and>
    untouched h (sg_keys sg) (sg_keys (snd (channel_handle ks pf sg op)))"
  using handle_op_scope [of h "sg_keys sg" op] assms
  by (auto simp: channel_handle_def untouched_refl split: prod.split)

lemma run_pinned:
  "pinned_handle (sg_state sg) = Some h \<Longrightarrow>
   pinned_handle (sg_state (foldl (\<lambda>sg op. snd (channel_handle ks pf sg op)) sg ops)) = Some h \<and>
   untouched h (sg_keys sg) (sg_keys (foldl (\<lambda>sg op. snd (channel_handle ks pf sg op)) sg ops))"
proof (induction ops arbitrary: sg)
  case (Cons op ops)
  from handle_pinned [OF Cons.prems, of pf op] Cons.IH [of "snd (channel_handle ks pf sg op)"]
  show ?case using untouched_trans by auto
qed (simp add: untouched_refl)

end



subsection \<open>Two channels can share a handle\<close>

text \<open>
  C39: a channel is not limited to the keys it created. A channel without a handle that generates a key of
  a purpose the handle does not have yet is pinned to that handle, and from then on its requests to sign
  with the handle's signing key, which another channel created, are executed.
\<close>
theorem second_channel_shares_handle:
  assumes "validate_handle h = Inr ()" "pinned_handle (sg_state b) = None"
    and "ks_generate ks (sg_keys b) \<lparr> label_handle = h, label_purpose = KemPq \<rparr> alg = (Inr m, s)"
    and "ks_sign ks s \<lparr> label_handle = h, label_purpose = Signing \<rparr> msg = Inr sig"
  shows "pinned_handle (sg_state (snd (channel_handle ks pf b (OpKeygen (h @ ''-kem-pq'') alg)))) = Some h \<and>
    fst (channel_handle ks pf (snd (channel_handle ks pf b (OpKeygen (h @ ''-kem-pq'') alg))) (OpSign (h @ ''-signing'') msg)) =
      RespOk (OkSign sig)"
proof -
  have parse: "parse_label (h @ ''-kem-pq'') None = Inr \<lparr> label_handle = h, label_purpose = KemPq \<rparr>"
    "parse_label (h @ ''-signing'') None = Inr \<lparr> label_handle = h, label_purpose = Signing \<rparr>"
    using parse_full [of "\<lparr> label_handle = h, label_purpose = KemPq \<rparr>"]
      parse_full [of "\<lparr> label_handle = h, label_purpose = Signing \<rparr>"] assms(1) by (simp_all add: full_def)
  then show ?thesis using assms(2-4)
    by (simp add: channel_handle_def handle_op_def scoped_label_def Let_def)
qed

text \<open>A keystore that generates and signs for every label, for evaluation.\<close>

definition demo_keystore :: "unit keystore" where
  "demo_keystore = \<lparr> ks_tier = Software,
     ks_generate = (\<lambda>s l a. (Inr \<lparr> km_label = full l, km_purpose = [], km_algorithm = a, km_storage = [],
       km_fingerprint = [], km_public_key = [] \<rparr>, s)),
     ks_meta = (\<lambda>_ _. Inl key_not_found), ks_sign = (\<lambda>_ _ m. Inr m), ks_ecdh = (\<lambda>_ _ _. Inl generic),
     ks_ml_kem_decapsulate = (\<lambda>_ _ _. Inl generic), ks_ml_dsa_sign = (\<lambda>_ _ _ _. Inl generic),
     ks_list = (\<lambda>_. Inr []), ks_delete = (\<lambda>s _. (Inr (), s)), ks_exists = (\<lambda>_ _. Inr True) \<rparr>"

definition demo_signer :: "unit signer" where
  "demo_signer = \<lparr> sg_state = \<lparr> pinned_handle = None, pin_path = ''p'' \<rparr>, sg_pins = Map.empty, sg_keys = () \<rparr>"

theorem second_channel_shares_handle_witness:
  "pinned_handle (sg_state (snd (channel_handle demo_keystore (\<lambda>_. False) demo_signer
     (OpKeygen (''hlin-ai'' @ ''-kem-pq'') ''ML-KEM-1024'')))) = Some ''hlin-ai''"
proof -
  have valid: "validate_handle ''hlin-ai'' = Inr ()" by code_simp
  show ?thesis
    by (rule conjunct1 [OF second_channel_shares_handle [OF valid]]) (simp_all add: demo_signer_def demo_keystore_def)
qed

subsection \<open>Eviction\<close>

lemma poll_missing:
  "poll E W io ks pf fresh a shared None =
     Some (\<lparr> worked = False, evict = (saturating_u32 (missing_polls a) = 20) \<rparr>,
       a\<lparr> missing_polls := saturating_u32 (missing_polls a) \<rparr>, shared, None)"
  by (simp add: poll_def poll_once_def Let_def EVICT_AFTER_MISSING_POLLS_def)

text \<open>
  a channel whose folder is gone is evicted at exactly the twentieth consecutive poll that misses it:
  not before, and no later poll reports an eviction again; the shared keys are not touched meanwhile.
\<close>
theorem evicted_at_threshold:
  assumes "missing_polls a = 0"
  shows "\<exists>a'. poll E W io ks pf fresh (((\<lambda>a. fst (snd (the (poll E W io ks pf fresh a shared None)))) ^^ n) a) shared None =
    Some (\<lparr> worked = False, evict = (Suc n = 20) \<rparr>, a', shared, None)"
proof -
  have "missing_polls (((\<lambda>a. fst (snd (the (poll E W io ks pf fresh a shared None)))) ^^ n) a) = min n (2 ^ 32 - 1)"
    by (induction n) (simp_all add: assms poll_missing saturating_u32_def)
  moreover have "min (min n (2 ^ 32 - 1) + 1) (2 ^ 32 - 1) = 20 \<longleftrightarrow> Suc n = 20" by (simp add: min_def)
  ultimately show ?thesis by (simp only: poll_missing saturating_u32_def) blast
qed

definition demo_active :: Active where
  "demo_active = \<lparr> a_server = demo_server, a_state = \<lparr> pinned_handle = None, pin_path = ''p'' \<rparr>, a_id = ''ch'',
     a_dir = ''/c'', missing_polls = 0 \<rparr>"

theorem evicted_at_threshold_witness:
  "\<exists>a'. poll demo_lib demo_wire no_faults demo_keystore (\<lambda>_. False) (\<lambda>_. []) (((\<lambda>a. fst (snd (the (poll demo_lib demo_wire
     no_faults demo_keystore (\<lambda>_. False) (\<lambda>_. []) a (Map.empty, ()) None)))) ^^ 19) demo_active) (Map.empty, ()) None =
    Some (\<lparr> worked = False, evict = (Suc 19 = 20) \<rparr>, a', (Map.empty, ()), None)"
  by (rule evicted_at_threshold) (simp add: demo_active_def)

end
