(* ===== verification/Garnet_Token.thy ===== *)
theory Garnet_Token
  imports Crypto_Base
begin

section \<open>Access tokens\<close>

text \<open>
  \<^verbatim>\<open>crypto/src/garnet_token.rs\<close>: the compact token the server mints and the server and the broker
  verify. JSON serialisation and the textual form of UUIDs come from \<^verbatim>\<open>serde_json\<close> and \<^verbatim>\<open>uuid\<close>: the
  record \<open>token_lib\<close> has one field for each function called, and \<open>token_lib_correct\<close> says that parsing
  inverts printing. A \<^verbatim>\<open>Uuid\<close> is its 16 bytes; the random \<^verbatim>\<open>jti\<close> is an argument.
\<close>

type_synonym uuid = bytes

definition ALG_ES256 :: string where "ALG_ES256 = ''ES256''"
definition TYP_AT_JWT :: string where "TYP_AT_JWT = ''at+jwt''"
definition ISS :: string where "ISS = ''https://drive.mysignet.ca''"

datatype Audience = Server | Broker

fun aud_as_str :: "Audience \<Rightarrow> string" where
  "aud_as_str Server = ''signet-server''"
| "aud_as_str Broker = ''signet-broker''"

record Header =
  h_alg :: string
  h_typ :: string
  h_kid :: string

record Claims =
  c_iss :: string
  c_sub :: string
  c_aud :: string
  c_iat :: int
  c_nbf :: int
  c_exp :: int
  c_jti :: string
  c_grant_id :: string
  c_cnf :: "string option"

record VerifiedToken =
  vt_sub :: string
  vt_grant_id :: uuid
  vt_jti :: string
  vt_exp :: int

datatype TokenError =
    Malformed
  | AlgNotAllowed
  | TypNotAllowed
  | KidMalformed
  | UnknownKid
  | TokenSignatureInvalid
  | CnfMissing
  | CnfMismatch
  | SubMismatch
  | AudMismatch
  | IssMismatch
  | Expired
  | NotYetValid

type_synonym 'a token_result = "TokenError + 'a"

record token_lib =
  header_to_vec :: "Header \<Rightarrow> bytes option"
  header_from_slice :: "bytes \<Rightarrow> Header option"
  claims_to_vec :: "Claims \<Rightarrow> bytes option"
  claims_from_slice :: "bytes \<Rightarrow> Claims option"
  uuid_to_string :: "uuid \<Rightarrow> string"
  uuid_parse :: "string \<Rightarrow> uuid option"

subsection \<open>Minting\<close>

definition encode_signing_input ::
  "crypto_lib \<Rightarrow> token_lib \<Rightarrow> uuid \<Rightarrow> Audience \<Rightarrow> string \<Rightarrow> string \<Rightarrow> uuid \<Rightarrow> int \<Rightarrow> int \<Rightarrow> uuid \<Rightarrow>
   string crypto_result" where
  "encode_signing_input E T kid audience sub cnf_thumbprint grant_id ttl_seconds now jti =
     (let header = \<lparr> h_alg = ALG_ES256, h_typ = TYP_AT_JWT, h_kid = uuid_to_string T kid \<rparr>;
          claims = \<lparr> c_iss = ISS, c_sub = sub, c_aud = aud_as_str audience, c_iat = now, c_nbf = now,
            c_exp = wrap_i64 (now + ttl_seconds), c_jti = uuid_to_string T jti,
            c_grant_id = uuid_to_string T grant_id, c_cnf = Some cnf_thumbprint \<rparr>
      in rbind (ok_or (InvalidInput ''garnet token header'') (header_to_vec T header)) (\<lambda>header_json.
         rbind (ok_or (InvalidInput ''garnet token claims'') (claims_to_vec T claims)) (\<lambda>claims_json.
         Inr (b64_encode E header_json @ ''.'' @ b64_encode E claims_json))))"

subsection \<open>Verification\<close>

definition decode_header :: "crypto_lib \<Rightarrow> token_lib \<Rightarrow> string \<Rightarrow> Header token_result" where
  "decode_header E T part =
     rbind (ok_or Malformed (b64_decode E part)) (\<lambda>bs. ok_or Malformed (header_from_slice T bs))"

definition decode_claims :: "crypto_lib \<Rightarrow> token_lib \<Rightarrow> string \<Rightarrow> Claims token_result" where
  "decode_claims E T part =
     rbind (ok_or Malformed (b64_decode E part)) (\<lambda>bs. ok_or Malformed (claims_from_slice T bs))"

definition pin_header :: "Header \<Rightarrow> unit token_result" where
  "pin_header header =
     (if h_alg header \<noteq> ALG_ES256 then Inl AlgNotAllowed
      else if h_typ header \<noteq> TYP_AT_JWT then Inl TypNotAllowed
      else Inr ())"

definition extract_kid :: "crypto_lib \<Rightarrow> token_lib \<Rightarrow> string \<Rightarrow> uuid token_result" where
  "extract_kid E T jws =
     (let parts = split_on CHR ''.'' jws
      in if length parts \<noteq> 3 then Inl Malformed
         else rbind (decode_header E T (parts ! 0)) (\<lambda>header.
              rbind (pin_header header) (\<lambda>_.
              ok_or KidMalformed (uuid_parse T (h_kid header)))))"

definition verify_structural ::
  "crypto_lib \<Rightarrow> token_lib \<Rightarrow> string \<Rightarrow> bytes \<Rightarrow> Audience \<Rightarrow> string \<Rightarrow> string \<Rightarrow> Claims token_result" where
  "verify_structural E T jws verify_key expected_audience expected_sub presented_cert_thumbprint =
     (let parts = split_on CHR ''.'' jws
      in if length parts \<noteq> 3 then Inl Malformed
         else rbind (decode_header E T (parts ! 0)) (\<lambda>header.
              rbind (pin_header header) (\<lambda>_.
              let signing_input = parts ! 0 @ ''.'' @ parts ! 1 in
              rbind (ok_or Malformed (b64_decode E (parts ! 2))) (\<lambda>sig.
              rbind (map_err (\<lambda>_. TokenSignatureInvalid) (verify_es256 E verify_key (utf8 signing_input) sig)) (\<lambda>_.
              rbind (decode_claims E T (parts ! 1)) (\<lambda>claims.
              if c_iss claims \<noteq> ISS then Inl IssMismatch
              else if c_aud claims \<noteq> aud_as_str expected_audience then Inl AudMismatch
              else if c_sub claims \<noteq> expected_sub then Inl SubMismatch
              else rbind (ok_or CnfMissing (c_cnf claims)) (\<lambda>cnf.
                   if cnf = [] then Inl CnfMissing
                   else if cnf \<noteq> presented_cert_thumbprint then Inl CnfMismatch
                   else Inr claims)))))))"

definition into_verified :: "token_lib \<Rightarrow> Claims \<Rightarrow> VerifiedToken token_result" where
  "into_verified T claims =
     rbind (ok_or Malformed (uuid_parse T (c_grant_id claims))) (\<lambda>grant_id.
     Inr \<lparr> vt_sub = c_sub claims, vt_grant_id = grant_id, vt_jti = c_jti claims, vt_exp = c_exp claims \<rparr>)"

definition verify ::
  "crypto_lib \<Rightarrow> token_lib \<Rightarrow> string \<Rightarrow> bytes \<Rightarrow> Audience \<Rightarrow> string \<Rightarrow> string \<Rightarrow> int \<Rightarrow> int \<Rightarrow>
   VerifiedToken token_result" where
  "verify E T jws verify_key expected_audience expected_sub presented_cert_thumbprint now skew_seconds =
     rbind (verify_structural E T jws verify_key expected_audience expected_sub presented_cert_thumbprint) (\<lambda>claims.
     if now > saturating_add (c_exp claims) skew_seconds then Inl Expired
     else if saturating_sub (c_nbf claims) skew_seconds > now \<or> saturating_sub (c_iat claims) skew_seconds > now
     then Inl NotYetValid
     else into_verified T claims)"

definition verify_skipping_time ::
  "crypto_lib \<Rightarrow> token_lib \<Rightarrow> string \<Rightarrow> bytes \<Rightarrow> Audience \<Rightarrow> string \<Rightarrow> string \<Rightarrow> VerifiedToken token_result" where
  "verify_skipping_time E T jws verify_key expected_audience expected_sub presented_cert_thumbprint =
     rbind (verify_structural E T jws verify_key expected_audience expected_sub presented_cert_thumbprint)
       (into_verified T)"

subsection \<open>What the code relies on\<close>

definition token_lib_correct :: "token_lib \<Rightarrow> bool" where
  "token_lib_correct T \<longleftrightarrow>
     (\<forall>h b. header_to_vec T h = Some b \<longrightarrow> header_from_slice T b = Some h) \<and>
     (\<forall>c b. claims_to_vec T c = Some b \<longrightarrow> claims_from_slice T b = Some c) \<and>
     (\<forall>u. uuid_parse T (uuid_to_string T u) = Some u)"

definition b64_url_alphabet :: "crypto_lib \<Rightarrow> bool" where
  "b64_url_alphabet E \<longleftrightarrow> (\<forall>x. CHR ''.'' \<notin> set (b64_encode E x))"

subsection \<open>Acceptance\<close>

text \<open>
  The conditions of an accepted token, apart from its validity window: \<open>token_signed\<close> of its three
  parts, and \<open>token_binds\<close> of the whole.
\<close>

definition token_signed ::
  "crypto_lib \<Rightarrow> token_lib \<Rightarrow> bytes \<Rightarrow> string \<Rightarrow> string \<Rightarrow> string \<Rightarrow> Claims \<Rightarrow> bool" where
  "token_signed E T key h c s claims \<longleftrightarrow>
     (\<exists>header sig. decode_header E T h = Inr header \<and> h_alg header = ''ES256'' \<and> h_typ header = ''at+jwt'' \<and>
        b64_decode E s = Some sig \<and> verify_es256 E key (utf8 (h @ ''.'' @ c)) sig = Inr () \<and>
        decode_claims E T c = Inr claims)"

definition token_binds ::
  "crypto_lib \<Rightarrow> token_lib \<Rightarrow> string \<Rightarrow> bytes \<Rightarrow> Audience \<Rightarrow> string \<Rightarrow> string \<Rightarrow> Claims \<Rightarrow> bool" where
  "token_binds E T jws key aud sub cnf claims \<longleftrightarrow>
     (\<exists>h c s. jws = h @ ''.'' @ c @ ''.'' @ s \<and> CHR ''.'' \<notin> set h \<union> set c \<union> set s \<and>
        token_signed E T key h c s claims) \<and>
     c_iss claims = ISS \<and> c_aud claims = aud_as_str aud \<and> c_sub claims = sub \<and>
     c_cnf claims = Some cnf \<and> cnf \<noteq> []"

lemma length3: "length xs = 3 \<longleftrightarrow> (\<exists>a b c. xs = [a, b, c])"
  by (auto simp: numeral_3_eq_3 length_Suc_conv)

lemma pin_header_Inr [result_simps]:
  "pin_header h = Inr u \<longleftrightarrow> h_alg h = ''ES256'' \<and> h_typ h = ''at+jwt''"
  by (simp add: pin_header_def ALG_ES256_def TYP_AT_JWT_def)

lemma verify_structural_split:
  assumes "split_on CHR ''.'' jws = [h, c, s]"
  shows "verify_structural E T jws key aud sub cnf = Inr claims \<longleftrightarrow>
    token_signed E T key h c s claims \<and> c_iss claims = ISS \<and> c_aud claims = aud_as_str aud \<and>
    c_sub claims = sub \<and> c_cnf claims = Some cnf \<and> cnf \<noteq> []"
  using assms by (auto simp: verify_structural_def token_signed_def Let_def result_simps split: if_splits)

lemma verify_structural_iff [result_simps]:
  "verify_structural E T jws key aud sub cnf = Inr claims \<longleftrightarrow> token_binds E T jws key aud sub cnf claims"
proof (cases "length (split_on CHR ''.'' jws) = 3")
  case True
  then obtain h c s where split: "split_on CHR ''.'' jws = [h, c, s]" by (auto simp: length3)
  have "jws = h' @ ''.'' @ c' @ ''.'' @ s' \<and> CHR ''.'' \<notin> set h' \<union> set c' \<union> set s' \<longleftrightarrow>
      h' = h \<and> c' = c \<and> s' = s" for h' c' s'
    using split_on_3 [of "CHR ''.''" jws h' c' s', unfolded split] by (simp only: append.simps Un_iff list.inject) blast
  then show ?thesis unfolding verify_structural_split [OF split] token_binds_def by metis
next
  case False
  have "length (split_on CHR ''.'' jws) = 3" if "token_binds E T jws key aud sub cnf claims"
    using that unfolding token_binds_def by (elim exE conjE) simp
  with False show ?thesis by (auto simp: verify_structural_def Let_def)
qed

lemma token_binds_sub: "token_binds E T jws key aud sub cnf claims \<Longrightarrow> c_sub claims = sub"
  by (simp add: token_binds_def)

lemma into_verified_Inr:
  "into_verified T claims = Inr v \<longleftrightarrow> uuid_parse T (c_grant_id claims) = Some (vt_grant_id v) \<and>
     vt_sub v = c_sub claims \<and> vt_jti v = c_jti claims \<and> vt_exp v = c_exp claims"
  by (cases v) (auto simp: into_verified_def result_simps)

text \<open>
  C10: the server accepts a token exactly when it is three dot-free parts whose header names ES256 and
  at+jwt, whose signature over the first two parts verifies under the given key, whose claims name the
  deployment, this audience, this handle and the non-empty thumbprint of the presented certificate, whose
  window (widened by the skew) contains the current time, and whose grant id is a UUID; it then returns
  those claims.
\<close>
theorem verify_accepts_iff:
  "verify E T jws key aud sub cnf now skew = Inr v \<longleftrightarrow>
     (\<exists>claims. token_binds E T jws key aud sub cnf claims \<and>
        now \<le> saturating_add (c_exp claims) skew \<and>
        saturating_sub (c_nbf claims) skew \<le> now \<and> saturating_sub (c_iat claims) skew \<le> now \<and>
        uuid_parse T (c_grant_id claims) = Some (vt_grant_id v) \<and>
        vt_sub v = sub \<and> vt_jti v = c_jti claims \<and> vt_exp v = c_exp claims)"
  by (auto simp: verify_def into_verified_Inr result_simps not_less token_binds_sub split: if_splits)

lemma verify_skipping_time_binds:
  "verify_skipping_time E T jws key aud sub cnf = Inr v \<Longrightarrow>
     \<exists>claims. token_binds E T jws key aud sub cnf claims \<and> vt_sub v = sub \<and> vt_exp v = c_exp claims \<and>
       uuid_parse T (c_grant_id claims) = Some (vt_grant_id v)"
  by (auto simp: verify_skipping_time_def into_verified_Inr result_simps dest: token_binds_sub)

text \<open>
  a token whose header decodes but names another algorithm is refused as such, by the key lookup and by
  the verifier alike, whatever the key, the claims and the signature are.
\<close>
theorem forged_alg_refused:
  assumes "CHR ''.'' \<notin> set h \<union> set c \<union> set s" "decode_header E T h = Inr header" "h_alg header \<noteq> ''ES256''"
  shows "extract_kid E T (h @ ''.'' @ c @ ''.'' @ s) = Inl AlgNotAllowed \<and>
    verify E T (h @ ''.'' @ c @ ''.'' @ s) key aud sub cnf now skew = Inl AlgNotAllowed"
proof -
  have "split_on CHR ''.'' (h @ ''.'' @ c @ ''.'' @ s) = [h, c, s]"
    using assms(1) by simp
  with assms(2,3) show ?thesis
    by (simp add: extract_kid_def verify_def verify_structural_def pin_header_def ALG_ES256_def)
qed

subsection \<open>Minting, then verifying\<close>

definition minted_claims :: "token_lib \<Rightarrow> Audience \<Rightarrow> string \<Rightarrow> string \<Rightarrow> uuid \<Rightarrow> int \<Rightarrow> int \<Rightarrow> uuid \<Rightarrow> Claims" where
  "minted_claims T aud sub cnf grant_id exp at jti = \<lparr> c_iss = ISS, c_sub = sub, c_aud = aud_as_str aud, c_iat = at,
     c_nbf = at, c_exp = exp, c_jti = uuid_to_string T jti, c_grant_id = uuid_to_string T grant_id, c_cnf = Some cnf \<rparr>"

lemma mint_structural:
  assumes "p256_correct E" "ecdsa_correct E" "b64_correct E" "b64_url_alphabet E" "token_lib_correct T"
    and mint: "encode_signing_input E T kid aud sub cnf grant_id ttl at jti = Inr input"
    and sign: "sign_es256 E k1 (utf8 input) = Inr sig"
    and "cnf \<noteq> []" "i64_min \<le> at + ttl" "at + ttl \<le> i64_max"
  shows "verify_structural E T (input @ ''.'' @ b64_encode E sig) (p256_public E k1) aud sub cnf =
      Inr (minted_claims T aud sub cnf grant_id (at + ttl) at jti)"
    and "aud' \<noteq> aud \<Longrightarrow>
      verify_structural E T (input @ ''.'' @ b64_encode E sig) (p256_public E k1) aud' sub cnf = Inl AudMismatch"
proof -
  define header where "header = \<lparr> h_alg = ALG_ES256, h_typ = TYP_AT_JWT, h_kid = uuid_to_string T kid \<rparr>"
  define claims where "claims = minted_claims T aud sub cnf grant_id (at + ttl) at jti"
  obtain hj cj where hj: "header_to_vec T header = Some hj" and cj: "claims_to_vec T claims = Some cj"
    and input: "input = b64_encode E hj @ ''.'' @ b64_encode E cj"
    using mint wrap_i64_id [OF assms(9,10)]
    by (auto simp: encode_signing_input_def Let_def result_simps header_def claims_def minted_claims_def)
  have split: "split_on CHR ''.'' (input @ ''.'' @ b64_encode E sig) =
      [b64_encode E hj, b64_encode E cj, b64_encode E sig]"
    using assms(4) by (simp add: input b64_url_alphabet_def)
  have h: "decode_header E T (b64_encode E hj) = Inr header" and c: "decode_claims E T (b64_encode E cj) = Inr claims"
    using assms(3,5) hj cj by (simp_all add: decode_header_def decode_claims_def token_lib_correct_def)
  have ver: "verify_es256 E (p256_public E k1) (utf8 (b64_encode E hj @ ''.'' @ b64_encode E cj)) sig = Inr ()"
    using sign_verify [OF assms(1,2) sign] by (simp add: input)
  have pin: "pin_header header = Inr ()" by (simp add: pin_header_def header_def)
  note facts = split h c ver pin assms(3,8)
  show "verify_structural E T (input @ ''.'' @ b64_encode E sig) (p256_public E k1) aud sub cnf =
      Inr (minted_claims T aud sub cnf grant_id (at + ttl) at jti)"
    using facts by (simp add: verify_structural_def Let_def claims_def minted_claims_def)
  assume "aud' \<noteq> aud"
  then have "aud_as_str aud' \<noteq> aud_as_str aud" by (cases aud; cases aud') auto
  with facts show "verify_structural E T (input @ ''.'' @ b64_encode E sig) (p256_public E k1) aud' sub cnf =
      Inl AudMismatch"
    by (simp add: verify_structural_def Let_def claims_def minted_claims_def)
qed

text \<open>
  a token minted by the server and signed with K1 is accepted by the surface it was minted for, under
  K1's public key, for the handle and the certificate it was bound to, from the moment of minting (less the
  skew) until its expiry (plus the skew), and yields the grant it was minted for; the other surface refuses
  it as minted for another audience.
\<close>
theorem mint_verify:
  assumes "p256_correct E" "ecdsa_correct E" "b64_correct E" "b64_url_alphabet E" "token_lib_correct T"
    and mint: "encode_signing_input E T kid aud sub cnf grant_id ttl at jti = Inr input"
    and sign: "sign_es256 E k1 (utf8 input) = Inr sig"
    and "cnf \<noteq> []" "i64_min \<le> at + ttl" "at + ttl \<le> i64_max" "aud' \<noteq> aud"
    and "saturating_sub at skew \<le> now" "now \<le> saturating_add (at + ttl) skew"
  shows "verify E T (input @ ''.'' @ b64_encode E sig) (p256_public E k1) aud sub cnf now skew =
      Inr \<lparr> vt_sub = sub, vt_grant_id = grant_id, vt_jti = uuid_to_string T jti, vt_exp = at + ttl \<rparr> \<and>
    verify E T (input @ ''.'' @ b64_encode E sig) (p256_public E k1) aud' sub cnf now skew = Inl AudMismatch"
proof -
  have "uuid_parse T (uuid_to_string T grant_id) = Some grant_id"
    using assms(5) by (simp add: token_lib_correct_def)
  with mint_structural [OF assms(1-10)] assms(11-13) show ?thesis
    by (simp add: verify_def into_verified_def minted_claims_def)
qed

text \<open>A small instance of the parameters, which serialises one header and one set of claims.\<close>

definition demo_header :: Header where
  "demo_header = \<lparr> h_alg = ''ES256'', h_typ = ''at+jwt'', h_kid = ''k'' \<rparr>"

definition demo_claims :: Claims where
  "demo_claims = \<lparr> c_iss = ISS, c_sub = ''ada'', c_aud = ''signet-broker'', c_iat = 1000, c_nbf = 1000,
     c_exp = 1600, c_jti = ''k'', c_grant_id = ''k'', c_cnf = Some ''t'' \<rparr>"

definition demo_tokens :: token_lib where
  "demo_tokens = \<lparr> header_to_vec = (\<lambda>h. if h = demo_header then Some [1] else None),
     header_from_slice = (\<lambda>b. if b = [1] then Some demo_header else None),
     claims_to_vec = (\<lambda>c. if c = demo_claims then Some [2] else None),
     claims_from_slice = (\<lambda>b. if b = [2] then Some demo_claims else None),
     uuid_to_string = of_utf8, uuid_parse = (\<lambda>s. Some (utf8 s)) \<rparr>"

definition demo_url_lib :: crypto_lib where
  "demo_url_lib = demo_lib\<lparr> b64_encode := demo_hex, b64_decode := demo_unhex \<rparr>"

lemma demo_tokens_correct: "token_lib_correct demo_tokens"
  by (simp add: token_lib_correct_def demo_tokens_def)

lemma demo_url_lib_correct:
  "p256_correct demo_url_lib" "ecdsa_correct demo_url_lib" "b64_correct demo_url_lib" "b64_url_alphabet demo_url_lib"
proof -
  show "p256_correct demo_url_lib"
    using demo_p256_correct unfolding p256_correct_def demo_url_lib_def by simp
  show "ecdsa_correct demo_url_lib"
    using demo_ecdsa_correct unfolding ecdsa_correct_def demo_url_lib_def by simp
  show "b64_correct demo_url_lib" using demo_unhex_hex by (simp add: b64_correct_def demo_url_lib_def)
  have "CHR ''.'' \<notin> set ''0123456789abcdef''" by simp
  then show "b64_url_alphabet demo_url_lib"
    using demo_unhex_hex unfolding b64_url_alphabet_def demo_url_lib_def by auto
qed

lemma demo_mint:
  "encode_signing_input demo_url_lib demo_tokens (utf8 ''k'') Broker ''ada'' ''t'' (utf8 ''k'') 600 1000 (utf8 ''k'') =
     Inr ''01.02''"
proof -
  have "demo_hex [1] = ''01''" "demo_hex [2] = ''02''" by code_simp+
  then show ?thesis
    by (simp add: encode_signing_input_def demo_tokens_def demo_header_def demo_claims_def demo_url_lib_def
        ALG_ES256_def TYP_AT_JWT_def wrap_i64_def)
qed

lemma demo_sign:
  "sign_es256 demo_url_lib (replicate 32 7) m = Inr (ecdsa_sign demo_url_lib (replicate 32 7) m)"
  by (simp add: sign_es256_def demo_url_lib_def demo_lib_def)

definition demo_jws :: string where
  "demo_jws = ''01.02'' @ ''.'' @ b64_encode demo_url_lib (ecdsa_sign demo_url_lib (replicate 32 7) (utf8 ''01.02''))"

lemma demo_token_verifies:
  "verify_skipping_time demo_url_lib demo_tokens demo_jws (p256_public demo_url_lib (replicate 32 7)) Broker ''ada'' ''t'' =
     Inr \<lparr> vt_sub = ''ada'', vt_grant_id = utf8 ''k'', vt_jti = ''k'', vt_exp = 1600 \<rparr>"
proof -
  have "verify_structural demo_url_lib demo_tokens demo_jws (p256_public demo_url_lib (replicate 32 7)) Broker ''ada'' ''t'' =
      Inr (minted_claims demo_tokens Broker ''ada'' ''t'' (utf8 ''k'') (1000 + 600) 1000 (utf8 ''k''))"
    unfolding demo_jws_def
    by (rule mint_structural(1) [OF demo_url_lib_correct demo_tokens_correct demo_mint demo_sign])
      (simp_all add: i64_min_def i64_max_def)
  then show ?thesis
    by (simp add: verify_skipping_time_def into_verified_def minted_claims_def demo_tokens_def)
qed

theorem mint_verify_witness:
  "verify demo_url_lib demo_tokens (''01.02'' @ ''.'' @ b64_encode demo_url_lib
       (ecdsa_sign demo_url_lib (replicate 32 7) (utf8 ''01.02''))) (p256_public demo_url_lib (replicate 32 7))
     Broker ''ada'' ''t'' 1200 30 =
   Inr \<lparr> vt_sub = ''ada'', vt_grant_id = utf8 ''k'', vt_jti = uuid_to_string demo_tokens (utf8 ''k''),
     vt_exp = 1000 + 600 \<rparr>"
  by (rule conjunct1 [OF mint_verify [OF demo_url_lib_correct demo_tokens_correct demo_mint demo_sign,
      where aud' = Server]])
    (simp_all add: i64_min_def i64_max_def saturating_add_def saturating_sub_def)

theorem forged_alg_refused_witness:
  "extract_kid demo_url_lib (demo_tokens\<lparr> header_from_slice := (\<lambda>_. Some (demo_header\<lparr> h_alg := ''none'' \<rparr>)) \<rparr>)
     (''01'' @ ''.'' @ ''02'' @ ''.'' @ []) = Inl AlgNotAllowed"
  by (rule conjunct1 [OF forged_alg_refused [where header = "demo_header\<lparr> h_alg := ''none'' \<rparr>"]])
    (simp_all add: decode_header_def demo_url_lib_def hex_value_def)

end
