(* ===== verification/Broker.thy ===== *)
theory Broker
  imports Host_Signer X509 Garnet_Token Garnet_Revocation
begin

section \<open>The Secure-Enclave broker\<close>

text \<open>
  \<^verbatim>\<open>cli/src/{broker,broker_wire}.rs\<close>: one request per mutually authenticated connection. The TLS stack is
  not modelled: the argument of a connection is the leaf certificate the handshake authenticated (or none)
  and the bytes the client sends. \<open>BrokerContext\<close> is the state shared by the workers; a request runs the
  whole handler, so the order in which workers take the locks is the order of the requests in a sequence.
  Reading the clock twice in a request gives two instants. The grant-status service is a parameter.
\<close>

subsection \<open>Framing\<close>

definition MAX_FRAME_BYTES :: u32 where "MAX_FRAME_BYTES = 4 * 1024 * 1024"

datatype io_error = UnexpectedEof | InvalidData | OtherIo

record BrokerRequest =
  br_token :: string
  br_op :: Op

definition read_exact :: "nat \<Rightarrow> bytes \<Rightarrow> io_error + bytes \<times> bytes" where
  "read_exact n r = (if length r < n then Inl UnexpectedEof else Inr (take n r, drop n r))"

definition read_frame :: "(bytes \<Rightarrow> 't option) \<Rightarrow> bytes \<Rightarrow> io_error + 't \<times> bytes" where
  "read_frame from_slice r =
     rbind (read_exact 4 r) (\<lambda>(len_buf, r).
     let len = from_be32 len_buf in
     if len = 0 \<or> len > MAX_FRAME_BYTES then Inl InvalidData
     else rbind (read_exact (unat len) r) (\<lambda>(body, r).
          rbind (ok_or InvalidData (from_slice body)) (\<lambda>t. Inr (t, r))))"

definition write_frame :: "('t \<Rightarrow> bytes option) \<Rightarrow> bytes \<Rightarrow> 't \<Rightarrow> io_error + bytes" where
  "write_frame to_vec w value =
     rbind (ok_or InvalidData (to_vec value)) (\<lambda>body.
     if length body < 2 ^ 32 \<and> (of_nat (length body) :: u32) \<le> MAX_FRAME_BYTES
     then Inr (w @ be32 (of_nat (length body)) @ body)
     else Inl InvalidData)"

subsection \<open>Requests\<close>

type_synonym grant_status_client = "uuid \<Rightarrow> string \<Rightarrow> string \<Rightarrow> GrantStatusOutcome"

definition unreachable_grant_status :: grant_status_client where
  "unreachable_grant_status grant_id handle cnf = UnreachableOutcome"

record 's BrokerContext =
  k1_verify_key :: bytes
  lease_cfg :: LeaseConfig
  bc_keystore :: "'s keystore"
  keys :: 's
  leases :: "uuid \<rightharpoonup> GrantLease"

definition op_err :: "string \<Rightarrow> Response" where
  "op_err c = RespErr \<lparr> err_code = c \<rparr>"

text \<open>The lease taken from the map, or a fresh one, and the two steps of the check at use.\<close>

definition lease_of :: "'s BrokerContext \<Rightarrow> uuid \<Rightarrow> GrantLease" where
  "lease_of ctx grant_id = (case leases ctx grant_id of Some l \<Rightarrow> l | None \<Rightarrow> new_lease)"

definition check_grant ::
  "grant_status_client \<Rightarrow> LeaseConfig \<Rightarrow> GrantLease \<Rightarrow> VerifiedToken \<Rightarrow> string \<Rightarrow> string \<Rightarrow> instant \<Rightarrow> instant \<Rightarrow>
   Decision \<times> GrantLease" where
  "check_grant grant_status cfg l verified handle cnf now now' =
     (case decide l now (vt_exp verified) cfg of
        ReconfirmRequired \<Rightarrow>
          on_grant_status l (grant_status (vt_grant_id verified) handle cnf) now' (vt_exp verified) cfg
      | other \<Rightarrow> (other, l))"

definition handle_request ::
  "crypto_lib \<Rightarrow> token_lib \<Rightarrow> grant_status_client \<Rightarrow> string \<Rightarrow> string \<Rightarrow> BrokerRequest \<Rightarrow> instant \<Rightarrow> instant \<Rightarrow>
   's BrokerContext \<Rightarrow> Response \<times> 's BrokerContext" where
  "handle_request E T grant_status handle cnf req now now' ctx =
     (case verify_skipping_time E T (br_token req) (k1_verify_key ctx) Broker handle cnf of
        Inl _ \<Rightarrow> (op_err ''unauthorized'', ctx)
      | Inr verified \<Rightarrow>
          (let l = lease_of ctx (vt_grant_id verified);
               (decision, l) = check_grant grant_status (lease_cfg ctx) l verified handle cnf now now';
               ctx = ctx\<lparr> leases := (leases ctx)(vt_grant_id verified \<mapsto> l) \<rparr>
           in case decision of
                Serve \<Rightarrow>
                  (let (response, s) = handle_op (bc_keystore ctx) handle (keys ctx) (br_op req)
                   in (response, ctx\<lparr> keys := s \<rparr>))
              | FailClosed TokenExpired \<Rightarrow> (op_err ''token_expired'', ctx)
              | FailClosed _ \<Rightarrow> (op_err ''access_paused'', ctx)
              | ReconfirmRequired \<Rightarrow> (op_err ''internal'', ctx)))"

definition handle_connection ::
  "crypto_lib \<Rightarrow> token_lib \<Rightarrow> 'b x509_lib \<Rightarrow> (bytes \<Rightarrow> BrokerRequest option) \<Rightarrow> (Response \<Rightarrow> bytes option) \<Rightarrow>
   grant_status_client \<Rightarrow> bytes option \<Rightarrow> bytes \<Rightarrow> instant \<Rightarrow> instant \<Rightarrow> 's BrokerContext \<Rightarrow>
   bytes option \<times> 's BrokerContext" where
  "handle_connection E T X req_from_slice resp_to grant_status peer received now now' ctx =
     (case peer of
        None \<Rightarrow> (None, ctx)
      | Some leaf \<Rightarrow>
          (case cert_san_handle X leaf of
             Inr (Some handle) \<Rightarrow>
               (let cnf = cert_thumbprint_b64url E leaf
                in case read_frame req_from_slice received of
                     Inl _ \<Rightarrow> (None, ctx)
                   | Inr (req, _) \<Rightarrow>
                       (let (resp, ctx) = handle_request E T grant_status handle cnf req now now' ctx
                        in (case write_frame resp_to [] resp of Inl _ \<Rightarrow> (None, ctx) | Inr out \<Rightarrow> (Some out, ctx))))
           | _ \<Rightarrow> (None, ctx)))"

definition assert_loopback :: "SocketAddr \<Rightarrow> unit cli_result" where
  "assert_loopback addr = (if is_loopback addr then Inr () else Inl (new_error 70 ''internal''))"

subsection \<open>Framing is exact\<close>

text \<open>
  a frame written is read back, whatever follows it in the stream, and the reader consumes exactly the
  frame; a length prefix of zero or above four mebibytes is refused whatever follows.
\<close>
theorem frame_roundtrip:
  assumes "write_frame to_vec [] v = Inr out" "to_vec v = Some body" "body \<noteq> []" "from_slice body = Some v"
    and "len = 0 \<or> MAX_FRAME_BYTES < len"
  shows "read_frame from_slice (out @ rest) = Inr (v, rest) \<and>
    read_frame from_slice (be32 len @ rest) = Inl InvalidData"
proof -
  have len: "length body < 2 ^ 32" "(of_nat (length body) :: u32) \<le> MAX_FRAME_BYTES"
    and out: "out = be32 (of_nat (length body)) @ body"
    using assms(1,2) by (simp_all add: write_frame_def split: if_splits)
  have unat: "unat (of_nat (length body) :: u32) = length body"
    using len(1) by (simp add: unat_of_nat)
  then have "(of_nat (length body) :: u32) \<noteq> 0" using assms(3) by (metis length_0_conv unat_0)
  with len(2) unat assms(4) have "read_frame from_slice (out @ rest) = Inr (v, rest)"
    by (simp add: read_frame_def read_exact_def out Let_def not_less)
  moreover have "read_frame from_slice (be32 len @ rest) = Inl InvalidData"
    using assms(5) by (simp add: read_frame_def read_exact_def Let_def)
  ultimately show ?thesis ..
qed

theorem frame_roundtrip_witness:
  "read_frame (\<lambda>b. if b = [9] then Some True else None) (be32 1 @ [9] @ [1, 2]) = Inr (True, [1, 2])"
  using frame_roundtrip [of "\<lambda>_. Some [9]" True "be32 1 @ [9]" "[9]" "\<lambda>b. if b = [9] then Some True else None" 0 "[1, 2]"]
  by (simp add: write_frame_def MAX_FRAME_BYTES_def)

subsection \<open>Runs\<close>

text \<open>
  The grant-status answers a request obtains, with the grant and the instant; a run of the broker from a
  start with no leases, with the answers so far, newest first. The service may answer differently every
  time, and instants never go back.
\<close>

type_synonym answers = "(uuid \<times> instant \<times> GrantStatusOutcome) list"

definition request_answers ::
  "crypto_lib \<Rightarrow> token_lib \<Rightarrow> grant_status_client \<Rightarrow> string \<Rightarrow> string \<Rightarrow> BrokerRequest \<Rightarrow> instant \<Rightarrow> instant \<Rightarrow>
   's BrokerContext \<Rightarrow> answers" where
  "request_answers E T gs handle cnf req now now' ctx =
     (case verify_skipping_time E T (br_token req) (k1_verify_key ctx) Broker handle cnf of
        Inl _ \<Rightarrow> []
      | Inr v \<Rightarrow>
          (if decide (lease_of ctx (vt_grant_id v)) now (vt_exp v) (lease_cfg ctx) = ReconfirmRequired
           then [(vt_grant_id v, now', gs (vt_grant_id v) handle cnf)] else []))"

inductive broker_run :: "crypto_lib \<Rightarrow> token_lib \<Rightarrow> LeaseConfig \<Rightarrow> answers \<Rightarrow> 's BrokerContext \<Rightarrow> bool" for E T cfg where
  start: "leases ctx = Map.empty \<Longrightarrow> lease_cfg ctx = cfg \<Longrightarrow> broker_run E T cfg [] ctx"
| request: "broker_run E T cfg tr ctx \<Longrightarrow> (\<forall>(_, t, _) \<in> set tr. t \<le> now) \<Longrightarrow> now \<le> now' \<Longrightarrow>
     handle_request E T gs handle cnf req now now' ctx = (resp, ctx') \<Longrightarrow>
     broker_run E T cfg (request_answers E T gs handle cnf req now now' ctx @ tr) ctx'"

definition grant_history :: "uuid \<Rightarrow> answers \<Rightarrow> history" where
  "grant_history g tr = map snd (filter (\<lambda>(g', _). g' = g) tr)"

lemma request_effect:
  assumes "handle_request E T gs handle cnf req now now' ctx = (resp, ctx')"
  shows "lease_cfg ctx' = lease_cfg ctx"
    and "verify_skipping_time E T (br_token req) (k1_verify_key ctx) Broker handle cnf = Inl e \<Longrightarrow>
      leases ctx' = leases ctx \<and> keys ctx' = keys ctx \<and> resp = op_err ''unauthorized''"
    and "verify_skipping_time E T (br_token req) (k1_verify_key ctx) Broker handle cnf = Inr v \<Longrightarrow>
      leases ctx' = (leases ctx)(vt_grant_id v \<mapsto>
        snd (check_grant gs (lease_cfg ctx) (lease_of ctx (vt_grant_id v)) v handle cnf now now')) \<and>
      (if fst (check_grant gs (lease_cfg ctx) (lease_of ctx (vt_grant_id v)) v handle cnf now now') = Serve
       then (resp, keys ctx') = handle_op (bc_keystore ctx) handle (keys ctx) (br_op req)
       else keys ctx' = keys ctx \<and> (\<exists>c. resp = op_err c))"
  using assms
  by (auto simp: handle_request_def Let_def split: sum.splits prod.splits Decision.splits FailReason.splits)

lemma check_grant_use_gate:
  "check_grant gs cfg l v handle cnf now now' =
     lease_gate.use_gate cfg l now (gs (vt_grant_id v) handle cnf) now' (vt_exp v)"
  by (simp add: check_grant_def lease_gate.use_gate_def split: Decision.split)

lemma grant_history_append [simp]: "grant_history g (a @ tr) = grant_history g a @ grant_history g tr"
  by (simp add: grant_history_def)

lemma grant_history_simps [simp]:
  "grant_history g [] = []"
  "grant_history g ((g', t, out) # tr) = (if g' = g then (t, out) # grant_history g tr else grant_history g tr)"
  by (simp_all add: grant_history_def)

lemma grant_history_mem: "(t, out) \<in> set (grant_history g tr) \<longleftrightarrow> (g, t, out) \<in> set tr"
  by (auto simp: grant_history_def image_iff)

text \<open>Every lease of a run is a run of the lease machine on the answers for its grant.\<close>

lemma broker_run_leases:
  "broker_run E T cfg tr ctx \<Longrightarrow> lease_cfg ctx = cfg \<and> (\<forall>g. lease_run cfg (grant_history g tr) (lease_of ctx g))"
proof (induction rule: broker_run.induct)
  case (start ctx)
  then show ?case by (simp add: lease_of_def lease_run.cold)
next
  case (request tr ctx now now' gs handle cnf req resp ctx')
  note eff = request_effect [OF request.hyps(4)]
  have cfg: "lease_cfg ctx = cfg" using request.IH by simp
  show ?case
  proof (cases "verify_skipping_time E T (br_token req) (k1_verify_key ctx) Broker handle cnf")
    case (Inl e)
    with request.IH eff(1) eff(2) [OF Inl] show ?thesis by (simp add: request_answers_def lease_of_def)
  next
    case (Inr v)
    define g0 where "g0 = vt_grant_id v"
    define l where "l = lease_of ctx g0"
    have leases: "leases ctx' = (leases ctx)(g0 \<mapsto> snd (check_grant gs cfg l v handle cnf now now'))"
      using eff(3) [OF Inr] cfg by (simp add: g0_def l_def)
    have run: "lease_run cfg (grant_history g tr) (lease_of ctx g)" for g using request.IH by simp
    have times: "\<forall>(t, _) \<in> set (grant_history g0 tr). t \<le> now'"
      using request.hyps(2,3) by (fastforce simp: grant_history_mem)
    have "lease_run cfg (grant_history g0 (request_answers E T gs handle cnf req now now' ctx @ tr))
        (snd (check_grant gs cfg l v handle cnf now now'))"
    proof (cases "decide l now (vt_exp v) cfg = ReconfirmRequired")
      case True
      have "lease_run cfg ((now', gs g0 handle cnf) # grant_history g0 tr)
          (snd (on_grant_status l (gs g0 handle cnf) now' (vt_exp v) cfg))"
        by (rule lease_run.answer [OF run [of g0, folded l_def] times prod.collapse [symmetric]])
      with True Inr cfg show ?thesis by (simp add: request_answers_def check_grant_def g0_def l_def)
    next
      case False
      with run [of g0] Inr cfg show ?thesis
        by (simp add: request_answers_def check_grant_def g0_def l_def split: Decision.split)
    qed
    moreover have "grant_history g (request_answers E T gs handle cnf req now now' ctx @ tr) = grant_history g tr"
      if "g \<noteq> g0" for g using Inr that by (simp add: request_answers_def g0_def)
    ultimately show ?thesis using leases run eff(1) cfg by (simp add: lease_of_def)
  qed
qed

lemma last_live_mem: "last_live h = Some t \<Longrightarrow> \<exists>s sla. (t, Live s sla) \<in> set h"
  by (induction h rule: last_live.induct) (auto split: if_splits)

lemma last_confirm_in_trace:
  assumes "broker_run E T cfg tr ctx" "map_option confirm_at (last_confirm (lease_of ctx g)) = Some at"
  shows "\<exists>s sla. (g, at, Live s sla) \<in> set tr"
proof -
  have "run_inv cfg (grant_history g tr) (lease_of ctx g)"
    using broker_run_leases [OF assms(1)] by (auto intro: lease_run_inv)
  then have "map_option confirm_at (last_confirm (lease_of ctx g)) = last_live (grant_history g tr)"
    by (simp only: run_inv_def)
  with assms(2) have "last_live (grant_history g tr) = Some at" by (simp only:)
  from last_live_mem [OF this] show ?thesis by (simp add: grant_history_mem)
qed

text \<open>
  C7: in every run of the broker from its start, a request is executed on the keystore, or answered with
  anything but an error, only if its token verifies against the certificate of this very connection and
  the broker's audience, and the grant it names was confirmed live: by the answer to this request, or by an
  earlier answer for the same grant less than the deployment's lease plus grace ago. The operation then
  runs under the handle of the certificate.
\<close>
theorem served_only_with_live_grant:
  assumes run: "broker_run E T cfg tr ctx" and "now \<le> now'"
    and req: "handle_request E T gs handle cnf req now now' ctx = (resp, ctx')"
    and served: "keys ctx' \<noteq> keys ctx \<or> (\<exists>ok. resp = RespOk ok)"
  shows "\<exists>claims g. token_binds E T (br_token req) (k1_verify_key ctx) Broker handle cnf claims \<and>
    uuid_parse T (c_grant_id claims) = Some g \<and>
    ((\<exists>t sla. gs g handle cnf = Live t sla) \<or>
     (\<exists>at t sla. (g, at, Live t sla) \<in> set tr \<and> now - at < lease cfg + outage_grace cfg)) \<and>
    (resp, keys ctx') = handle_op (bc_keystore ctx) handle (keys ctx) (br_op req)"
proof -
  note eff = request_effect [OF req]
  have cfg: "lease_cfg ctx = cfg" using broker_run_leases [OF run] by simp
  obtain v where v: "verify_skipping_time E T (br_token req) (k1_verify_key ctx) Broker handle cnf = Inr v"
    using served eff(2) by (cases "verify_skipping_time E T (br_token req) (k1_verify_key ctx) Broker handle cnf")
      (auto simp: op_err_def)
  let ?l = "lease_of ctx (vt_grant_id v)"
  have serve: "fst (check_grant gs cfg ?l v handle cnf now now') = Serve"
    and op: "(resp, keys ctx') = handle_op (bc_keystore ctx) handle (keys ctx) (br_op req)"
    using eff(3) [OF v] served cfg by (auto simp: op_err_def split: if_splits)
  have "lease_ok cfg ?l"
    using broker_run_leases [OF run] lease_run_inv by (auto simp: run_inv_def)
  from lease_gate.use_gate_serves [OF this serve [unfolded check_grant_use_gate] assms(2)]
  have "(\<exists>t sla. gs (vt_grant_id v) handle cnf = Live t sla) \<or>
      (\<exists>at t sla. (vt_grant_id v, at, Live t sla) \<in> set tr \<and> now - at < lease cfg + outage_grace cfg)"
    using last_confirm_in_trace [OF run] by blast
  with verify_skipping_time_binds [OF v] op show ?thesis by blast
qed

text \<open>
  a request changes at most the lease of the grant its token names; a request whose token does not
  verify changes nothing and is answered as unauthorized; and the grant check always resolves, so the
  broker's internal-error answer never occurs.
\<close>
theorem request_isolation:
  assumes "handle_request E T gs handle cnf req now now' ctx = (resp, ctx')"
    and "\<forall>v. verify_skipping_time E T (br_token req) (k1_verify_key ctx) Broker handle cnf = Inr v \<longrightarrow> vt_grant_id v \<noteq> g"
  shows "leases ctx' g = leases ctx g \<and>
    (\<forall>e. verify_skipping_time E T (br_token req) (k1_verify_key ctx) Broker handle cnf = Inl e \<longrightarrow>
       ctx' = ctx \<and> resp = op_err ''unauthorized'') \<and>
    fst (check_grant gs cfg l v handle cnf now now') \<noteq> ReconfirmRequired"
proof -
  have "leases ctx' g = leases ctx g"
    using assms(2) request_effect [OF assms(1)]
    by (cases "verify_skipping_time E T (br_token req) (k1_verify_key ctx) Broker handle cnf") auto
  moreover have "ctx' = ctx \<and> resp = op_err ''unauthorized''"
    if "verify_skipping_time E T (br_token req) (k1_verify_key ctx) Broker handle cnf = Inl e" for e
    using assms(1) that by (auto simp: handle_request_def)
  ultimately show ?thesis
    using lease_gate.use_gate_resolves by (simp add: check_grant_use_gate)
qed

definition demo_context :: "unit BrokerContext" where
  "demo_context = \<lparr> k1_verify_key = p256_public demo_url_lib (replicate 32 7), lease_cfg = default_lease_config,
     bc_keystore = demo_keystore, keys = (), leases = Map.empty \<rparr>"

definition demo_status :: grant_status_client where
  "demo_status = (\<lambda>_ _ _. Live 1000 None)"

lemma demo_broker_start: "broker_run E T default_lease_config [] demo_context"
  by (rule broker_run.start) (simp_all add: demo_context_def)

lemma demo_served:
  "\<exists>ctx'. handle_request demo_url_lib demo_tokens demo_status ''ada'' ''t'' \<lparr> br_token = demo_jws, br_op = OpIdentity \<rparr> 5 6
     demo_context = (RespOk (OkIdentity (Some ''ada'')), ctx')"
proof -
  have "check_grant demo_status default_lease_config new_lease
      \<lparr> vt_sub = ''ada'', vt_grant_id = utf8 ''k'', vt_jti = ''k'', vt_exp = 1600 \<rparr> ''ada'' ''t'' 5 6 =
      (Serve, snd (on_grant_status new_lease (Live 1000 None) 6 1600 default_lease_config))"
    by (simp add: check_grant_def decide_def new_lease_def demo_status_def on_grant_status_def Let_def effective_def
        token_exp_decision_def trusted_now_def default_lease_config_def from_secs_def as_secs_def saturating_add_def
        u64_as_i64_def i64_min_def i64_max_def)
  then show ?thesis
    using demo_token_verifies by (simp add: handle_request_def demo_context_def lease_of_def handle_op_def)
qed

theorem served_only_with_live_grant_witness:
  "\<exists>claims g. token_binds demo_url_lib demo_tokens demo_jws (p256_public demo_url_lib (replicate 32 7)) Broker ''ada'' ''t'' claims \<and>
     uuid_parse demo_tokens (c_grant_id claims) = Some g \<and> (\<exists>t sla. demo_status g ''ada'' ''t'' = Live t sla)"
proof -
  obtain ctx' where req: "handle_request demo_url_lib demo_tokens demo_status ''ada'' ''t''
      \<lparr> br_token = demo_jws, br_op = OpIdentity \<rparr> 5 6 demo_context = (RespOk (OkIdentity (Some ''ada'')), ctx')"
    using demo_served by blast
  show ?thesis
    using served_only_with_live_grant [OF demo_broker_start _ req] by (auto simp: demo_context_def demo_status_def)
qed

lemma demo_refused:
  "handle_request demo_url_lib demo_tokens demo_status ''ada'' ''t'' \<lparr> br_token = ''x'', br_op = OpIdentity \<rparr> 5 6
     demo_context = (op_err ''unauthorized'', demo_context)"
  by (simp add: handle_request_def verify_skipping_time_def verify_structural_def)

theorem request_isolation_witness:
  "leases demo_context (utf8 ''k'') = leases demo_context (utf8 ''k'') \<and>
   fst (check_grant demo_status default_lease_config new_lease
     \<lparr> vt_sub = [], vt_grant_id = [], vt_jti = [], vt_exp = 0 \<rparr> ''ada'' ''t'' 5 6) \<noteq> ReconfirmRequired"
proof -
  have "\<forall>v. verify_skipping_time demo_url_lib demo_tokens (br_token \<lparr> br_token = ''x'', br_op = OpIdentity \<rparr>)
      (k1_verify_key demo_context) Broker ''ada'' ''t'' = Inr v \<longrightarrow> vt_grant_id v \<noteq> utf8 ''k''"
    by (simp add: verify_skipping_time_def verify_structural_def)
  from request_isolation [OF demo_refused this] show ?thesis by blast
qed

end
