(* ===== verification/Json_Values.thy ===== *)
theory Json_Values
  imports Crypto_Base Rust_Std "HOL-Library.Multiset"
begin

section \<open>JSON values\<close>

text \<open>
  The interface of \<^verbatim>\<open>serde_json::Value\<close> that the sources use, a parameter: the type of values and one
  function for each accessor, with the laws \<open>json_correct\<close> that theorems rely on, an instance of them, and
  the two conversions of \<^verbatim>\<open>crypto/src/pubkey.rs\<close> between a P-256 public key and its JWK object.
\<close>

record 'j json_lib =
  j_get :: "'j \<Rightarrow> string \<Rightarrow> 'j option"
  j_str :: "'j \<Rightarrow> string option"
  j_i64 :: "'j \<Rightarrow> int option"
  j_u64 :: "'j \<Rightarrow> nat option"
  j_bool :: "'j \<Rightarrow> bool option"
  j_array :: "'j \<Rightarrow> 'j list option"
  j_is_null :: "'j \<Rightarrow> bool"
  j_object :: "(string \<times> 'j) list \<Rightarrow> 'j"
  j_string :: "string \<Rightarrow> 'j"
  j_from_slice :: "bytes \<Rightarrow> 'j option"
  j_entries :: "'j \<Rightarrow> (string \<times> 'j) list option"
  j_number :: "nat \<Rightarrow> 'j"
  j_null :: "'j"
  j_set :: "'j \<Rightarrow> string \<Rightarrow> 'j \<Rightarrow> 'j"
  j_from_str :: "string \<Rightarrow> 'j option"
  j_to_pretty :: "'j \<Rightarrow> string option"

definition get_str :: "'j json_lib \<Rightarrow> 'j \<Rightarrow> string \<Rightarrow> string option" where
  "get_str J v k = Option.bind (j_get J v k) (j_str J)"

definition get_u64 :: "'j json_lib \<Rightarrow> 'j \<Rightarrow> string \<Rightarrow> nat option" where
  "get_u64 J v k = Option.bind (j_get J v k) (j_u64 J)"

definition get_i64 :: "'j json_lib \<Rightarrow> 'j \<Rightarrow> string \<Rightarrow> int option" where
  "get_i64 J v k = Option.bind (j_get J v k) (j_i64 J)"

definition get_bool :: "'j json_lib \<Rightarrow> 'j \<Rightarrow> string \<Rightarrow> bool option" where
  "get_bool J v k = Option.bind (j_get J v k) (j_bool J)"

definition get_array :: "'j json_lib \<Rightarrow> 'j \<Rightarrow> string \<Rightarrow> 'j list option" where
  "get_array J v k = Option.bind (j_get J v k) (j_array J)"

text \<open>A member that is absent or null: \<^verbatim>\<open>None | Some(Value::Null)\<close>.\<close>

definition absent_or_null :: "'j json_lib \<Rightarrow> 'j \<Rightarrow> string \<Rightarrow> bool" where
  "absent_or_null J v k = (case j_get J v k of None \<Rightarrow> True | Some x \<Rightarrow> j_is_null J x)"

definition json_correct :: "'j json_lib \<Rightarrow> bool" where
  "json_correct J \<longleftrightarrow>
     (\<forall>kvs k. distinct (map fst kvs) \<longrightarrow> j_get J (j_object J kvs) k = map_of kvs k) \<and>
     (\<forall>s. j_str J (j_string J s) = Some s)"

text \<open>
  \<open>json_doc_correct\<close>: what is written into an object is read back, and the text of a value parses to it.
\<close>

definition json_doc_correct :: "'j json_lib \<Rightarrow> bool" where
  "json_doc_correct J \<longleftrightarrow> json_correct J \<and>
     (\<forall>kvs. distinct (map fst kvs) \<longrightarrow> (\<exists>ps. j_entries J (j_object J kvs) = Some ps \<and> mset ps = mset kvs)) \<and>
     (\<forall>v ps k x. j_entries J v = Some ps \<longrightarrow> j_get J (j_set J v k x) k = Some x \<and>
        (\<forall>k'. k' \<noteq> k \<longrightarrow> j_get J (j_set J v k x) k' = j_get J v k')) \<and>
     (\<forall>n. n < 2 ^ 64 \<longrightarrow> j_u64 J (j_number J n) = Some n) \<and>
     (\<forall>x. j_is_null J x \<longleftrightarrow> x = j_null J) \<and> (\<forall>k. j_get J (j_null J) k = None) \<and> j_u64 J (j_null J) = None \<and>
     (\<forall>v t. j_to_pretty J v = Some t \<longrightarrow> j_from_str J t = Some v)"

subsection \<open>Public keys as JWK objects\<close>

definition jwk :: "crypto_lib \<Rightarrow> 'j json_lib \<Rightarrow> bytes \<Rightarrow> 'j crypto_result" where
  "jwk E J pubkey_x963 =
     (if length pubkey_x963 \<noteq> 65 \<or> pubkey_x963 ! 0 \<noteq> 0x04 then Inl (InvalidInput ''x9.63 uncompressed point'')
      else Inr (j_object J
        [(''kty'', j_string J ''EC''), (''crv'', j_string J ''P-256''),
         (''x'', j_string J (b64_encode E (take 32 (drop 1 pubkey_x963)))),
         (''y'', j_string J (b64_encode E (take 32 (drop 33 pubkey_x963))))]))"

definition x963_from_jwk :: "crypto_lib \<Rightarrow> 'j json_lib \<Rightarrow> 'j \<Rightarrow> bytes crypto_result" where
  "x963_from_jwk E J v =
     (if get_str J v ''kty'' \<noteq> Some ''EC'' \<or> get_str J v ''crv'' \<noteq> Some ''P-256''
      then Inl (InvalidInput ''jwk must be EC P-256'')
      else
        rbind (ok_or (InvalidInput ''jwk missing x'') (get_str J v ''x'')) (\<lambda>x.
        rbind (ok_or (InvalidInput ''jwk missing y'') (get_str J v ''y'')) (\<lambda>y.
        rbind (ok_or (InvalidInput ''jwk x base64url'') (b64_decode E x)) (\<lambda>xb.
        rbind (ok_or (InvalidInput ''jwk y base64url'') (b64_decode E y)) (\<lambda>yb.
        if length xb \<noteq> 32 \<or> length yb \<noteq> 32 then Inl (InvalidInput ''jwk coordinates must be 32 bytes'')
        else
          let point = 0x04 # xb @ yb in
          rbind (ok_or (InvalidInput ''jwk not on curve'') (p256_decode E point)) (\<lambda>_. Inr point))))))"

text \<open>
  a P-256 public key written as a JWK object is read back as the same point.
\<close>
theorem jwk_roundtrip:
  assumes "b64_correct E" "json_correct J" "p256_decode E p = Some p" "jwk E J p = Inr v"
  shows "x963_from_jwk E J v = Inr p"
proof -
  have p: "length p = 65" "p ! 0 = 0x04" using assms(4) by (auto simp: jwk_def split: if_splits)
  then have eq: "p = 0x04 # take 32 (drop 1 p) @ take 32 (drop 33 p)"
    using append_take_drop_id [of 32 "drop 1 p"] by (cases p) auto
  have v: "v = j_object J [(''kty'', j_string J ''EC''), (''crv'', j_string J ''P-256''),
      (''x'', j_string J (b64_encode E (take 32 (drop 1 p)))), (''y'', j_string J (b64_encode E (take 32 (drop 33 p))))]"
    using assms(4) p by (simp add: jwk_def)
  have "get_str J v ''kty'' = Some ''EC''" "get_str J v ''crv'' = Some ''P-256''"
    "get_str J v ''x'' = Some (b64_encode E (take 32 (drop 1 p)))"
    "get_str J v ''y'' = Some (b64_encode E (take 32 (drop 33 p)))"
    using assms(2) by (simp_all add: v get_str_def json_correct_def)
  then show ?thesis using assms(1,3) p eq [symmetric] by (simp add: x963_from_jwk_def Let_def)
qed

subsection \<open>An instance\<close>

datatype demo_json = DNull | DBool bool | DInt int | DStr string | DArr "demo_json list" | DObj "(string \<times> demo_json) list"

fun demo_get :: "demo_json \<Rightarrow> string \<Rightarrow> demo_json option" where
  "demo_get (DObj kvs) k = map_of kvs k"
| "demo_get _ k = None"

definition demo_jsons :: "demo_json json_lib" where
  "demo_jsons = \<lparr> j_get = demo_get, j_str = (\<lambda>v. case v of DStr s \<Rightarrow> Some s | _ \<Rightarrow> None),
     j_i64 = (\<lambda>v. case v of DInt i \<Rightarrow> Some i | _ \<Rightarrow> None),
     j_u64 = (\<lambda>v. case v of DInt i \<Rightarrow> if 0 \<le> i then Some (nat i) else None | _ \<Rightarrow> None),
     j_bool = (\<lambda>v. case v of DBool b \<Rightarrow> Some b | _ \<Rightarrow> None),
     j_array = (\<lambda>v. case v of DArr vs \<Rightarrow> Some vs | _ \<Rightarrow> None),
     j_is_null = (\<lambda>v. v = DNull), j_object = DObj, j_string = DStr, j_from_slice = (\<lambda>_. None),
     j_entries = (\<lambda>v. case v of DObj kvs \<Rightarrow> Some kvs | _ \<Rightarrow> None), j_number = (\<lambda>n. DInt (int n)), j_null = DNull,
     j_set = (\<lambda>v k x. case v of DObj kvs \<Rightarrow> DObj ((k, x) # filter (\<lambda>p. fst p \<noteq> k) kvs) | _ \<Rightarrow> v),
     j_from_str = (\<lambda>_. None), j_to_pretty = (\<lambda>_. None) \<rparr>"

lemma demo_json_correct: "json_correct demo_jsons"
  by (simp add: json_correct_def demo_jsons_def)

lemma map_of_filter_other: "k' \<noteq> k \<Longrightarrow> map_of (filter (\<lambda>p. fst p \<noteq> k) kvs) k' = map_of kvs k'"
  by (induction kvs) auto

text \<open>\<open>demo_docs\<close> adds a document and its text, so that a file can be written and read.\<close>

definition demo_docs :: "demo_json \<Rightarrow> string \<Rightarrow> demo_json json_lib" where
  "demo_docs doc text = demo_jsons\<lparr> j_from_str := (\<lambda>t. if t = text then Some doc else None),
     j_to_pretty := (\<lambda>v. if v = doc then Some text else None) \<rparr>"

lemma demo_docs_correct: "json_doc_correct (demo_docs doc text)"
proof -
  have "json_correct (demo_docs doc text)"
    by (simp add: json_correct_def demo_docs_def demo_jsons_def)
  moreover have "j_get (demo_docs doc text) (j_set (demo_docs doc text) v k x) k = Some x \<and>
      (\<forall>k'. k' \<noteq> k \<longrightarrow> j_get (demo_docs doc text) (j_set (demo_docs doc text) v k x) k' = j_get (demo_docs doc text) v k')"
    if "j_entries (demo_docs doc text) v = Some ps" for v ps k x
    using that by (cases v) (simp_all add: demo_docs_def demo_jsons_def map_of_filter_other)
  ultimately show ?thesis unfolding json_doc_correct_def
    by (intro conjI) (simp_all add: demo_docs_def demo_jsons_def split: if_splits)
qed

theorem jwk_roundtrip_witness:
  "\<exists>v. jwk demo_lib demo_jsons (0x04 # replicate 64 3) = Inr v \<and>
     x963_from_jwk demo_lib demo_jsons v = Inr (0x04 # replicate 64 3)"
proof -
  obtain v where v: "jwk demo_lib demo_jsons (0x04 # replicate 64 3) = Inr v" by (simp add: jwk_def)
  have "p256_decode demo_lib (0x04 # replicate 64 3) = Some (0x04 # replicate 64 3)" by (simp add: demo_lib_def)
  from jwk_roundtrip [OF demo_lib_correct(5) demo_json_correct this v] v show ?thesis by blast
qed

end
