(* ===== verification/Wire_Keystores.thy ===== *)
theory Wire_Keystores
  imports Host_Signer Json_Values
begin

section \<open>Keystores that act over a wire\<close>

text \<open>
  \<^verbatim>\<open>cli/src/keystore/{delegated,broker}.rs\<close>: the two backends that hold no key and forward every operation.
  Their methods differ only in the transport, so each is defined once over a transport, a function that
  sends one operation and returns its result with the new state of the backend. \<open>delegated_request\<close> is the
  transport of the delegation channel (the outcome of the exchange is an argument), \<open>perform_op\<close> the one of
  the broker, with its token renewals and its recoveries; the record \<open>broker_world\<close> holds what those do
  outside the process: one wire exchange, minting a token, saving the credential, and a signed pickup that
  replaces it.
\<close>

type_synonym 'w transport = "'w \<Rightarrow> Op \<Rightarrow> OpOk cli_result \<times> 'w"

definition wire_meta_from :: "string \<Rightarrow> string \<Rightarrow> string \<Rightarrow> string \<Rightarrow> bytes \<Rightarrow> KeyMeta" where
  "wire_meta_from label purpose algorithm fp public_key =
     \<lparr> km_label = label, km_purpose = purpose, km_algorithm = algorithm, km_storage = tier_as_str SecureEnclave,
       km_fingerprint = fp, km_public_key = public_key \<rparr>"

definition unexpected :: "OpOk \<Rightarrow> CliError" where
  "unexpected ok = generic"

definition wire_op :: "'w transport \<Rightarrow> 'w \<Rightarrow> Op \<Rightarrow> (OpOk \<Rightarrow> 'a cli_result) \<Rightarrow> 'a cli_result \<times> 'w" where
  "wire_op request w op k =
     (case request w op of (Inl e, w) \<Rightarrow> (Inl e, w) | (Inr ok, w) \<Rightarrow> (k ok, w))"

definition wire_generate :: "'w transport \<Rightarrow> 'w \<Rightarrow> KeyLabel \<Rightarrow> string \<Rightarrow> KeyMeta cli_result \<times> 'w" where
  "wire_generate request w label algorithm =
     wire_op request w (OpKeygen (full label) algorithm) (\<lambda>ok.
       case ok of
         OkKeygen public_key fp alg \<Rightarrow>
           Inr (wire_meta_from (full label) (purpose_as_str (label_purpose label)) alg fp public_key)
       | other \<Rightarrow> Inl (unexpected other))"

definition wire_meta :: "'w transport \<Rightarrow> 'w \<Rightarrow> KeyLabel \<Rightarrow> KeyMeta cli_result \<times> 'w" where
  "wire_meta request w label =
     wire_op request w (OpMeta (full label)) (\<lambda>ok.
       case ok of
         OkMeta public_key fp alg purpose \<Rightarrow> Inr (wire_meta_from (full label) purpose alg fp public_key)
       | other \<Rightarrow> Inl (unexpected other))"

definition wire_sign :: "'w transport \<Rightarrow> 'w \<Rightarrow> KeyLabel \<Rightarrow> bytes \<Rightarrow> bytes cli_result \<times> 'w" where
  "wire_sign request w label msg =
     wire_op request w (OpSign (full label) msg) (\<lambda>ok.
       case ok of
         OkSign signature \<Rightarrow> if length signature = 64 then Inr signature else Inl generic
       | other \<Rightarrow> Inl (unexpected other))"

definition wire_ecdh :: "'w transport \<Rightarrow> 'w \<Rightarrow> KeyLabel \<Rightarrow> bytes \<Rightarrow> bytes cli_result \<times> 'w" where
  "wire_ecdh request w label peer_pub_x963 =
     wire_op request w (OpEcdh (full label) peer_pub_x963) (\<lambda>ok.
       case ok of
         OkEcdh shared_secret \<Rightarrow> if length shared_secret = 32 then Inr shared_secret else Inl generic
       | other \<Rightarrow> Inl (unexpected other))"

definition wire_ml_kem_decapsulate :: "'w transport \<Rightarrow> 'w \<Rightarrow> KeyLabel \<Rightarrow> bytes \<Rightarrow> bytes cli_result \<times> 'w" where
  "wire_ml_kem_decapsulate request w label ek =
     wire_op request w (OpMlKemDecapsulate (full label) ek) (\<lambda>ok.
       case ok of
         OkMlKemDecapsulate shared_secret \<Rightarrow> if length shared_secret = 32 then Inr shared_secret else Inl generic
       | other \<Rightarrow> Inl (unexpected other))"

definition wire_ml_dsa_sign :: "'w transport \<Rightarrow> 'w \<Rightarrow> KeyLabel \<Rightarrow> bytes \<Rightarrow> bytes \<Rightarrow> bytes cli_result \<times> 'w" where
  "wire_ml_dsa_sign request w label msg ctx =
     (case validate_mldsa_ctx ctx of
        Inl e \<Rightarrow> (Inl e, w)
      | Inr _ \<Rightarrow>
          wire_op request w (OpMlDsaSign (full label) msg ctx) (\<lambda>ok.
            case ok of
              OkMlDsaSign signature \<Rightarrow> if length signature \<noteq> ML_DSA_87_SIG_LEN then Inl generic else Inr signature
            | other \<Rightarrow> Inl (unexpected other)))"

definition wire_list :: "'w transport \<Rightarrow> 'w \<Rightarrow> KeyMeta list cli_result \<times> 'w" where
  "wire_list request w =
     wire_op request w OpList (\<lambda>ok.
       case ok of
         OkList entries \<Rightarrow>
           Inr (map (\<lambda>k. wire_meta_from (ke_label k) (ke_purpose k) (ke_algorithm k) (ke_fingerprint k) (ke_public_key k)) entries)
       | other \<Rightarrow> Inl (unexpected other))"

definition wire_delete :: "'w transport \<Rightarrow> 'w \<Rightarrow> KeyLabel \<Rightarrow> unit cli_result \<times> 'w" where
  "wire_delete request w label =
     wire_op request w (OpDelete (full label)) (\<lambda>ok. case ok of OkDelete \<Rightarrow> Inr () | other \<Rightarrow> Inl (unexpected other))"

definition wire_exists :: "'w transport \<Rightarrow> 'w \<Rightarrow> KeyLabel \<Rightarrow> bool cli_result \<times> 'w" where
  "wire_exists request w label =
     wire_op request w (OpExists (full label)) (\<lambda>ok. case ok of OkExists b \<Rightarrow> Inr b | other \<Rightarrow> Inl (unexpected other))"

definition pinned_identity :: "'w transport \<Rightarrow> 'w \<Rightarrow> string option cli_result \<times> 'w" where
  "pinned_identity request w =
     wire_op request w OpIdentity (\<lambda>ok. case ok of OkIdentity h \<Rightarrow> Inr h | other \<Rightarrow> Inl (unexpected other))"

subsection \<open>Over the delegation channel\<close>

fun channel_err :: "ChannelError \<Rightarrow> CliError" where
  "channel_err Timeout = new_error 30 ''network_error''"
| "channel_err Auth = authentication_failed"
| "channel_err _ = generic"

definition delegated_request :: "('w \<Rightarrow> Op \<Rightarrow> Response channel_result \<times> 'w) \<Rightarrow> 'w transport" where
  "delegated_request exchange w op =
     (case exchange w op of
        (Inl e, w) \<Rightarrow> (Inl (channel_err e), w)
      | (Inr (RespOk ok), w) \<Rightarrow> (Inr ok, w)
      | (Inr (RespErr e), w) \<Rightarrow> (Inl (cli_error_from_wire (err_code e)), w))"

subsection \<open>Over the broker\<close>

definition RENEW_MARGIN_SECS :: int where "RENEW_MARGIN_SECS = 120"

definition token_exp :: "crypto_lib \<Rightarrow> 'j json_lib \<Rightarrow> string \<Rightarrow> int option" where
  "token_exp E J jws =
     (case split_on CHR ''.'' jws of
        _ # payload_b64 # _ \<Rightarrow>
          Option.bind (b64_decode E payload_b64) (\<lambda>payload.
          Option.bind (j_from_slice J payload) (\<lambda>v.
          Option.bind (j_get J v ''exp'') (j_i64 J)))
      | _ \<Rightarrow> None)"

definition token_near_expiry :: "crypto_lib \<Rightarrow> 'j json_lib \<Rightarrow> int \<Rightarrow> string \<Rightarrow> bool" where
  "token_near_expiry E J now jws =
     (case token_exp E J jws of Some e \<Rightarrow> wrap_i64 (e - now) < RENEW_MARGIN_SECS | None \<Rightarrow> True)"

record ('w, 'c) broker_world =
  bw_now :: "'w \<Rightarrow> int"
  bw_perform :: "'w \<Rightarrow> 'c \<Rightarrow> string \<Rightarrow> Op \<Rightarrow> Response cli_result \<times> 'w"
  bw_request_token :: "'w \<Rightarrow> 'c \<Rightarrow> string cli_result \<times> 'w"
  bw_broker_token :: "'c \<Rightarrow> string option"
  bw_set_broker_token :: "'c \<Rightarrow> string \<Rightarrow> 'c"
  bw_save :: "'w \<Rightarrow> 'c \<Rightarrow> unit cli_result \<times> 'w"
  bw_repickup :: "'w \<Rightarrow> 'c \<Rightarrow> 'c cli_result \<times> 'w"

record ('w, 'c) BrokerKeystore =
  bk_cred :: 'c
  reauth_attempted :: bool
  bk_world :: 'w

definition ensure_broker_token ::
  "crypto_lib \<Rightarrow> 'j json_lib \<Rightarrow> ('w, 'c) broker_world \<Rightarrow> ('w, 'c) BrokerKeystore \<Rightarrow> bool \<Rightarrow>
   string cli_result \<times> ('w, 'c) BrokerKeystore" where
  "ensure_broker_token E J B self force =
     (let stale = (case bw_broker_token B (bk_cred self) of
                     None \<Rightarrow> True
                   | Some tok \<Rightarrow> token_near_expiry E J (bw_now B (bk_world self)) tok);
          present = (\<lambda>self. (ok_or generic (bw_broker_token B (bk_cred self)), self))
      in if force \<or> stale
         then (case bw_request_token B (bk_world self) (bk_cred self) of
                 (Inl e, w) \<Rightarrow> (Inl e, self\<lparr> bk_world := w \<rparr>)
               | (Inr token, w) \<Rightarrow>
                   (let self = self\<lparr> bk_world := w, bk_cred := bw_set_broker_token B (bk_cred self) token \<rparr>
                    in case bw_save B (bk_world self) (bk_cred self) of
                         (Inl e, w) \<Rightarrow> (Inl e, self\<lparr> bk_world := w \<rparr>)
                       | (Inr _, w) \<Rightarrow> present (self\<lparr> bk_world := w \<rparr>)))
         else present self)"

definition perform_wire ::
  "('w, 'c) broker_world \<Rightarrow> ('w, 'c) BrokerKeystore \<Rightarrow> string \<Rightarrow> Op \<Rightarrow> Response cli_result \<times> ('w, 'c) BrokerKeystore" where
  "perform_wire B self token op =
     (let (r, w) = bw_perform B (bk_world self) (bk_cred self) token op in (r, self\<lparr> bk_world := w \<rparr>))"

definition perform_op_inner ::
  "crypto_lib \<Rightarrow> 'j json_lib \<Rightarrow> ('w, 'c) broker_world \<Rightarrow> ('w, 'c) BrokerKeystore transport" where
  "perform_op_inner E J B self op =
     (case ensure_broker_token E J B self False of
        (Inl e, self) \<Rightarrow> (Inl e, self)
      | (Inr token, self) \<Rightarrow>
     (case perform_wire B self token op of
        (Inl e, self) \<Rightarrow> (Inl e, self)
      | (Inr (RespOk ok), self) \<Rightarrow> (Inr ok, self)
      | (Inr (RespErr e), self) \<Rightarrow>
          (if err_code e = ''token_expired'' \<or> err_code e = ''unauthorized''
           then (case ensure_broker_token E J B self True of
                   (Inl e, self) \<Rightarrow> (Inl e, self)
                 | (Inr token, self) \<Rightarrow>
                (case perform_wire B self token op of
                   (Inl e, self) \<Rightarrow> (Inl e, self)
                 | (Inr (RespOk ok), self) \<Rightarrow> (Inr ok, self)
                 | (Inr (RespErr e), self) \<Rightarrow> (Inl (cli_error_from_wire (err_code e)), self)))
           else (Inl (cli_error_from_wire (err_code e)), self))))"

datatype Recovery = PinRefresh | ReauthOnce | NoRecovery

definition recovery_for :: "string \<Rightarrow> bool \<Rightarrow> Recovery \<times> bool" where
  "recovery_for c attempted =
     (if c = ''broker_pin_mismatch'' then (PinRefresh, attempted)
      else if c = ''access_paused'' \<or> c = ''token_denied''
      then (if attempted then (NoRecovery, True) else (ReauthOnce, True))
      else (NoRecovery, attempted))"

definition repickup_and_reload ::
  "('w, 'c) broker_world \<Rightarrow> ('w, 'c) BrokerKeystore \<Rightarrow> unit cli_result \<times> ('w, 'c) BrokerKeystore" where
  "repickup_and_reload B self =
     (case bw_repickup B (bk_world self) (bk_cred self) of
        (Inl e, w) \<Rightarrow> (Inl e, self\<lparr> bk_world := w \<rparr>)
      | (Inr fresh, w) \<Rightarrow> (Inr (), self\<lparr> bk_world := w, bk_cred := fresh \<rparr>))"

definition perform_op ::
  "crypto_lib \<Rightarrow> 'j json_lib \<Rightarrow> ('w, 'c) broker_world \<Rightarrow> ('w, 'c) BrokerKeystore transport" where
  "perform_op E J B self op =
     (case perform_op_inner E J B self op of
        (Inr ok, self) \<Rightarrow> (Inr ok, self)
      | (Inl e, self) \<Rightarrow>
          (let (recovery, attempted) = recovery_for (code e) (reauth_attempted self);
               self = self\<lparr> reauth_attempted := attempted \<rparr>
           in case recovery of
                PinRefresh \<Rightarrow>
                  (case repickup_and_reload B self of
                     (Inl e', self) \<Rightarrow> (Inl e', self)
                   | (Inr _, self) \<Rightarrow> perform_op_inner E J B self op)
              | ReauthOnce \<Rightarrow>
                  (case repickup_and_reload B self of
                     (Inl _, self) \<Rightarrow> (Inl e, self)
                   | (Inr _, self) \<Rightarrow> perform_op_inner E J B self op)
              | NoRecovery \<Rightarrow> (Inl e, self)))"

subsection \<open>Delegating is the same as operating\<close>

text \<open>The exchange of a channel pinned to \<open>h\<close>, when nothing is lost: the host-signer's answer.\<close>

definition relay :: "'s keystore \<Rightarrow> string \<Rightarrow> 's \<Rightarrow> Op \<Rightarrow> Response channel_result \<times> 's" where
  "relay ks h s op = (Inr (fst (handle_op ks h s op)), snd (handle_op ks h s op))"

abbreviation over_wire :: "'a cli_result \<Rightarrow> 'a cli_result" where
  "over_wire \<equiv> map_err (\<lambda>e. cli_error_from_wire (code e))"

definition exactly :: "nat \<Rightarrow> bytes \<Rightarrow> bytes cli_result" where
  "exactly n bs = (if length bs = n then Inr bs else Inl generic)"

lemma delegated_relay:
  "delegated_request (relay ks h) s op = (over_wire (fst (dispatch ks h s op)), snd (dispatch ks h s op))"
  by (auto simp: delegated_request_def relay_def handle_op_def split: prod.split sum.split)

lemma wire_op_relay:
  "wire_op (delegated_request (relay ks h)) s op k =
     (rbind (over_wire (fst (dispatch ks h s op))) k, snd (dispatch ks h s op))"
  by (cases "fst (dispatch ks h s op)") (simp_all add: wire_op_def delegated_relay)



subsection \<open>One re-authorization per keystore\<close>

lemma ensure_keeps_flag: "reauth_attempted (snd (ensure_broker_token E J B self force)) = reauth_attempted self"
  by (simp add: ensure_broker_token_def Let_def split: option.split prod.split sum.split)

lemma perform_wire_keeps_flag: "reauth_attempted (snd (perform_wire B self token op)) = reauth_attempted self"
  by (simp add: perform_wire_def split: prod.split)

lemma inner_keeps_flag: "reauth_attempted (snd (perform_op_inner E J B self op)) = reauth_attempted self"
proof -
  note keeps = ensure_keeps_flag [of E J B] perform_wire_keeps_flag [of B]
  obtain r1 s1 where 1: "ensure_broker_token E J B self False = (r1, s1)" by fastforce
  then have f1: "reauth_attempted s1 = reauth_attempted self" using keeps(1) by (metis snd_conv)
  show ?thesis
  proof (cases r1)
    case (Inr token)
    obtain r2 s2 where 2: "perform_wire B s1 token op = (r2, s2)" by fastforce
    then have f2: "reauth_attempted s2 = reauth_attempted s1" using keeps(2) by (metis snd_conv)
    obtain r3 s3 where 3: "ensure_broker_token E J B s2 True = (r3, s3)" by fastforce
    then have f3: "reauth_attempted s3 = reauth_attempted s2" using keeps(1) by (metis snd_conv)
    have f4: "reauth_attempted (snd (perform_wire B s3 t op)) = reauth_attempted s3" for t by (rule keeps(2))
    from 1 2 3 Inr f1 f2 f3 f4 show ?thesis
      by (auto simp: perform_op_inner_def split: sum.split Response.split prod.split) (metis snd_conv)+
  qed (simp add: perform_op_inner_def 1 f1)
qed

lemma repickup_keeps_flag: "reauth_attempted (snd (repickup_and_reload B self)) = reauth_attempted self"
  by (simp add: repickup_and_reload_def split: prod.split sum.split)

text \<open>Whether an operation spends the re-authorization, and how often a sequence of operations does.\<close>

definition reauthorizes ::
  "crypto_lib \<Rightarrow> 'j json_lib \<Rightarrow> ('w, 'c) broker_world \<Rightarrow> ('w, 'c) BrokerKeystore \<Rightarrow> Op \<Rightarrow> bool" where
  "reauthorizes E J B self op \<longleftrightarrow>
     (\<exists>e self'. perform_op_inner E J B self op = (Inl e, self') \<and>
        fst (recovery_for (code e) (reauth_attempted self')) = ReauthOnce)"

primrec reauths ::
  "crypto_lib \<Rightarrow> 'j json_lib \<Rightarrow> ('w, 'c) broker_world \<Rightarrow> ('w, 'c) BrokerKeystore \<Rightarrow> Op list \<Rightarrow> nat" where
  "reauths E J B self [] = 0"
| "reauths E J B self (op # ops) =
     (if reauthorizes E J B self op then 1 else 0) + reauths E J B (snd (perform_op E J B self op)) ops"

lemma perform_op_flag:
  "reauth_attempted (snd (perform_op E J B self op)) \<longleftrightarrow> reauth_attempted self \<or> reauthorizes E J B self op"
proof -
  obtain r s where inner: "perform_op_inner E J B self op = (r, s)" by fastforce
  have s: "reauth_attempted s = reauth_attempted self" using inner_keeps_flag inner by (metis snd_conv)
  show ?thesis
  proof (cases r)
    case (Inl e)
    obtain rec att where rec: "recovery_for (code e) (reauth_attempted s) = (rec, att)" by fastforce
    have att: "att \<longleftrightarrow> reauth_attempted self \<or> rec = ReauthOnce"
      using rec s by (auto simp: recovery_for_def split: if_splits)
    obtain r2 s2 where re: "repickup_and_reload B (s\<lparr> reauth_attempted := att \<rparr>) = (r2, s2)" by fastforce
    then have f2: "reauth_attempted s2 = att"
      using repickup_keeps_flag [of B "s\<lparr> reauth_attempted := att \<rparr>"] by simp
    have "reauth_attempted (snd (perform_op E J B self op)) = att"
      using inner Inl rec re f2 inner_keeps_flag [of E J B s2 op]
      by (simp add: perform_op_def Let_def split: Recovery.split sum.split)
    with att show ?thesis using inner Inl rec by (auto simp: reauthorizes_def)
  qed (use inner s in \<open>auto simp: perform_op_def reauthorizes_def\<close>)
qed


end
