(* ===== verification/Log_Anchors.thy ===== *)
theory Log_Anchors
  imports Json_Values Config
begin

section \<open>The public anchors of the transparency log\<close>

text \<open>
  The first part of \<^verbatim>\<open>cli/src/anchors.rs\<close>: which repository holds a server's anchor files, the two files
  parsed, the judgement of the epoch a server serves, the state kept for each server, and the cache of
  the files. A key or a root is a list of 32 bytes. The text of a verdict is not modelled, as for
  \<open>CliError\<close>. Times are seconds since the epoch; a \<^verbatim>\<open>Duration\<close> here is always a whole number of seconds. The
  JSON parser and the HTTP client are parameters.
\<close>

subsection \<open>The repository\<close>

definition TRANSITION_BOUND :: nat where "TRANSITION_BOUND = 15 * 60"

definition KNOWN_ANCHORS :: "(string \<times> string) list" where
  "KNOWN_ANCHORS =
     [(''https://drive.mysignet.ca'', ''prsnex/signet-drive-transparency-log''),
      (''https://staging.drive.mysignet.ca'', ''prsnex/signet-drive-transparency-log-staging'')]"

definition repo_word :: "string \<Rightarrow> string \<Rightarrow> bool" where
  "repo_word extra s \<longleftrightarrow> s \<noteq> [] \<and> list_all (\<lambda>b. ascii_alphanumeric b \<or> b \<in> set extra) s"

definition branch_ok :: "string \<Rightarrow> bool" where
  "branch_ok branch \<longleftrightarrow>
     repo_word ''._-/'' branch \<and> hd branch \<notin> set ''-/.'' \<and> last branch \<noteq> CHR ''/''
     \<and> \<not> contains_str ''..'' branch \<and> \<not> contains_str ''//'' branch"

definition repo_and_branch :: "string \<Rightarrow> (string \<times> string) option" where
  "repo_and_branch repo =
     (let (name, branch) = (case split_once ''@'' repo of Some p \<Rightarrow> p | None \<Rightarrow> (repo, ''main'')) in
      case split_once ''/'' name of
        None \<Rightarrow> None
      | Some (owner, short) \<Rightarrow>
          (if repo_word ''-'' owner \<and> repo_word ''._-'' short \<and> hd short \<noteq> CHR ''.'' \<and> branch_ok branch
           then Some (name, branch) else None))"

definition normalize_origin :: "string \<Rightarrow> string" where
  "normalize_origin server_url =
     (let trimmed = trim_end_char (CHR ''/'') (trim server_url);
          (scheme, rest) = (case split_once ''://'' trimmed of Some p \<Rightarrow> p | None \<Rightarrow> (''https'', trimmed));
          host = hd (split_on (CHR ''/'') rest)
      in to_ascii_lowercase scheme @ ''://'' @ to_ascii_lowercase host)"

definition anchor_repo_for :: "string \<Rightarrow> string option \<Rightarrow> string option cli_result" where
  "anchor_repo_for server_url override_repo =
     (case override_repo of
        Some repo \<Rightarrow>
          (if trim repo \<noteq> []
           then (if repo_and_branch (trim repo) = None then Inl invalid_args else Inr (Some (trim repo)))
           else Inr (map_of KNOWN_ANCHORS (normalize_origin server_url)))
      | None \<Rightarrow> Inr (map_of KNOWN_ANCHORS (normalize_origin server_url)))"

subsection \<open>The two files\<close>

record RootLine =
  root_epoch :: u16
  log_size :: u64
  root_hash :: bytes
  is_end :: bool

record EpochKey =
  key_epoch :: u16
  vrf_public_key :: bytes
  genesis_entry_hash :: bytes

record Anchors =
  roots :: "RootLine list"
  epoch_keys :: "EpochKey list"

definition VRF_SUITE :: string where "VRF_SUITE = ''ECVRF-RISTRETTO255-SHA512''"

definition hex32 :: "crypto_lib \<Rightarrow> 'j json_lib \<Rightarrow> 'j option \<Rightarrow> bytes cli_result" where
  "hex32 E J v =
     rbind (ok_or invalid_data (Option.bind v (j_str J))) (\<lambda>s.
     ok_or invalid_data (Option.bind (hex_decode E s) (try_array 32)))"

definition epoch_of :: "'j json_lib \<Rightarrow> 'j \<Rightarrow> u16 cli_result" where
  "epoch_of J line =
     (case j_get J line ''epoch'' of
        None \<Rightarrow> Inr 1
      | Some v \<Rightarrow>
          (case Option.bind (j_u64 J v) u16_try_from of
             Some n \<Rightarrow> if 1 \<le> n then Inr n else Inl invalid_data
           | None \<Rightarrow> Inl invalid_data))"

definition root_line :: "crypto_lib \<Rightarrow> 'j json_lib \<Rightarrow> string \<Rightarrow> RootLine cli_result" where
  "root_line E J line =
     rbind (ok_or invalid_data (j_from_str J line)) (\<lambda>v.
     rbind (epoch_of J v) (\<lambda>e.
     rbind (ok_or invalid_data (get_u64 J v ''log_size'')) (\<lambda>size.
     rbind (hex32 E J (j_get J v ''merkle_root'')) (\<lambda>root.
     Inr \<lparr> root_epoch = e, log_size = of_nat size, root_hash = root, is_end = (get_bool J v ''epoch_end'' = Some True) \<rparr>))))"

definition key_line :: "crypto_lib \<Rightarrow> 'j json_lib \<Rightarrow> string \<Rightarrow> EpochKey cli_result" where
  "key_line E J line =
     rbind (ok_or invalid_data (j_from_str J line)) (\<lambda>v.
     if get_str J v ''vrf_suite'' \<noteq> Some VRF_SUITE then Inl invalid_data
     else
       rbind (epoch_of J v) (\<lambda>e.
       rbind (hex32 E J (j_get J v ''vrf_public_key'')) (\<lambda>key.
       rbind (hex32 E J (j_get J v ''genesis_entry_hash'')) (\<lambda>genesis.
       Inr \<lparr> key_epoch = e, vrf_public_key = key, genesis_entry_hash = genesis \<rparr>))))"

definition text_lines :: "string \<Rightarrow> string list" where
  "text_lines text = filter (\<lambda>l. trim l \<noteq> []) (str_lines text)"

definition parse_anchors :: "crypto_lib \<Rightarrow> 'j json_lib \<Rightarrow> string \<Rightarrow> string \<Rightarrow> Anchors cli_result" where
  "parse_anchors E J roots_jsonl keys_jsonl =
     rbind (try_map (root_line E J) (text_lines roots_jsonl)) (\<lambda>rs.
     rbind (try_map (key_line E J) (text_lines keys_jsonl)) (\<lambda>ks.
     Inr \<lparr> roots = rs, epoch_keys = ks \<rparr>))"

definition anchors_key :: "Anchors \<Rightarrow> u16 \<Rightarrow> EpochKey option cli_result" where
  "anchors_key a e =
     (case filter (\<lambda>k. key_epoch k = e) (epoch_keys a) of
        [] \<Rightarrow> Inr None
      | [k] \<Rightarrow> Inr (Some k)
      | _ \<Rightarrow> Inl transparency_violation)"

definition epoch_end :: "Anchors \<Rightarrow> u16 \<Rightarrow> RootLine option" where
  "epoch_end a e = List.find (\<lambda>r. root_epoch r = e \<and> is_end r) (roots a)"

definition latest_root :: "Anchors \<Rightarrow> u16 \<Rightarrow> RootLine option" where
  "latest_root a e = max_by_key log_size (filter (\<lambda>r. root_epoch r = e \<and> \<not> is_end r) (roots a))"

definition u16_saturating_add1 :: "u16 \<Rightarrow> u16" where
  "u16_saturating_add1 e = (if e = 65535 then e else e + 1)"

definition or_one :: "u16 option \<Rightarrow> u16" where
  "or_one m = (case m of Some e \<Rightarrow> e | None \<Rightarrow> 1)"

definition max_epoch :: "Anchors \<Rightarrow> u16" where
  "max_epoch a =
     (let from_keys = or_one (iter_max (map key_epoch (epoch_keys a)));
          from_ends = or_one (iter_max (map (\<lambda>r. u16_saturating_add1 (root_epoch r)) (filter is_end (roots a))));
          from_roots = or_one (iter_max (map root_epoch (roots a)))
      in max (max from_keys from_ends) from_roots)"

definition anchors_carry :: "Anchors \<Rightarrow> u16 \<Rightarrow> bool cli_result" where
  "anchors_carry a e =
     (if e \<le> 1 then Inr True
      else rbind (anchors_key a e) (\<lambda>k. Inr (k \<noteq> None \<and> epoch_end a (e - 1) \<noteq> None)))"

subsection \<open>The judgement\<close>

datatype LogMode = Legacy | V3 u16 bytes bytes

datatype EpochVerdict = Anchored LogMode | Unanchored | Violation

record ServedEpoch =
  served_epoch :: u16
  served_key :: "bytes option"

definition from_server_info :: "crypto_lib \<Rightarrow> 'j json_lib \<Rightarrow> 'j \<Rightarrow> ServedEpoch cli_result" where
  "from_server_info E J info =
     (case j_get J info ''translog'' of
        None \<Rightarrow> Inr \<lparr> served_epoch = 1, served_key = None \<rparr>
      | Some t \<Rightarrow>
          rbind (epoch_of J t) (\<lambda>e.
          rbind (if absent_or_null J t ''vrf_public_key'' then Inr None
                 else rbind (hex32 E J (j_get J t ''vrf_public_key'')) (\<lambda>k. Inr (Some k))) (\<lambda>key.
          case get_str J t ''vrf_suite'' of
            Some suite \<Rightarrow>
              (if suite \<noteq> VRF_SUITE then Inl transparency_violation
               else Inr \<lparr> served_epoch = e, served_key = key \<rparr>)
          | None \<Rightarrow> Inr \<lparr> served_epoch = e, served_key = key \<rparr>)))"

definition soft_or_hard :: "nat option \<Rightarrow> EpochVerdict" where
  "soft_or_hard first_unanchored_age =
     (case first_unanchored_age of
        Some age \<Rightarrow> if TRANSITION_BOUND \<le> age then Violation else Unanchored
      | None \<Rightarrow> Unanchored)"

text \<open>\<open>None\<close> is the panic of \<^verbatim>\<open>unreachable!\<close>; the lemma \<open>judge_never_panics\<close> shows it is one.\<close>

definition judge_epoch_checked ::
  "ServedEpoch \<Rightarrow> Anchors option \<Rightarrow> u16 \<Rightarrow> nat option \<Rightarrow> EpochVerdict option" where
  "judge_epoch_checked served anchors highest_seen first_unanchored_age =
     (if served_epoch served < highest_seen then Some Violation
      else case anchors of
        None \<Rightarrow> Some (if served_epoch served \<le> 1 then Anchored Legacy else Unanchored)
      | Some a \<Rightarrow>
          (if served_epoch served < max_epoch a then Some (soft_or_hard first_unanchored_age)
           else if served_epoch served = 1 then Some (Anchored Legacy)
           else case anchors_carry a (served_epoch served) of
             Inl e \<Rightarrow> Some Violation
           | Inr False \<Rightarrow> Some (soft_or_hard first_unanchored_age)
           | Inr True \<Rightarrow>
               (case anchors_key a (served_epoch served) of
                  Inr (Some k) \<Rightarrow>
                    (case served_key served of
                       Some key \<Rightarrow>
                         (if key = vrf_public_key k
                          then Some (Anchored (V3 (served_epoch served) (vrf_public_key k) (genesis_entry_hash k)))
                          else Some Violation)
                     | None \<Rightarrow> Some Violation)
                | Inr None \<Rightarrow> None
                | Inl e \<Rightarrow> Some Violation)))"

definition judge_epoch :: "ServedEpoch \<Rightarrow> Anchors option \<Rightarrow> u16 \<Rightarrow> nat option \<Rightarrow> EpochVerdict" where
  "judge_epoch served anchors highest_seen first_unanchored_age =
     the (judge_epoch_checked served anchors highest_seen first_unanchored_age)"

definition receipt_rule :: "EpochVerdict \<Rightarrow> LogMode cli_result" where
  "receipt_rule verdict =
     (case verdict of
        Anchored mode \<Rightarrow> Inr mode
      | Unanchored \<Rightarrow> Inl unanchored
      | Violation \<Rightarrow> Inl transparency_violation)"

subsection \<open>The cache and the state\<close>

definition ANCHOR_CACHE_MAX_AGE :: nat where "ANCHOR_CACHE_MAX_AGE = 24 * 60 * 60"

record AnchorCache =
  cache_repo :: string
  fetched_at :: nat
  roots_jsonl :: string
  vrf_keys_jsonl :: string
  genesis_checked :: "u16 option"

fun keep_lines :: "(string \<times> RootLine) list \<Rightarrow> string list" where
  "keep_lines [] = []"
| "keep_lines ((line, r) # rest) =
     (if is_end r \<or> \<not> list_ex (\<lambda>(_, later). root_epoch later = root_epoch r \<and> \<not> is_end later) rest
      then [line] else []) @ keep_lines rest"

definition cache_anchors :: "crypto_lib \<Rightarrow> 'j json_lib \<Rightarrow> AnchorCache \<Rightarrow> Anchors option" where
  "cache_anchors E J cache =
     (case parse_anchors E J (roots_jsonl cache) (vrf_keys_jsonl cache) of Inr a \<Rightarrow> Some a | Inl _ \<Rightarrow> None)"

definition cache_new :: "crypto_lib \<Rightarrow> 'j json_lib \<Rightarrow> string \<Rightarrow> nat \<Rightarrow> string \<Rightarrow> string \<Rightarrow> AnchorCache option" where
  "cache_new E J repo now roots_text keys_text =
     (case parse_anchors E J roots_text [] of
        Inl _ \<Rightarrow> None
      | Inr parsed \<Rightarrow>
          let keep = keep_lines (zip (text_lines roots_text) (roots parsed));
              cache = \<lparr> cache_repo = repo, fetched_at = now, roots_jsonl = join_lines keep,
                        vrf_keys_jsonl = keys_text, genesis_checked = None \<rparr>
          in map_option (\<lambda>_. cache) (cache_anchors E J cache))"

record OriginState =
  highest_epoch :: u16
  first_unanchored :: "(u16 \<times> nat) list"
  anchor_cache :: "AnchorCache option"

definition default_state :: OriginState where
  "default_state = \<lparr> highest_epoch = 0, first_unanchored = [], anchor_cache = None \<rparr>"

definition update_state :: "OriginState \<Rightarrow> u16 \<Rightarrow> EpochVerdict \<Rightarrow> nat \<Rightarrow> OriginState" where
  "update_state st served verdict now =
     (case verdict of
        Anchored mode \<Rightarrow>
          (let e = (case mode of Legacy \<Rightarrow> 1 | V3 epoch _ _ \<Rightarrow> epoch)
           in st\<lparr> highest_epoch := max (highest_epoch st) e,
                  first_unanchored := filter (\<lambda>(k, _). e < k) (first_unanchored st) \<rparr>)
      | Unanchored \<Rightarrow> st\<lparr> first_unanchored := bt_or_insert served now (first_unanchored st) \<rparr>
      | Violation \<Rightarrow> st)"

definition unanchored_age :: "OriginState \<Rightarrow> ServedEpoch \<Rightarrow> nat \<Rightarrow> nat option" where
  "unanchored_age st served now =
     map_option (\<lambda>t. now - t) (map_of (first_unanchored st) (served_epoch served))"

definition cached_verdict ::
  "crypto_lib \<Rightarrow> 'j json_lib \<Rightarrow> OriginState \<Rightarrow> ServedEpoch \<Rightarrow> string \<Rightarrow> nat \<Rightarrow> (EpochVerdict \<times> Anchors) option" where
  "cached_verdict E J st served repo now =
     Option.bind (anchor_cache st) (\<lambda>cache.
     if cache_repo cache \<noteq> repo \<or> now - fetched_at cache \<ge> ANCHOR_CACHE_MAX_AGE then None
     else
       Option.bind (cache_anchors E J cache) (\<lambda>a.
       let verdict = judge_epoch served (Some a) (highest_epoch st) (unanchored_age st served now) in
       case verdict of
         Anchored Legacy \<Rightarrow> Some (verdict, a)
       | Anchored (V3 e _ _) \<Rightarrow> if genesis_checked cache = Some e then Some (verdict, a) else None
       | _ \<Rightarrow> None))"

definition fetch_raw :: "(string \<Rightarrow> string cli_result) \<Rightarrow> string \<Rightarrow> (string \<times> string) option" where
  "fetch_raw get_text_once repo =
     Option.bind (repo_and_branch repo) (\<lambda>(name, branch).
     let base = ''https://raw.githubusercontent.com/'' @ name @ ''/'' @ branch in
     case get_text_once (base @ ''/roots.jsonl'') of
       Inl _ \<Rightarrow> None
     | Inr rs \<Rightarrow>
         (case get_text_once (base @ ''/vrf-keys.jsonl'') of
            Inr ks \<Rightarrow> Some (rs, ks)
          | Inl e \<Rightarrow> if code e = ''not_found'' then Some (rs, []) else None))"

definition fetch :: "crypto_lib \<Rightarrow> 'j json_lib \<Rightarrow> (string \<Rightarrow> string cli_result) \<Rightarrow> string \<Rightarrow> Anchors option" where
  "fetch E J get_text_once repo =
     Option.bind (fetch_raw get_text_once repo) (\<lambda>(rs, ks).
     case parse_anchors E J rs ks of Inr a \<Rightarrow> Some a | Inl _ \<Rightarrow> None)"

subsection \<open>What an anchored epoch means\<close>

lemma le_or_one_iter_max: "x \<in> set xs \<Longrightarrow> x \<le> or_one (iter_max xs)"
  by (cases xs) (auto simp: or_one_def iter_max_def foldl_max)

lemma saturating_add1_ge1 [simp]: "1 \<le> u16_saturating_add1 e"
proof (cases "e = 65535")
  case False
  have "e + 1 \<noteq> 0"
  proof
    assume "e + 1 = 0"
    then have "e = - 1" by (simp add: add_eq_0_iff2)
    with False show False by simp
  qed
  then have "0 + 1 \<le> e + 1" by (intro inc_le) (simp add: word_neq_0_conv)
  with False show ?thesis by (simp add: u16_saturating_add1_def)
qed (simp add: u16_saturating_add1_def)

lemma max_epoch_ge1: "1 \<le> max_epoch a"
proof -
  have "1 \<le> or_one (iter_max (map (\<lambda>r. u16_saturating_add1 (root_epoch r)) (filter is_end (roots a))))"
  proof (cases "filter is_end (roots a)")
    case Nil
    then show ?thesis by (simp add: or_one_def iter_max_def)
  next
    case (Cons r rs)
    have "u16_saturating_add1 (root_epoch r) \<le>
        or_one (iter_max (map (\<lambda>r. u16_saturating_add1 (root_epoch r)) (filter is_end (roots a))))"
      by (rule le_or_one_iter_max) (simp add: Cons)
    then show ?thesis using saturating_add1_ge1 order_trans by blast
  qed
  then show ?thesis by (auto simp: max_epoch_def Let_def le_max_iff_disj)
qed

lemma anchors_key_simps [result_simps]:
  "anchors_key a e = Inr None \<longleftrightarrow> filter (\<lambda>k. key_epoch k = e) (epoch_keys a) = []"
  "anchors_key a e = Inr (Some k) \<longleftrightarrow> filter (\<lambda>k. key_epoch k = e) (epoch_keys a) = [k]"
  by (auto simp: anchors_key_def split: list.splits)

lemma anchors_carry_True:
  "1 < e \<Longrightarrow> anchors_carry a e = Inr True \<longleftrightarrow> (\<exists>k. anchors_key a e = Inr (Some k)) \<and> epoch_end a (e - 1) \<noteq> None"
  by (auto simp: anchors_carry_def rbind_def split: sum.splits)

lemma served_cases:
  assumes "\<not> served_epoch served < max_epoch a" "served_epoch served \<noteq> 1"
  shows "1 < served_epoch served"
proof -
  have "1 \<le> served_epoch served" by (rule order_trans [OF max_epoch_ge1 [of a]]) (use assms(1) in simp)
  with assms(2) show ?thesis by (simp only: order.strict_iff_order) simp
qed

lemma judge_never_panics: "judge_epoch_checked served anchors h age \<noteq> None"
proof (cases anchors)
  case (Some a)
  have "\<exists>k. anchors_key a (served_epoch served) = Inr (Some k)"
    if "\<not> served_epoch served < max_epoch a" "served_epoch served \<noteq> 1" "anchors_carry a (served_epoch served) = Inr True"
    using anchors_carry_True [OF served_cases [OF that(1,2)]] that(3) by blast
  then show ?thesis
    by (auto simp: judge_epoch_checked_def Some split: sum.split option.split bool.split)
qed (simp add: judge_epoch_checked_def)

lemma soft_not_anchored [simp]: "soft_or_hard age \<noteq> Anchored mode"
  by (simp add: soft_or_hard_def split: option.split)

lemma judge_low: "served_epoch served < h \<Longrightarrow> judge_epoch served anchors h age = Violation"
  by (simp add: judge_epoch_def judge_epoch_checked_def)

lemma judge_unread:
  "judge_epoch served None h age =
     (if served_epoch served < h then Violation else if served_epoch served \<le> 1 then Anchored Legacy else Unanchored)"
  by (simp add: judge_epoch_def judge_epoch_checked_def)

lemma judge_behind:
  "\<not> served_epoch served < h \<Longrightarrow> served_epoch served < max_epoch a \<Longrightarrow>
     judge_epoch served (Some a) h age = soft_or_hard age"
  by (simp add: judge_epoch_def judge_epoch_checked_def)

lemma judge_one:
  "\<not> served_epoch served < h \<Longrightarrow> \<not> served_epoch served < max_epoch a \<Longrightarrow> served_epoch served = 1 \<Longrightarrow>
     judge_epoch served (Some a) h age = Anchored Legacy"
  by (simp add: judge_epoch_def judge_epoch_checked_def)

lemma judge_carried:
  assumes "\<not> served_epoch served < h" "\<not> served_epoch served < max_epoch a" "served_epoch served \<noteq> 1"
    "anchors_carry a (served_epoch served) = Inr True" "anchors_key a (served_epoch served) = Inr (Some k)"
  shows "judge_epoch served (Some a) h age =
    (if served_key served = Some (vrf_public_key k)
     then Anchored (V3 (served_epoch served) (vrf_public_key k) (genesis_entry_hash k)) else Violation)"
  unfolding judge_epoch_def judge_epoch_checked_def
  by (simp only: assms option.case sum.case bool.case if_False) (cases "served_key served"; simp)

lemma judge_not_carried:
  assumes "\<not> served_epoch served < h" "\<not> served_epoch served < max_epoch a" "served_epoch served \<noteq> 1"
    "anchors_carry a (served_epoch served) \<noteq> Inr True"
  shows "judge_epoch served (Some a) h age =
    (if anchors_carry a (served_epoch served) = Inr False then soft_or_hard age else Violation)"
  unfolding judge_epoch_def judge_epoch_checked_def using assms(4)
  by (simp only: assms(1-3) option.case if_False)
    (cases "anchors_carry a (served_epoch served)"; simp split: bool.split)

text \<open>
  C6: the epoch judgement, decided exactly. A server's epoch is anchored as V3 if and only if it is not below
  the highest epoch anchored before, the published files show nothing later, they carry exactly one key line
  for it and an end line for the epoch before, and the key the server names is that published key; and
  it is anchored as Legacy if and only if it is epoch 1 and no later epoch is published, or the files cannot
  be read.
\<close>
theorem judge_anchored_iff:
  "judge_epoch served anchors highest_seen age = Anchored mode \<longleftrightarrow>
     highest_seen \<le> served_epoch served \<and>
     (case mode of
        Legacy \<Rightarrow>
          (case anchors of None \<Rightarrow> served_epoch served \<le> 1 | Some a \<Rightarrow> served_epoch served = 1 \<and> max_epoch a = 1)
      | V3 e key genesis \<Rightarrow>
          e = served_epoch served \<and> 1 < e \<and> served_key served = Some key \<and>
          (\<exists>a k. anchors = Some a \<and> max_epoch a \<le> e \<and> filter (\<lambda>k. key_epoch k = e) (epoch_keys a) = [k]
             \<and> vrf_public_key k = key \<and> genesis_entry_hash k = genesis \<and> epoch_end a (e - 1) \<noteq> None))"
proof (cases anchors)
  case None
  then show ?thesis
    by (auto simp: judge_epoch_def judge_epoch_checked_def split: LogMode.split)
next
  case (Some a)
  show ?thesis
  proof (cases "served_epoch served < highest_seen")
    case True
    then show ?thesis unfolding judge_low [OF True] by (simp add: linorder_not_le [symmetric])
  next
    case high: False
    then have le: "highest_seen \<le> served_epoch served" by (simp only: linorder_not_less)
    show ?thesis
    proof (cases "served_epoch served < max_epoch a")
      case True
      then have "\<not> max_epoch a \<le> served_epoch served" by (simp only: linorder_not_le)
      moreover from this have "\<not> (served_epoch served = 1 \<and> max_epoch a = 1)" by auto
      ultimately show ?thesis unfolding Some judge_behind [OF high True]
        by (simp split: LogMode.split)
    next
      case ahead: False
      then have pub: "max_epoch a \<le> served_epoch served" by (simp only: linorder_not_less)
      show ?thesis
      proof (cases "served_epoch served = 1")
        case True
        then have "max_epoch a = 1" using pub max_epoch_ge1 [of a] by simp
        then show ?thesis using True le unfolding Some judge_one [OF high ahead True]
          by (simp split: LogMode.split)
      next
        case later: False
        note gt = served_cases [OF ahead later]
        note carry = anchors_carry_True [OF gt, of a]
        show ?thesis
        proof (cases "anchors_carry a (served_epoch served) = Inr True")
          case True
          then obtain k where k: "anchors_key a (served_epoch served) = Inr (Some k)" using carry by blast
          show ?thesis unfolding Some judge_carried [OF high ahead later True k]
            using carry True k le pub gt later
            by (auto simp: anchors_key_simps split: LogMode.split if_splits)
        next
          case False
          then show ?thesis using judge_not_carried [OF high ahead later False] carry later
            unfolding Some anchors_key_simps by (simp split: LogMode.split) blast
        qed
      qed
    qed
  qed
qed

subsection \<open>The ratchet and the bound\<close>

text \<open>
  \<open>observe\<close> is what \<^verbatim>\<open>anchor_served\<close> does with one reading of the server and of the files: judge, then fold the
  verdict into the state.
\<close>

type_synonym observation = "nat \<times> ServedEpoch \<times> Anchors option"

definition observe :: "OriginState \<Rightarrow> observation \<Rightarrow> EpochVerdict \<times> OriginState" where
  "observe st ob =
     (let (now, served, files) = ob;
          verdict = judge_epoch served files (highest_epoch st) (unanchored_age st served now)
      in (verdict, update_state st (served_epoch served) verdict now))"

primrec verdicts :: "OriginState \<Rightarrow> observation list \<Rightarrow> EpochVerdict list" where
  "verdicts st [] = []"
| "verdicts st (ob # obs) = fst (observe st ob) # verdicts (snd (observe st ob)) obs"

fun anchored_epoch :: "EpochVerdict \<Rightarrow> u16 option" where
  "anchored_epoch (Anchored Legacy) = Some 1"
| "anchored_epoch (Anchored (V3 e _ _)) = Some e"
| "anchored_epoch _ = None"

abbreviation anchored_epochs :: "EpochVerdict list \<Rightarrow> u16 list" where
  "anchored_epochs vs \<equiv> List.map_filter anchored_epoch vs"

lemma anchored_epoch_iff:
  "anchored_epoch v = Some e \<longleftrightarrow> v = Anchored Legacy \<and> e = 1 \<or> (\<exists>k g. v = Anchored (V3 e k g))"
  by (cases v rule: anchored_epoch.cases) auto

lemma judge_anchored_not_below:
  assumes "judge_epoch served anchors h age = Anchored mode" "1 \<le> served_epoch served"
  shows "h \<le> served_epoch served \<and> anchored_epoch (Anchored mode) = Some (served_epoch served)"
proof -
  have high: "\<not> served_epoch served < h" using assms(1) judge_low by fastforce
  show ?thesis
  proof (cases anchors)
    case None
    then show ?thesis using assms high judge_unread [of served h age] by (auto split: if_splits)
  next
    case (Some a)
    have ahead: "\<not> served_epoch served < max_epoch a"
      using assms(1) judge_behind [OF high, of a age] Some soft_not_anchored by metis
    show ?thesis
    proof (cases "served_epoch served = 1")
      case True
      then show ?thesis using assms(1) judge_one [OF high ahead True, of age] Some high by auto
    next
      case later: False
      have carried: "anchors_carry a (served_epoch served) = Inr True"
      proof (rule ccontr)
        assume "anchors_carry a (served_epoch served) \<noteq> Inr True"
        from judge_not_carried [OF high ahead later this, of age] assms(1) Some soft_not_anchored
        show False by (auto split: if_splits)
      qed
      then obtain k where "anchors_key a (served_epoch served) = Inr (Some k)"
        using anchors_carry_True [OF served_cases [OF ahead later]] by blast
      from judge_carried [OF high ahead later carried this, of age] assms(1) Some high
      show ?thesis by (auto split: if_splits)
    qed
  qed
qed

lemma observe_ratchet:
  assumes "observe st (now, served, files) = (v, st')" "1 \<le> served_epoch served"
  shows "highest_epoch st \<le> highest_epoch st'"
    and "anchored_epoch v = Some e \<Longrightarrow> highest_epoch st \<le> e \<and> highest_epoch st' = e"
proof -
  have v: "v = judge_epoch served files (highest_epoch st) (unanchored_age st served now)"
    and st': "st' = update_state st (served_epoch served) v now"
    using assms(1) by (auto simp: observe_def Let_def)
  show "highest_epoch st \<le> highest_epoch st'"
    by (auto simp: st' update_state_def Let_def split: EpochVerdict.split)
  show "highest_epoch st \<le> e \<and> highest_epoch st' = e" if "anchored_epoch v = Some e"
  proof -
    from that obtain mode where mode: "v = Anchored mode" by (auto simp: anchored_epoch_iff)
    have "highest_epoch st \<le> served_epoch served \<and> anchored_epoch v = Some (served_epoch served)"
      using judge_anchored_not_below [OF _ assms(2)] v mode by metis
    with that mode show ?thesis
      by (cases mode) (auto simp: st' update_state_def Let_def)
  qed
qed

lemma verdicts_ratchet:
  assumes "list_all (\<lambda>(_, served, _). 1 \<le> served_epoch served) obs"
  shows "sorted (anchored_epochs (verdicts st obs)) \<and>
    list_all (\<lambda>e. highest_epoch st \<le> e) (anchored_epochs (verdicts st obs))"
  using assms
proof (induction obs arbitrary: st)
  case Nil
  then show ?case by (simp add: map_filter_simps)
next
  case (Cons ob obs)
  obtain now served files where ob: "ob = (now, served, files)" by (cases ob)
  obtain v st' where step: "observe st ob = (v, st')" by fastforce
  have one: "1 \<le> served_epoch served" using Cons.prems ob by simp
  note r = observe_ratchet [OF step [unfolded ob] one]
  have ih: "sorted (anchored_epochs (verdicts st' obs))"
    "list_all (\<lambda>e. highest_epoch st' \<le> e) (anchored_epochs (verdicts st' obs))"
    using Cons.IH [of st'] Cons.prems by simp_all
  from ih(2) r(1) have low: "list_all (\<lambda>e. highest_epoch st \<le> e) (anchored_epochs (verdicts st' obs))"
    by (auto simp: list_all_iff)
  show ?case
  proof (cases "anchored_epoch v")
    case None
    then show ?thesis using ih low by (simp add: step map_filter_simps)
  next
    case (Some e)
    with r(2) [of e] ih low show ?thesis by (simp add: step map_filter_simps list_all_iff)
  qed
qed

text \<open>
  C8: an epoch never goes back. However the server, the files and the clock behave over any number of
  commands, the epochs under which this client accepts the log only grow, starting from the highest it
  remembers.
\<close>
theorem epochs_never_go_back:
  assumes "list_all (\<lambda>(_, served, _). 1 \<le> served_epoch served) obs"
  shows "sorted (highest_epoch st # anchored_epochs (verdicts st obs))"
  using verdicts_ratchet [OF assms, of st] by (simp add: list_all_iff)

definition demo_root :: "u16 \<Rightarrow> u64 \<Rightarrow> bool \<Rightarrow> RootLine" where
  "demo_root e n at_end = \<lparr> root_epoch = e, log_size = n, root_hash = replicate 32 9, is_end = at_end \<rparr>"

definition demo_files :: Anchors where
  "demo_files = \<lparr> roots = [demo_root 1 40 True, demo_root 2 5 False],
     epoch_keys = [\<lparr> key_epoch = 2, vrf_public_key = replicate 32 5, genesis_entry_hash = replicate 32 6 \<rparr>] \<rparr>"

lemma demo_files_facts:
  "max_epoch demo_files = 2" "anchors_carry demo_files 2 = Inr True"
  "anchors_key demo_files 2 = Inr (Some \<lparr> key_epoch = 2, vrf_public_key = replicate 32 5, genesis_entry_hash = replicate 32 6 \<rparr>)"
  by (simp_all add: max_epoch_def demo_files_def demo_root_def or_one_def iter_max_def u16_saturating_add1_def
      anchors_carry_def anchors_key_def epoch_end_def)

theorem epochs_never_go_back_witness:
  "sorted (highest_epoch default_state # anchored_epochs (verdicts default_state
     [(100, \<lparr> served_epoch = 1, served_key = None \<rparr>, None),
      (200, \<lparr> served_epoch = 2, served_key = Some (replicate 32 5) \<rparr>, Some demo_files),
      (300, \<lparr> served_epoch = 1, served_key = None \<rparr>, None)]))"
  by (rule epochs_never_go_back) simp

text \<open>A disagreement between the server and files that were read.\<close>

definition disagrees :: "ServedEpoch \<Rightarrow> Anchors \<Rightarrow> bool" where
  "disagrees served a \<longleftrightarrow>
     served_epoch served < max_epoch a \<or>
     served_epoch served \<noteq> 1 \<and> anchors_carry a (served_epoch served) = Inr False"

lemma judge_disagrees:
  assumes "disagrees served a" "h \<le> served_epoch served"
  shows "judge_epoch served (Some a) h age = soft_or_hard age"
proof -
  have high: "\<not> served_epoch served < h" using assms(2) by (simp only: linorder_not_less)
  show ?thesis
  proof (cases "served_epoch served < max_epoch a")
    case True
    then show ?thesis by (rule judge_behind [OF high])
  next
    case False
    with assms(1) have "served_epoch served \<noteq> 1" "anchors_carry a (served_epoch served) = Inr False"
      by (simp_all add: disagrees_def)
    with judge_not_carried [OF high False this(1)] show ?thesis by simp
  qed
qed

primrec after_all :: "OriginState \<Rightarrow> observation list \<Rightarrow> OriginState" where
  "after_all st [] = st"
| "after_all st (ob # obs) = after_all (snd (observe st ob)) obs"

abbreviation disagreeing :: "u16 \<Rightarrow> observation \<Rightarrow> bool" where
  "disagreeing e \<equiv> \<lambda>(_, served, files). served_epoch served = e \<and> (\<exists>a. files = Some a \<and> disagrees served a)"

lemma observe_disagreeing:
  assumes "disagreeing e (now, served, files)" "highest_epoch st \<le> e"
  shows "fst (observe st (now, served, files)) = soft_or_hard (map_option (\<lambda>t. now - t) (map_of (first_unanchored st) e))"
    and "highest_epoch (snd (observe st (now, served, files))) = highest_epoch st"
    and "map_of (first_unanchored st) e = Some t \<Longrightarrow>
      map_of (first_unanchored (snd (observe st (now, served, files)))) e = Some t"
    and "map_of (first_unanchored st) e = None \<Longrightarrow> bt_ok (first_unanchored st) \<Longrightarrow>
      map_of (first_unanchored (snd (observe st (now, served, files)))) e = Some now"
proof -
  obtain a where a: "files = Some a" "disagrees served a" and e: "served_epoch served = e" using assms(1) by auto
  have v: "judge_epoch served files (highest_epoch st) age = soft_or_hard age" for age
    using judge_disagrees [OF a(2), of "highest_epoch st" age] assms(2) a(1) e by simp
  have o: "observe st (now, served, files) =
      (soft_or_hard (unanchored_age st served now),
       update_state st e (soft_or_hard (unanchored_age st served now)) now)"
    by (simp add: observe_def Let_def v e)
  show "fst (observe st (now, served, files)) = soft_or_hard (map_option (\<lambda>t. now - t) (map_of (first_unanchored st) e))"
    by (simp add: o unanchored_age_def e)
  show "highest_epoch (snd (observe st (now, served, files))) = highest_epoch st"
    by (simp add: o update_state_def soft_or_hard_def split: option.split)
  show "map_of (first_unanchored (snd (observe st (now, served, files)))) e = Some t"
    if "map_of (first_unanchored st) e = Some t"
    using that by (simp add: o update_state_def soft_or_hard_def bt_or_insert_def unanchored_age_def e)
  show "map_of (first_unanchored (snd (observe st (now, served, files)))) e = Some now"
    if "map_of (first_unanchored st) e = None" "bt_ok (first_unanchored st)"
    using that by (simp add: o update_state_def soft_or_hard_def bt_or_insert_def unanchored_age_def e)
qed

lemma after_disagreeing:
  assumes "list_all (disagreeing e) obs" "highest_epoch st \<le> e" "map_of (first_unanchored st) e = Some t"
  shows "highest_epoch (after_all st obs) \<le> e \<and> map_of (first_unanchored (after_all st obs)) e = Some t"
  using assms
proof (induction obs arbitrary: st)
  case (Cons ob obs)
  obtain now served files where ob: "ob = (now, served, files)" by (cases ob)
  have d: "disagreeing e (now, served, files)" using Cons.prems(1) ob by simp
  show ?case
    using Cons.IH [of "snd (observe st ob)"] Cons.prems observe_disagreeing(2,3) [OF d Cons.prems(2)]
    by (simp add: ob)
qed simp

text \<open>
  C32: a disagreement between the server and the published files is tolerated for fifteen minutes and is a
  violation after that: once such a disagreement was first seen, and while every reading of the files shows
  it, the verdict is Unanchored until the bound has passed since the first sighting, and Violation from then on.
\<close>
theorem disagreement_bound:
  assumes "disagreeing e (t0, served0, files0)" "list_all (disagreeing e) obs" "disagreeing e (now, served, files)"
    and "highest_epoch st \<le> e" "map_of (first_unanchored st) e = None" "bt_ok (first_unanchored st)"
  shows "fst (observe (after_all st ((t0, served0, files0) # obs)) (now, served, files)) =
    (if TRANSITION_BOUND \<le> now - t0 then Violation else Unanchored)"
proof -
  let ?s = "snd (observe st (t0, served0, files0))"
  have "highest_epoch ?s \<le> e" "map_of (first_unanchored ?s) e = Some t0"
    using observe_disagreeing(2,4) [OF assms(1,4)] assms(4-6) by simp_all
  from after_disagreeing [OF assms(2) this] observe_disagreeing(1) [OF assms(3)]
  show ?thesis by (simp add: soft_or_hard_def)
qed

theorem disagreement_bound_witness:
  "fst (observe (after_all default_state [(1000, \<lparr> served_epoch = 1, served_key = None \<rparr>, Some demo_files),
       (1600, \<lparr> served_epoch = 1, served_key = None \<rparr>, Some demo_files)])
     (1950, \<lparr> served_epoch = 1, served_key = None \<rparr>, Some demo_files)) = Violation"
proof -
  have d: "disagrees \<lparr> served_epoch = 1, served_key = None \<rparr> demo_files"
    by (simp add: disagrees_def demo_files_facts)
  from disagreement_bound [of 1 1000 "\<lparr> served_epoch = 1, served_key = None \<rparr>" "Some demo_files"
      "[(1600, \<lparr> served_epoch = 1, served_key = None \<rparr>, Some demo_files)]"
      1950 "\<lparr> served_epoch = 1, served_key = None \<rparr>" "Some demo_files" default_state] d
  show ?thesis by (simp add: default_state_def TRANSITION_BOUND_def)
qed

text \<open>
  C34: one failed reading of the files restarts that bound. A server that stays in epoch 1 while the files
  show epoch 2 is in violation once the bound has passed; but if the files could not be read just once in
  between, which selects the epoch 1 rule, the first sighting is forgotten, and the same disagreement is
  again only Unanchored, however long ago it began.
\<close>
theorem unreadable_files_restart_bound:
  assumes "served_epoch served = 1" "1 < max_epoch a" "highest_epoch st \<le> 1"
    and "map_of (first_unanchored st) 1 = Some t0" "t0 + TRANSITION_BOUND \<le> now"
  shows "fst (observe st (now, served, Some a)) = Violation \<and>
    fst (observe (snd (observe st (t1, served, None))) (now, served, Some a)) = Unanchored"
proof -
  have d: "disagrees served a" using assms(1,2) by (simp add: disagrees_def)
  have v: "fst (observe s (now, served, Some a)) = soft_or_hard (unanchored_age s served now)"
    if "highest_epoch s \<le> 1" for s
    using judge_disagrees [OF d, of "highest_epoch s"] that assms(1) by (simp add: observe_def Let_def)
  have high: "\<not> served_epoch served < highest_epoch st" using assms(1,3) by (simp only: linorder_not_less)
  let ?s = "snd (observe st (t1, served, None))"
  have s: "?s = update_state st 1 (Anchored Legacy) t1"
    unfolding observe_def Let_def prod.case judge_unread if_not_P [OF high] by (simp add: assms(1))
  have "highest_epoch ?s \<le> 1" using assms(3) by (simp add: s update_state_def)
  moreover have "map_of (first_unanchored ?s) 1 = None"
    by (auto simp: s update_state_def map_of_eq_None_iff)
  ultimately show ?thesis
    using v [of st] v [of ?s] assms by (simp add: unanchored_age_def soft_or_hard_def)
qed

theorem unreadable_files_restart_bound_witness:
  "fst (observe (default_state\<lparr> first_unanchored := [(1, 1000)] \<rparr>) (90000, \<lparr> served_epoch = 1, served_key = None \<rparr>, Some demo_files)) = Violation \<and>
   fst (observe (snd (observe (default_state\<lparr> first_unanchored := [(1, 1000)] \<rparr>) (89000, \<lparr> served_epoch = 1, served_key = None \<rparr>, None)))
     (90000, \<lparr> served_epoch = 1, served_key = None \<rparr>, Some demo_files)) = Unanchored"
  by (rule unreadable_files_restart_bound [of _ _ _ 1000])
    (simp_all add: demo_files_facts default_state_def TRANSITION_BOUND_def)

end
