(* ===== verification/Anchor_Cache.thy ===== *)
theory Anchor_Cache
  imports Log_Anchors
begin

section \<open>The cached anchor files\<close>

text \<open>
  The copy of the anchor files that the client keeps (\<^verbatim>\<open>AnchorCache::new\<close>, defined in \<open>Log_Anchors\<close>) drops
  the superseded roots: it is shown to judge every server as the whole files do.
\<close>

fun keep_roots :: "RootLine list \<Rightarrow> RootLine list" where
  "keep_roots [] = []"
| "keep_roots (r # rest) =
     (if is_end r \<or> \<not> list_ex (\<lambda>later. root_epoch later = root_epoch r \<and> \<not> is_end later) rest
      then [r] else []) @ keep_roots rest"

lemma keep_roots_ends: "filter is_end (keep_roots rs) = filter is_end rs"
  by (induction rs) auto

lemma keep_roots_epochs: "root_epoch ` set (keep_roots rs) = root_epoch ` set rs"
proof (induction rs)
  case (Cons r rs)
  show ?case
  proof (cases "is_end r \<or> \<not> list_ex (\<lambda>later. root_epoch later = root_epoch r \<and> \<not> is_end later) rs")
    case False
    then have "root_epoch r \<in> root_epoch ` set rs" by (auto simp: list_ex_iff) (metis imageI)
    with False Cons.IH show ?thesis by auto
  qed (use Cons.IH in auto)
qed simp

lemma keep_lines_sub: "set (keep_lines ps) \<subseteq> fst ` set ps"
  by (induction ps rule: keep_lines.induct) auto

lemma parse_keep_lines:
  assumes "list_all2 (\<lambda>x y. f x = Inr y) ls rs"
  shows "list_all2 (\<lambda>x y. f x = Inr y) (keep_lines (zip ls rs)) (keep_roots rs)"
  using assms
proof (induction ls rs rule: list_all2_induct)
  case (Cons l ls r rs)
  have "length ls = length rs" using Cons(2) by (rule list_all2_lengthD)
  then have "list_ex (\<lambda>(_, later). P later) (zip ls rs) = list_ex P rs" for P
    by (induction ls rs rule: list_induct2) auto
  then show ?case using Cons by auto
qed simp

lemma iter_max_set: "set xs = set ys \<Longrightarrow> iter_max xs = iter_max ys"
  by (metis iter_max_simps set_empty)

lemma find_filter: "List.find (\<lambda>r. P r \<and> Q r) xs = List.find P (filter Q xs)"
  by (induction xs) auto

lemma judge_same_files:
  assumes "epoch_keys c = epoch_keys a" "filter is_end (roots c) = filter is_end (roots a)"
    and "root_epoch ` set (roots c) = root_epoch ` set (roots a)"
  shows "judge_epoch served (Some c) h age = judge_epoch served (Some a) h age"
proof -
  have "iter_max (map root_epoch (roots c)) = iter_max (map root_epoch (roots a))"
    by (rule iter_max_set) (use assms(3) in simp)
  then have "max_epoch c = max_epoch a" by (simp add: max_epoch_def assms(1,2))
  moreover have "anchors_key c e = anchors_key a e" for e by (simp add: anchors_key_def assms(1))
  moreover have "epoch_end c e = epoch_end a e" for e
    by (simp add: epoch_end_def find_filter assms(2))
  ultimately show ?thesis
    unfolding judge_epoch_def judge_epoch_checked_def anchors_carry_def option.case by (simp only:)
qed

lemma str_lines_chars:
  assumes "l \<in> set (str_lines s)"
  shows "set l \<subseteq> set s \<and> CHR 0x0A \<notin> set l"
proof -
  have pieces: "p \<in> set (split_on d s) \<Longrightarrow> set p \<subseteq> set s \<and> d \<notin> set p" for p d and s :: string
  proof (induction s arbitrary: p)
    case (Cons c s)
    obtain q qs where q: "split_on d s = q # qs" by (cases "split_on d s") auto
    have "set q \<subseteq> set s" "d \<notin> set q" using Cons.IH [of q] q by auto
    moreover have "p \<in> set qs \<Longrightarrow> set p \<subseteq> set s \<and> d \<notin> set p" "c = d \<Longrightarrow> p = q \<Longrightarrow> set p \<subseteq> set s \<and> d \<notin> set p"
      using Cons.IH [of p] q by auto
    ultimately show ?case using Cons.prems q by (auto split: if_splits)
  qed simp
  have cr: "set (strip_cr x) \<subseteq> set x" for x
    by (auto simp: strip_cr_def strip_suffix_iff split: option.splits)
  from assms consider x where "x \<in> set (split_on (CHR 0x0A) s)" "l = strip_cr x" | "l \<in> set (split_on (CHR 0x0A) s)"
    by (auto simp: str_lines_def Let_def dest: in_set_butlastD split: if_splits)
  then show ?thesis using pieces cr by cases blast+
qed

lemma keep_lines_from: "l \<in> set (keep_lines (zip ls rs)) \<Longrightarrow> l \<in> set ls"
proof -
  assume "l \<in> set (keep_lines (zip ls rs))"
  with keep_lines_sub [of "zip ls rs"] obtain r where "(l, r) \<in> set (zip ls rs)" by auto
  then show ?thesis by (rule set_zip_leftD)
qed

lemma text_line_ok:
  assumes "l \<in> set (text_lines text)" "CHR 0x0D \<notin> set text"
  shows "l \<noteq> [] \<and> CHR 0x0A \<notin> set l \<and> CHR 0x0D \<notin> set l" "trim l \<noteq> []"
proof -
  have l: "l \<in> set (str_lines text)" and t: "trim l \<noteq> []" using assms(1) unfolding text_lines_def by simp_all
  have "trim [] = []" unfolding trim_def Let_def by simp
  with t have "l \<noteq> []" by metis
  with str_lines_chars [OF l] assms(2) show "l \<noteq> [] \<and> CHR 0x0A \<notin> set l \<and> CHR 0x0D \<notin> set l" by blast
  show "trim l \<noteq> []" by (rule t)
qed

lemma text_lines_join:
  assumes "\<And>l. l \<in> set ls \<Longrightarrow> l \<in> set (text_lines text)" "CHR 0x0D \<notin> set text"
  shows "text_lines (join_lines ls) = ls"
proof -
  have "list_all (\<lambda>l. l \<noteq> [] \<and> CHR 0x0A \<notin> set l \<and> CHR 0x0D \<notin> set l) ls"
    using text_line_ok(1) [OF assms(1) assms(2)] unfolding list_all_iff by blast
  then have "str_lines (join_lines ls) = ls" by (rule str_lines_join)
  moreover have "filter (\<lambda>l. trim l \<noteq> []) ls = ls"
    using text_line_ok(2) [OF assms(1) assms(2)] by (simp only: filter_id_conv) blast
  ultimately show ?thesis by (simp only: text_lines_def)
qed

text \<open>
  C31: the cut-down copy of the files that the client keeps judges as the files did: caching files that parse
  succeeds, and every server epoch, remembered epoch and age gets the same verdict from the cached copy as from
  the whole files.
\<close>
theorem cache_judges_as_files:
  assumes "parse_anchors E J roots_text keys_text = Inr a" "CHR 0x0D \<notin> set roots_text"
  shows "\<exists>cache c. cache_new E J repo now roots_text keys_text = Some cache \<and> cache_anchors E J cache = Some c \<and>
    judge_epoch served (Some c) h age = judge_epoch served (Some a) h age"
proof -
  let ?ls = "text_lines roots_text" and ?f = "root_line E J"
  obtain rs ks where rs: "try_map ?f ?ls = Inr rs" and ks: "try_map (key_line E J) (text_lines keys_text) = Inr ks"
    and a: "a = \<lparr> roots = rs, epoch_keys = ks \<rparr>"
    using assms(1) by (auto simp: parse_anchors_def result_simps)
  let ?keep = "keep_lines (zip ?ls rs)"
  have "text_lines (join_lines ?keep) = ?keep"
    by (rule text_lines_join [OF _ assms(2)]) (rule keep_lines_from)
  moreover have "try_map ?f ?keep = Inr (keep_roots rs)"
    using parse_keep_lines rs by (simp add: try_map_Inr)
  ultimately have parsed: "parse_anchors E J (join_lines ?keep) keys_text = Inr \<lparr> roots = keep_roots rs, epoch_keys = ks \<rparr>"
    using ks by (simp add: parse_anchors_def)
  have empty: "parse_anchors E J roots_text [] = Inr \<lparr> roots = rs, epoch_keys = [] \<rparr>"
    using rs by (simp add: parse_anchors_def text_lines_def str_lines_def)
  have "judge_epoch served (Some \<lparr> roots = keep_roots rs, epoch_keys = ks \<rparr>) h age = judge_epoch served (Some a) h age"
    by (rule judge_same_files) (simp_all add: a keep_roots_ends keep_roots_epochs)
  then show ?thesis using parsed empty by (simp add: cache_new_def cache_anchors_def Let_def)
qed

definition demo_line :: "int \<Rightarrow> int \<Rightarrow> bool \<Rightarrow> demo_json" where
  "demo_line e n at_end = DObj [(''epoch'', DInt e), (''log_size'', DInt n),
     (''merkle_root'', DStr (hex_encode demo_lib (replicate 32 9))), (''epoch_end'', DBool at_end)]"

definition demo_reader :: "demo_json json_lib" where
  "demo_reader = demo_jsons\<lparr> j_from_str := map_of
     [(''A'', demo_line 1 10 False), (''B'', demo_line 1 20 False), (''C'', demo_line 1 20 True), (''D'', demo_line 2 5 False)] \<rparr>"

definition demo_text :: string where
  "demo_text = ''A'' @ [CHR 0x0A] @ ''B'' @ [CHR 0x0A] @ ''C'' @ [CHR 0x0A] @ ''D''"

lemma demo_text_lines: "text_lines demo_text = [''A'', ''B'', ''C'', ''D'']" "text_lines [] = []"
  by (simp_all add: text_lines_def str_lines_def demo_text_def strip_cr_def strip_suffix_def strip_prefix_def trim_plain plain_def Let_def)

lemma demo_text_parse:
  "parse_anchors demo_lib demo_reader demo_text [] =
     Inr \<lparr> roots = [demo_root 1 10 False, demo_root 1 20 False, demo_root 1 20 True, demo_root 2 5 False], epoch_keys = [] \<rparr>"
proof -
  have hex: "hex_decode demo_lib (hex_encode demo_lib x) = Some x" for x
    using demo_lib_correct(6) by (simp add: hex_correct_def)
  show ?thesis unfolding parse_anchors_def demo_text_lines
    by (simp add: root_line_def demo_reader_def demo_line_def demo_jsons_def epoch_of_def get_u64_def get_bool_def
        hex32_def hex try_array_def u16_try_from_def demo_root_def)
qed

theorem cache_judges_as_files_witness:
  "\<exists>cache c. cache_new demo_lib demo_reader ''o/n'' 7 demo_text [] = Some cache \<and> cache_anchors demo_lib demo_reader cache = Some c \<and>
     judge_epoch \<lparr> served_epoch = 2, served_key = None \<rparr> (Some c) 1 None = judge_epoch \<lparr> served_epoch = 2, served_key = None \<rparr>
       (Some \<lparr> roots = [demo_root 1 10 False, demo_root 1 20 False, demo_root 1 20 True, demo_root 2 5 False], epoch_keys = [] \<rparr>) 1 None"
  by (rule cache_judges_as_files [OF demo_text_parse]) (simp add: demo_text_def)

end
