(* ===== verification/Anchor_Entries.thy ===== *)
theory Anchor_Entries
  imports Log_Anchors Translog Merkle_Proofs
begin

section \<open>Served log entries\<close>

text \<open>
  The second part of \<^verbatim>\<open>cli/src/anchors.rs\<close>: an account's index in an epoch, the binding of a served entry to
  the key that was asked about (\<open>bind_leaf\<close>), the check of an epoch's genesis entry, the owner's watch over
  all entries of an epoch, and the epoch a receipt answers for. \<open>parse_uuid\<close> is the \<^verbatim>\<open>uuid\<close> crate's parser, a
  parameter. The report entries that \<open>owner_watch\<close> only prints are reduced to the entry and its \<^verbatim>\<open>held\<close> mark.
\<close>

type_synonym uuid_parser = "string \<Rightarrow> bytes option"

definition account_index ::
  "crypto_lib \<Rightarrow> uuid_parser \<Rightarrow> bytes \<Rightarrow> string \<Rightarrow> string option \<Rightarrow> bytes cli_result" where
  "account_index E parse_uuid vrf_key account_id proof_hex =
     rbind (ok_or invalid_data (parse_uuid account_id)) (\<lambda>account.
     rbind (ok_or transparency_violation proof_hex) (\<lambda>text.
     rbind (ok_or transparency_violation (Option.bind (hex_decode E text) (try_array PROOF_LEN))) (\<lambda>vrf_proof.
     map_err (\<lambda>_. transparency_violation) (vrf_verify E vrf_key account vrf_proof))))"

definition index_under ::
  "crypto_lib \<Rightarrow> uuid_parser \<Rightarrow> LogMode \<Rightarrow> string \<Rightarrow> string option \<Rightarrow> (u16 \<times> bytes) option cli_result" where
  "index_under E parse_uuid mode account_id vrf_proof =
     (case mode of
        Legacy \<Rightarrow> Inr None
      | V3 epoch vrf_key _ \<Rightarrow>
          rbind (account_index E parse_uuid vrf_key account_id vrf_proof) (\<lambda>index. Inr (Some (epoch, index))))"

definition fingerprint_for :: "crypto_lib \<Rightarrow> string \<Rightarrow> bytes \<Rightarrow> string cli_result" where
  "fingerprint_for E purpose public_key =
     (if purpose \<in> {''signing'', ''kem''} then map_err (\<lambda>_. invalid_data) (fingerprint E public_key)
      else if purpose \<in> {''signing_pq'', ''kem_pq'', ''epoch''} then Inr (fingerprint_raw E public_key)
      else Inl invalid_data)"

definition purpose_of :: "string \<Rightarrow> KeyPurpose cli_result" where
  "purpose_of name =
     (if name = ''epoch'' then Inr Epoch
      else if name = ''signing'' then Inr Signing
      else if name = ''kem'' then Inr Kem
      else if name = ''signing_pq'' then Inr SigningPq
      else if name = ''kem_pq'' then Inr KemPq
      else Inl invalid_data)"

subsection \<open>Binding an entry\<close>

definition field :: "('j \<Rightarrow> 'a option) \<Rightarrow> 'j json_lib \<Rightarrow> 'j \<Rightarrow> string \<Rightarrow> 'a cli_result" where
  "field read J entry k = rbind (ok_or invalid_data (j_get J entry k)) (\<lambda>v. ok_or invalid_data (read v))"

definition entry_account :: "uuid_parser \<Rightarrow> 'j json_lib \<Rightarrow> 'j \<Rightarrow> bytes option cli_result" where
  "entry_account parse_uuid J entry =
     (if absent_or_null J entry ''account_id'' then Inr None
      else rbind (ok_or invalid_data (Option.bind (get_str J entry ''account_id'') parse_uuid)) (\<lambda>a. Inr (Some a)))"

definition entry_index :: "crypto_lib \<Rightarrow> 'j json_lib \<Rightarrow> 'j \<Rightarrow> bytes option cli_result" where
  "entry_index E J entry =
     (if absent_or_null J entry ''account_index'' then Inr None
      else rbind (ok_or invalid_data
             (Option.bind (Option.bind (get_str J entry ''account_index'') (hex_decode E)) (try_array INDEX_LEN)))
           (\<lambda>i. Inr (Some i)))"

definition bind_leaf ::
  "crypto_lib \<Rightarrow> uuid_parser \<Rightarrow> 'j json_lib \<Rightarrow> 'j \<Rightarrow> string option \<Rightarrow> string option \<Rightarrow> bytes cli_result" where
  "bind_leaf E parse_uuid J entry asked_fingerprint asked_purpose =
     rbind (field (j_u64 J) J entry ''entry_version'') (\<lambda>version.
     rbind (field (j_u64 J) J entry ''entry_id'') (\<lambda>entry_id.
     rbind (field (j_str J) J entry ''key_purpose'') (\<lambda>purpose.
     rbind (field (j_str J) J entry ''algorithm'') (\<lambda>algorithm.
     rbind (field (j_str J) J entry ''public_key'') (\<lambda>key_text.
     rbind (ok_or invalid_data (b64_decode E key_text)) (\<lambda>public_key.
     rbind (field (j_u64 J) J entry ''created_at'') (\<lambda>created_at.
     rbind (hex32 E J (j_get J entry ''prev_entry_hash'')) (\<lambda>prev.
     rbind (hex32 E J (j_get J entry ''entry_hash'')) (\<lambda>served_hash.
     rbind (purpose_of purpose) (\<lambda>kp.
     rbind (if version = 2
            then rbind (entry_account parse_uuid J entry) (\<lambda>account.
                 Inr (entry_hash_v2 E (of_nat entry_id) account kp algorithm public_key (of_nat created_at) prev))
            else if version = 3
            then rbind (entry_index E J entry) (\<lambda>index.
                 Inr (entry_hash_v3 E (of_nat entry_id) index kp algorithm public_key (of_nat created_at) prev))
            else Inl invalid_data) (\<lambda>recomputed.
     if recomputed \<noteq> served_hash then Inl transparency_violation
     else
       rbind (fingerprint_for E purpose public_key) (\<lambda>own_fp.
       if get_str J entry ''public_key_fingerprint'' \<noteq> Some own_fp then Inl transparency_violation
       else if (case asked_fingerprint of Some asked \<Rightarrow> \<not> eq_ignore_ascii_case asked own_fp | None \<Rightarrow> False)
       then Inl transparency_violation
       else if (case asked_purpose of Some asked \<Rightarrow> asked \<noteq> purpose | None \<Rightarrow> False)
       then Inl transparency_violation
       else Inr recomputed))))))))))))"

definition check_genesis :: "crypto_lib \<Rightarrow> 'j json_lib \<Rightarrow> LogMode \<Rightarrow> Anchors \<Rightarrow> 'j \<Rightarrow> unit cli_result" where
  "check_genesis E J mode anchors genesis =
     (case mode of
        Legacy \<Rightarrow> Inr ()
      | V3 epoch vrf_key genesis_hash \<Rightarrow>
          rbind (ok_or transparency_violation (epoch_end anchors (epoch - 1))) (\<lambda>end_line.
          let expected_payload = epoch_payload_v3 E epoch (log_size end_line) (root_hash end_line) vrf_key in
          if get_u64 J genesis ''entry_id'' \<noteq> Some 1 \<or> get_u64 J genesis ''entry_version'' \<noteq> Some 3
             \<or> get_str J genesis ''key_purpose'' \<noteq> Some ''epoch'' \<or> \<not> absent_or_null J genesis ''account_index''
          then Inl transparency_violation
          else
            rbind (ok_or transparency_violation (Option.bind (get_str J genesis ''public_key'') (b64_decode E))) (\<lambda>payload.
            if payload \<noteq> expected_payload then Inl transparency_violation
            else
              rbind (ok_or transparency_violation (get_u64 J genesis ''created_at'')) (\<lambda>created_at.
              let recomputed = entry_hash_v3 E 1 None Epoch EPOCH_ALGORITHM_V3 payload (of_nat created_at) (replicate 32 0) in
              if recomputed \<noteq> genesis_hash then Inl transparency_violation else Inr ()))))"

definition check_receipt_epoch :: "'j json_lib \<Rightarrow> 'j \<Rightarrow> u16 \<Rightarrow> unit cli_result" where
  "check_receipt_epoch J receipt epoch =
     (let named = (case j_get J receipt ''epoch'' of None \<Rightarrow> Some 1 | Some v \<Rightarrow> j_u64 J v) in
      if named = Some (unat epoch) then Inr () else Inl (as_epoch_move transparency_violation))"

subsection \<open>The owner's watch\<close>

record 'j OwnerWatch =
  watch_verdict :: string
  watch_entries :: "('j \<times> bool) list"
  foreign :: "string list"
  unlogged :: "string list"

definition same_key :: "'j json_lib \<Rightarrow> 'j \<Rightarrow> string \<times> string \<Rightarrow> bool" where
  "same_key J entry key =
     (get_str J entry ''key_purpose'' = Some (fst key) \<and>
      (case get_str J entry ''public_key_fingerprint'' of
         Some served \<Rightarrow> eq_ignore_ascii_case served (snd key) | None \<Rightarrow> False))"

definition under_index :: "crypto_lib \<Rightarrow> 'j json_lib \<Rightarrow> bytes \<Rightarrow> 'j \<Rightarrow> bool" where
  "under_index E J index entry = (Option.bind (get_str J entry ''account_index'') (hex_decode E) = Some index)"

fun scan_leaves :: "crypto_lib \<Rightarrow> uuid_parser \<Rightarrow> 'j json_lib \<Rightarrow> nat \<Rightarrow> 'j list \<Rightarrow> bytes list cli_result" where
  "scan_leaves E parse_uuid J position [] = Inr []"
| "scan_leaves E parse_uuid J position (entry # scanned) =
     (if get_u64 J entry ''entry_id'' \<noteq> Some position \<or> get_u64 J entry ''entry_version'' \<noteq> Some 3
      then Inl transparency_violation
      else
        rbind (bind_leaf E parse_uuid J entry None None) (\<lambda>leaf.
        rbind (scan_leaves E parse_uuid J (position + 1) scanned) (\<lambda>leaves. Inr (leaf # leaves))))"

definition owner_watch ::
  "crypto_lib \<Rightarrow> uuid_parser \<Rightarrow> 'j json_lib \<Rightarrow> 'j list \<Rightarrow> RootLine \<Rightarrow> bytes \<Rightarrow> (string \<times> string) list \<Rightarrow>
     'j OwnerWatch cli_result" where
  "owner_watch E parse_uuid J scanned published index held =
     (if of_nat (length scanned) \<noteq> log_size published then Inl transparency_violation
      else
        rbind (scan_leaves E parse_uuid J 1 scanned) (\<lambda>leaves.
        let mine = filter (under_index E J index) scanned in
        if merkle_root (sha256 E) leaves \<noteq> root_hash published then Inl transparency_violation
        else
          let is_held = (\<lambda>e. list_ex (same_key J e) held);
              foreign_keys = map (\<lambda>e. case get_str J e ''public_key_fingerprint'' of Some fp \<Rightarrow> fp | None \<Rightarrow> [])
                (filter (\<lambda>e. \<not> is_held e) mine);
              unlogged_keys = map snd (filter (\<lambda>k. \<not> list_ex (\<lambda>e. same_key J e k) mine) held)
          in Inr \<lparr> watch_verdict =
                     (if foreign_keys \<noteq> [] then ''foreign_key''
                      else if unlogged_keys \<noteq> [] then ''not_yet_published'' else ''clean''),
                   watch_entries = map (\<lambda>e. (e, is_held e)) mine,
                   foreign = foreign_keys, unlogged = unlogged_keys \<rparr>))"

subsection \<open>What a bound leaf fixes\<close>

text \<open>The bytes whose hash \<open>bind_leaf\<close> recomputes.\<close>

definition leaf_bytes :: "crypto_lib \<Rightarrow> uuid_parser \<Rightarrow> 'j json_lib \<Rightarrow> 'j \<Rightarrow> bytes option" where
  "leaf_bytes E parse_uuid J entry =
     (case (get_u64 J entry ''entry_version'', get_u64 J entry ''entry_id'', get_str J entry ''key_purpose'',
            get_str J entry ''algorithm'', Option.bind (get_str J entry ''public_key'') (b64_decode E),
            get_u64 J entry ''created_at'', hex32 E J (j_get J entry ''prev_entry_hash'')) of
        (Some version, Some i, Some purpose, Some alg, Some pk, Some t, Inr prev) \<Rightarrow>
          (case purpose_of purpose of
             Inl _ \<Rightarrow> None
           | Inr kp \<Rightarrow>
               (if version = 2
                then (case entry_account parse_uuid J entry of
                        Inr a \<Rightarrow> Some (entry_bytes_v2 (of_nat i) a kp alg pk (of_nat t) prev) | Inl _ \<Rightarrow> None)
                else if version = 3
                then (case entry_index E J entry of
                        Inr a \<Rightarrow> Some (entry_bytes_v3 (of_nat i) a kp alg pk (of_nat t) prev) | Inl _ \<Rightarrow> None)
                else None))
      | _ \<Rightarrow> None)"

lemma field_iff [result_simps]:
  "field (j_u64 J) J entry k = Inr n \<longleftrightarrow> get_u64 J entry k = Some n"
  "field (j_str J) J entry k = Inr s \<longleftrightarrow> get_str J entry k = Some s"
  by (auto simp: field_def get_u64_def get_str_def result_simps bind_eq_Some_conv)

lemma purpose_of_inj: "purpose_of p = Inr kp \<Longrightarrow> purpose_of q = Inr kp \<Longrightarrow> p = q"
  by (cases kp) (auto simp: purpose_of_def split: if_splits)

lemma bind_leaf_Inr:
  assumes "bind_leaf E U J entry fp purpose = Inr h"
  obtains version i kind alg ktext pk t prev kp b own where
    "get_u64 J entry ''entry_version'' = Some version" "get_u64 J entry ''entry_id'' = Some i"
    "get_str J entry ''key_purpose'' = Some kind" "get_str J entry ''algorithm'' = Some alg"
    "get_str J entry ''public_key'' = Some ktext" "b64_decode E ktext = Some pk"
    "get_u64 J entry ''created_at'' = Some t" "hex32 E J (j_get J entry ''prev_entry_hash'') = Inr prev"
    "purpose_of kind = Inr kp" "leaf_bytes E U J entry = Some b" "h = sha256 E b"
    "fingerprint_for E kind pk = Inr own" "get_str J entry ''public_key_fingerprint'' = Some own"
    "case fp of Some asked \<Rightarrow> eq_ignore_ascii_case asked own | None \<Rightarrow> True"
    "case purpose of Some asked \<Rightarrow> asked = kind | None \<Rightarrow> True"
proof -
  note unfold = assms [unfolded bind_leaf_def, simplified result_simps]
  from unfold obtain version i kind alg ktext pk t prev served kp h' own where
    f: "get_u64 J entry ''entry_version'' = Some version" "get_u64 J entry ''entry_id'' = Some i"
    "get_str J entry ''key_purpose'' = Some kind" "get_str J entry ''algorithm'' = Some alg"
    "get_str J entry ''public_key'' = Some ktext" "b64_decode E ktext = Some pk"
    "get_u64 J entry ''created_at'' = Some t" "hex32 E J (j_get J entry ''prev_entry_hash'') = Inr prev"
    "purpose_of kind = Inr kp"
    and hash: "(if version = 2
            then rbind (entry_account U J entry) (\<lambda>account.
                 Inr (entry_hash_v2 E (of_nat i) account kp alg pk (of_nat t) prev))
            else if version = 3
            then rbind (entry_index E J entry) (\<lambda>index.
                 Inr (entry_hash_v3 E (of_nat i) index kp alg pk (of_nat t) prev))
            else Inl invalid_data) = Inr h'"
    and rest: "h' = h" "fingerprint_for E kind pk = Inr own" "get_str J entry ''public_key_fingerprint'' = Some own"
    "case fp of Some asked \<Rightarrow> eq_ignore_ascii_case asked own | None \<Rightarrow> True"
    "case purpose of Some asked \<Rightarrow> asked = kind | None \<Rightarrow> True"
    by (auto simp: result_simps split: if_splits option.splits)
  from hash f have "\<exists>b. leaf_bytes E U J entry = Some b \<and> h' = sha256 E b"
    by (auto simp: leaf_bytes_def result_simps entry_hash_v2_def entry_hash_v3_def split: if_splits)
  with f rest that show thesis by blast
qed

lemma bind_leaf_key:
  assumes "bind_leaf E U J entry fp purpose = Inr h" "leaf_bytes E U J entry = Some b"
  shows "\<exists>kind ktext pk kp own. get_str J entry ''key_purpose'' = Some kind \<and> purpose_of kind = Inr kp \<and>
    get_str J entry ''public_key'' = Some ktext \<and> b64_decode E ktext = Some pk \<and> h = sha256 E b \<and>
    fingerprint_for E kind pk = Inr own \<and> get_str J entry ''public_key_fingerprint'' = Some own"
  using assms(1)
proof (rule bind_leaf_Inr)
qed (use assms(2) in simp)

text \<open>Algorithm names and keys below four gigabytes, the range of their length fields.\<close>

definition entry_sized :: "crypto_lib \<Rightarrow> 'j json_lib \<Rightarrow> 'j \<Rightarrow> bool" where
  "entry_sized E J entry \<longleftrightarrow>
     (case get_str J entry ''algorithm'' of Some alg \<Rightarrow> lp_ok (utf8 alg) | None \<Rightarrow> True) \<and>
     (case Option.bind (get_str J entry ''public_key'') (b64_decode E) of Some pk \<Rightarrow> lp_ok pk | None \<Rightarrow> True)"

definition uuid_sized :: "uuid_parser \<Rightarrow> bool" where
  "uuid_sized parse_uuid \<longleftrightarrow> (\<forall>s a. parse_uuid s = Some a \<longrightarrow> length a = 16)"

lemma leaf_bytes_cases:
  assumes "leaf_bytes E U J entry = Some b" "uuid_sized U" "entry_sized E J entry"
    and "get_str J entry ''key_purpose'' = Some kind" "purpose_of kind = Inr kp"
    and "get_str J entry ''public_key'' = Some ktext" "b64_decode E ktext = Some pk"
  shows "\<exists>version n i a alg t prev. b = version # be64 i @ a @ [purpose_byte kp] @ lp (utf8 alg) @ lp pk @ be64 t @ prev
    \<and> lp_ok (utf8 alg) \<and> lp_ok pk \<and> length a = n \<and> (version = ENTRY_VERSION_V2 \<and> n = 16 \<or> version = ENTRY_VERSION_V3 \<and> n = 64)"
proof -
  have idx: "length (unwrap_or a (replicate INDEX_LEN 0)) = 64" if "entry_index E J entry = Inr a" for a
    using that by (auto simp: entry_index_def unwrap_or_def INDEX_LEN_def result_simps bind_eq_Some_conv split: if_splits)
  have acc: "length (unwrap_or a (replicate 16 0)) = 16" if "entry_account U J entry = Inr a" for a
    using that assms(2) by (auto simp: entry_account_def unwrap_or_def uuid_sized_def result_simps bind_eq_Some_conv split: if_splits)
  obtain i alg t prev where alg: "get_str J entry ''algorithm'' = Some alg" and
    form: "(\<exists>x. entry_account U J entry = Inr x \<and> b = entry_bytes_v2 i x kp alg pk t prev) \<or>
      (\<exists>x. entry_index E J entry = Inr x \<and> b = entry_bytes_v3 i x kp alg pk t prev)"
    using assms(1,4-) by (auto simp: leaf_bytes_def split: option.splits sum.splits if_splits)
  have sized: "lp_ok (utf8 alg)" "lp_ok pk" using assms(3,6,7) alg by (simp_all add: entry_sized_def)
  from form show ?thesis
  proof (elim disjE exE conjE)
    fix x assume "entry_account U J entry = Inr x" "b = entry_bytes_v2 i x kp alg pk t prev"
    with acc sized show ?thesis
      by (intro exI [of _ ENTRY_VERSION_V2] exI [of _ 16] exI [of _ i] exI [of _ "unwrap_or x (replicate 16 0)"]
          exI [of _ alg] exI [of _ t] exI [of _ prev]) (simp add: entry_bytes_v2_def)
  next
    fix x assume "entry_index E J entry = Inr x" "b = entry_bytes_v3 i x kp alg pk t prev"
    with idx sized show ?thesis
      by (intro exI [of _ ENTRY_VERSION_V3] exI [of _ 64] exI [of _ i] exI [of _ "unwrap_or x (replicate INDEX_LEN 0)"]
          exI [of _ alg] exI [of _ t] exI [of _ prev]) (simp add: entry_bytes_v3_def)
  qed
qed

text \<open>
  C9: a leaf of the log answers for one key only. If two entries a server serves both bind to one leaf, they
  have the same purpose, the same public key and the same fingerprint, whatever their versions, unless the
  hash collides on the two entries; so a proof that the leaf is in the log cannot be passed off for another key.
\<close>
theorem leaf_binds_one_key:
  assumes "bind_leaf E U J entry fp purpose = Inr leaf" "bind_leaf E U J entry' fp' purpose' = Inr leaf"
    and "leaf_bytes E U J entry = Some b" "leaf_bytes E U J entry' = Some b'" "inj_on (sha256 E) {b, b'}"
    and "uuid_sized U" "entry_sized E J entry" "entry_sized E J entry'"
  shows "get_str J entry ''key_purpose'' = get_str J entry' ''key_purpose'' \<and>
    Option.bind (get_str J entry ''public_key'') (b64_decode E) = Option.bind (get_str J entry' ''public_key'') (b64_decode E) \<and>
    get_str J entry ''public_key_fingerprint'' = get_str J entry' ''public_key_fingerprint''"
proof -
  obtain kind ktext pk kp own where
    e: "get_str J entry ''key_purpose'' = Some kind" "purpose_of kind = Inr kp"
      "get_str J entry ''public_key'' = Some ktext" "b64_decode E ktext = Some pk"
    and h: "leaf = sha256 E b" and own: "fingerprint_for E kind pk = Inr own" "get_str J entry ''public_key_fingerprint'' = Some own"
    using bind_leaf_key [OF assms(1,3)] by blast
  obtain kind' ktext' pk' kp' own' where
    e': "get_str J entry' ''key_purpose'' = Some kind'" "purpose_of kind' = Inr kp'"
      "get_str J entry' ''public_key'' = Some ktext'" "b64_decode E ktext' = Some pk'"
    and h': "leaf = sha256 E b'" and own': "fingerprint_for E kind' pk' = Inr own'" "get_str J entry' ''public_key_fingerprint'' = Some own'"
    using bind_leaf_key [OF assms(2,4)] by blast
  have bb: "b = b'" using h h' by (intro inj_on_pair [OF assms(5)]) simp
  from leaf_bytes_cases [OF assms(3,6,7) e] obtain v n i a alg t prev where
    l: "b = v # be64 i @ a @ [purpose_byte kp] @ lp (utf8 alg) @ lp pk @ be64 t @ prev" "lp_ok (utf8 alg)" "lp_ok pk"
      "length a = n" "v = ENTRY_VERSION_V2 \<and> n = 16 \<or> v = ENTRY_VERSION_V3 \<and> n = 64" by blast
  from leaf_bytes_cases [OF assms(4,6,8) e'] obtain v' n' i' a' alg' t' prev' where
    l': "b' = v' # be64 i' @ a' @ [purpose_byte kp'] @ lp (utf8 alg') @ lp pk' @ be64 t' @ prev'" "lp_ok (utf8 alg')" "lp_ok pk'"
      "length a' = n'" "v' = ENTRY_VERSION_V2 \<and> n' = 16 \<or> v' = ENTRY_VERSION_V3 \<and> n' = 64" by blast
  have "v = v'" using bb unfolding l(1) l'(1) by (rule list.inject [THEN iffD1, THEN conjunct1])
  then have "n = n'" using l(5) l'(5) by (auto simp: ENTRY_VERSION_V2_def ENTRY_VERSION_V3_def)
  have tails: "be64 i @ a @ [purpose_byte kp] @ lp (utf8 alg) @ lp pk @ be64 t @ prev =
      be64 i' @ a' @ [purpose_byte kp'] @ lp (utf8 alg') @ lp pk' @ be64 t' @ prev'"
    using bb unfolding l(1) l'(1) by (rule list.inject [THEN iffD1, THEN conjunct2])
  have "length a = length a'" using l(4) l'(4) \<open>n = n'\<close> by (simp only:)
  from entry_tail_inj [OF tails this l(2) l'(2) l(3) l'(3)] have "kp = kp' \<and> pk = pk'" by (elim conjE) (intro conjI)
  moreover from this have "kind = kind'" using purpose_of_inj e(2) e'(2) by blast
  ultimately show ?thesis using e e' own own' by simp
qed

text \<open>
  C30: the genesis hash that the key file pins commits to the epoch's whole foundation. Two clients that
  accept a genesis entry under the same pinned hash agree on the epoch's number, on its VRF key, and on
  the final size and root of the epoch before it, unless the hash collides.
\<close>
theorem genesis_pins_foundation:
  assumes "check_genesis E J (V3 e key pinned) files genesis = Inr ()" "check_genesis E J (V3 e' key' pinned) files' genesis' = Inr ()"
    and "epoch_end files (e - 1) = Some r" "epoch_end files' (e' - 1) = Some r'"
    and "length (root_hash r) = 32" "length (root_hash r') = 32" "hash32 (sha256 E)"
    and "get_u64 J genesis ''created_at'' = Some t" "get_u64 J genesis' ''created_at'' = Some t'"
    and "inj_on (sha256 E)
        {entry_bytes_v3 1 None Epoch EPOCH_ALGORITHM_V3 (epoch_payload_v3 E e (log_size r) (root_hash r) key) (of_nat t) (replicate 32 0),
         entry_bytes_v3 1 None Epoch EPOCH_ALGORITHM_V3 (epoch_payload_v3 E e' (log_size r') (root_hash r') key') (of_nat t') (replicate 32 0)}"
    and "inj_on (sha256 E) {key, key'}"
  shows "e = e' \<and> key = key' \<and> log_size r = log_size r' \<and> root_hash r = root_hash r'"
proof -
  let ?p = "epoch_payload_v3 E e (log_size r) (root_hash r) key"
  let ?p' = "epoch_payload_v3 E e' (log_size r') (root_hash r') key'"
  have g: "entry_hash_v3 E 1 None Epoch EPOCH_ALGORITHM_V3 (epoch_payload_v3 E e (log_size r) (root_hash r) key) (of_nat t) (replicate 32 0) = pinned"
    if "check_genesis E J (V3 e key pinned) files genesis = Inr ()" "epoch_end files (e - 1) = Some r"
      "get_u64 J genesis ''created_at'' = Some t" for e key files genesis r t
    using that by (auto simp: check_genesis_def Let_def result_simps split: if_splits)
  from g [OF assms(1,3,8)] g [OF assms(2,4,9)]
  have eq: "entry_hash_v3 E 1 None Epoch EPOCH_ALGORITHM_V3 ?p (of_nat t) (replicate 32 0) =
      entry_hash_v3 E 1 None Epoch EPOCH_ALGORITHM_V3 ?p' (of_nat t') (replicate 32 0)" by (simp only:)
  have small: "lp_ok (epoch_payload_v3 E e n x k)" if "length x = 32" for e n x k
    using that assms(7) by (simp add: epoch_payload_v3_def EPOCH_PAYLOAD_V3_TAG_def hash32_def)
  have "?p = ?p'"
    using entry_hash_v3_inj [OF eq assms(10)] small [OF assms(5)] small [OF assms(6)]
    by (simp add: account_ok_def EPOCH_ALGORITHM_V3_def)
  with assms(5,6) inj_on_pair [OF assms(11)] show ?thesis
    by (simp add: epoch_payload_v3_def be16.cancel_iff be64.cancel_iff)
qed

lemma scan_leaves_all2:
  "scan_leaves E U J n scanned = Inr leaves \<Longrightarrow> list_all2 (\<lambda>e h. bind_leaf E U J e None None = Inr h) scanned leaves"
  by (induction scanned arbitrary: n leaves) (auto simp: result_simps split: if_splits)

text \<open>
  C5: what a clean watch means. When the owner's watch reports clean against a published root that is the
  root of the log with entry hashes \<open>log\<close>, the entries the server showed are, one by one, the entries of that
  log (none was left out, added or replaced), every entry under the owner's index is for a key the owner
  holds, and every key the owner holds is logged; unless the hash collides in one of the two trees.
\<close>
theorem clean_watch_sees_whole_log:
  assumes "owner_watch E U J scanned published index held = Inr w" "watch_verdict w = ''clean''"
    and "root_hash published = merkle_root (sha256 E) log" "log \<noteq> []" "scanned \<noteq> []" "hash32 (sha256 E)"
    and "scan_leaves E U J 1 scanned = Inr leaves"
    and "inj_on (sha256 E) (set (tree_preimages (sha256 E) leaves) \<union> set (tree_preimages (sha256 E) log))"
  shows "list_all2 (\<lambda>e h. bind_leaf E U J e None None = Inr h) scanned log \<and>
    list_all (\<lambda>e. under_index E J index e \<longrightarrow> list_ex (same_key J e) held) scanned \<and>
    list_all (\<lambda>k. list_ex (\<lambda>e. under_index E J index e \<and> same_key J e k) scanned) held"
proof -
  note all2 = scan_leaves_all2 [OF assms(7)]
  then have "leaves \<noteq> []" using assms(5) by auto
  have root: "merkle_root (sha256 E) leaves = root_hash published"
    using assms(1,7) by (auto simp: owner_watch_def Let_def result_simps split: if_splits)
  then have "mth (sha256 E) leaves = mth (sha256 E) log"
    using \<open>leaves \<noteq> []\<close> assms(3,4) by (simp add: merkle_root_def)
  from mth_binds [OF assms(6) \<open>leaves \<noteq> []\<close> assms(4) this assms(8)] have "leaves = log" .
  moreover have "filter (\<lambda>e. \<not> list_ex (same_key J e) held) (filter (under_index E J index) scanned) = []"
    "filter (\<lambda>k. \<not> list_ex (\<lambda>e. same_key J e k) (filter (under_index E J index) scanned)) held = []"
    using assms(1,2,7) by (auto simp: owner_watch_def Let_def result_simps split: if_splits)
  ultimately show ?thesis using all2 by (auto simp: filter_empty_conv list_all_iff list_ex_iff)
qed

lemma honest_proof_accepted:
  assumes "vrf_prove_index E key account = Inr (index, vrf_proof)" "parse_uuid account_id = Some account"
    and "hex_correct E" "length vrf_proof = PROOF_LEN"
  shows "account_index E parse_uuid (key_public key) account_id (Some (hex_encode E vrf_proof)) = Inr index"
  using assms by (auto simp: account_index_def vrf_prove_index_def hex_correct_def try_array_def Let_def result_simps)

subsection \<open>The theorems at concrete entries\<close>

definition demo_index :: bytes where "demo_index = replicate 64 1"

definition demo_entry_leaf :: bytes where
  "demo_entry_leaf = entry_hash_v3 demo_lib 1 (Some demo_index) KemPq ''ML-KEM'' (utf8 ''k'') 5 (replicate 32 0)"

definition demo_fp :: string where "demo_fp = fingerprint_raw demo_lib (utf8 ''k'')"

definition demo_entry :: "(string \<times> demo_json) list \<Rightarrow> demo_json" where
  "demo_entry extra = DObj (extra @
     [(''entry_version'', DInt 3), (''entry_id'', DInt 1), (''key_purpose'', DStr ''kem_pq''), (''algorithm'', DStr ''ML-KEM''),
      (''public_key'', DStr ''k''), (''created_at'', DInt 5), (''prev_entry_hash'', DStr (hex_encode demo_lib (replicate 32 0))),
      (''entry_hash'', DStr (hex_encode demo_lib demo_entry_leaf)), (''account_index'', DStr (hex_encode demo_lib demo_index)),
      (''public_key_fingerprint'', DStr demo_fp)])"

lemma demo_hex_roundtrip [simp]: "hex_decode demo_lib (hex_encode demo_lib x) = Some x"
  using demo_lib_correct(6) by (simp add: hex_correct_def)

lemma demo_lib_b64 [simp]: "b64_decode demo_lib t = Some (utf8 t)"
  by (simp add: demo_lib_def)

lemma length_demo_hash [simp]: "length (demo_hash x) = 32"
  using demo_hash32 by (simp add: hash32_def)

lemma demo_entry_get:
  assumes "extra = [] \<or> extra = [(''note'', DNull)]"
  shows "get_u64 demo_jsons (demo_entry extra) ''entry_version'' = Some 3"
    "get_u64 demo_jsons (demo_entry extra) ''entry_id'' = Some 1"
    "get_str demo_jsons (demo_entry extra) ''key_purpose'' = Some ''kem_pq''"
    "get_str demo_jsons (demo_entry extra) ''algorithm'' = Some ''ML-KEM''"
    "get_str demo_jsons (demo_entry extra) ''public_key'' = Some ''k''"
    "get_u64 demo_jsons (demo_entry extra) ''created_at'' = Some 5"
    "hex32 demo_lib demo_jsons (j_get demo_jsons (demo_entry extra) ''prev_entry_hash'') = Inr (replicate 32 0)"
    "hex32 demo_lib demo_jsons (j_get demo_jsons (demo_entry extra) ''entry_hash'') = Inr demo_entry_leaf"
    "entry_index demo_lib demo_jsons (demo_entry extra) = Inr (Some demo_index)"
    "get_str demo_jsons (demo_entry extra) ''account_index'' = Some (hex_encode demo_lib demo_index)"
    "get_str demo_jsons (demo_entry extra) ''public_key_fingerprint'' = Some demo_fp"
  using assms
  by (auto simp: get_u64_def get_str_def demo_entry_def demo_jsons_def hex32_def try_array_def entry_index_def
      absent_or_null_def demo_entry_leaf_def entry_hash_v3_def demo_index_def INDEX_LEN_def)

lemma demo_bind_leaf:
  assumes "extra = [] \<or> extra = [(''note'', DNull)]"
  shows "bind_leaf demo_lib (\<lambda>_. None) demo_jsons (demo_entry extra) None None = Inr demo_entry_leaf"
    "leaf_bytes demo_lib (\<lambda>_. None) demo_jsons (demo_entry extra) =
       Some (entry_bytes_v3 1 (Some demo_index) KemPq ''ML-KEM'' (utf8 ''k'') 5 (replicate 32 0))"
    "entry_sized demo_lib demo_jsons (demo_entry extra)"
proof -
  note get = demo_entry_get [OF assms]
  have f: "field (j_u64 demo_jsons) demo_jsons (demo_entry extra) ''entry_version'' = Inr 3"
    "field (j_u64 demo_jsons) demo_jsons (demo_entry extra) ''entry_id'' = Inr 1"
    "field (j_str demo_jsons) demo_jsons (demo_entry extra) ''key_purpose'' = Inr ''kem_pq''"
    "field (j_str demo_jsons) demo_jsons (demo_entry extra) ''algorithm'' = Inr ''ML-KEM''"
    "field (j_str demo_jsons) demo_jsons (demo_entry extra) ''public_key'' = Inr ''k''"
    "field (j_u64 demo_jsons) demo_jsons (demo_entry extra) ''created_at'' = Inr 5"
    by (simp_all only: field_iff get)
  show "bind_leaf demo_lib (\<lambda>_. None) demo_jsons (demo_entry extra) None None = Inr demo_entry_leaf"
    by (simp add: bind_leaf_def f get purpose_of_def fingerprint_for_def demo_fp_def [symmetric] demo_entry_leaf_def [symmetric])
  show "leaf_bytes demo_lib (\<lambda>_. None) demo_jsons (demo_entry extra) =
       Some (entry_bytes_v3 1 (Some demo_index) KemPq ''ML-KEM'' (utf8 ''k'') 5 (replicate 32 0))"
    by (simp add: leaf_bytes_def get purpose_of_def)
  show "entry_sized demo_lib demo_jsons (demo_entry extra)"
    by (simp add: entry_sized_def get)
qed

theorem leaf_binds_one_key_witness:
  "get_str demo_jsons (demo_entry []) ''key_purpose'' = get_str demo_jsons (demo_entry [(''note'', DNull)]) ''key_purpose'' \<and>
   Option.bind (get_str demo_jsons (demo_entry []) ''public_key'') (b64_decode demo_lib) =
     Option.bind (get_str demo_jsons (demo_entry [(''note'', DNull)]) ''public_key'') (b64_decode demo_lib) \<and>
   get_str demo_jsons (demo_entry []) ''public_key_fingerprint'' = get_str demo_jsons (demo_entry [(''note'', DNull)]) ''public_key_fingerprint''"
  by (rule leaf_binds_one_key [OF demo_bind_leaf(1) demo_bind_leaf(1) demo_bind_leaf(2) demo_bind_leaf(2) _ _ demo_bind_leaf(3) demo_bind_leaf(3)])
    (simp_all add: uuid_sized_def)

definition demo_published :: RootLine where
  "demo_published = \<lparr> root_epoch = 2, log_size = 1, root_hash = merkle_root (sha256 demo_lib) [demo_entry_leaf], is_end = False \<rparr>"

theorem clean_watch_sees_whole_log_witness:
  "list_all2 (\<lambda>e h. bind_leaf demo_lib (\<lambda>_. None) demo_jsons e None None = Inr h) [demo_entry []] [demo_entry_leaf] \<and>
   list_all (\<lambda>e. under_index demo_lib demo_jsons demo_index e \<longrightarrow> list_ex (same_key demo_jsons e) [(''kem_pq'', demo_fp)]) [demo_entry []] \<and>
   list_all (\<lambda>k. list_ex (\<lambda>e. under_index demo_lib demo_jsons demo_index e \<and> same_key demo_jsons e k) [demo_entry []]) [(''kem_pq'', demo_fp)]"
proof -
  have scan: "scan_leaves demo_lib (\<lambda>_. None) demo_jsons 1 [demo_entry []] = Inr [demo_entry_leaf]"
    using demo_bind_leaf(1) [of "[]"] by (simp add: demo_entry_get)
  have mine: "under_index demo_lib demo_jsons demo_index (demo_entry [])" "same_key demo_jsons (demo_entry []) (''kem_pq'', demo_fp)"
    by (simp_all add: under_index_def same_key_def demo_entry_get)
  obtain w where w: "owner_watch demo_lib (\<lambda>_. None) demo_jsons [demo_entry []] demo_published demo_index [(''kem_pq'', demo_fp)] = Inr w"
      "watch_verdict w = ''clean''"
    using mine scan by (simp add: owner_watch_def demo_published_def)
  have inj: "inj_on (sha256 demo_lib) (set (tree_preimages (sha256 demo_lib) [demo_entry_leaf]) \<union> set (tree_preimages (sha256 demo_lib) [demo_entry_leaf]))"
    by (simp add: tree_preimages_def tree_joins.simps [of _ "[demo_entry_leaf]"])
  show ?thesis
    by (rule clean_watch_sees_whole_log [OF w _ _ _ _ scan inj])
      (simp_all add: demo_published_def hash32_def)
qed

definition demo_genesis_hash :: bytes where
  "demo_genesis_hash = entry_hash_v3 demo_lib 1 None Epoch EPOCH_ALGORITHM_V3
     (epoch_payload_v3 demo_lib 2 40 (replicate 32 9) (replicate 32 5)) 77 (replicate 32 0)"

definition demo_genesis :: "(string \<times> demo_json) list \<Rightarrow> demo_json" where
  "demo_genesis extra = DObj (extra @
     [(''entry_version'', DInt 3), (''entry_id'', DInt 1), (''key_purpose'', DStr ''epoch''), (''created_at'', DInt 77),
      (''public_key'', DStr (b64_encode demo_lib (epoch_payload_v3 demo_lib 2 40 (replicate 32 9) (replicate 32 5))))])"

lemma demo_check_genesis:
  assumes "extra = [] \<or> extra = [(''note'', DNull)]"
  shows "check_genesis demo_lib demo_jsons (V3 2 (replicate 32 5) demo_genesis_hash) demo_files (demo_genesis extra) = Inr ()"
    "get_u64 demo_jsons (demo_genesis extra) ''created_at'' = Some 77"
proof -
  have b64: "utf8 (b64_encode demo_lib x) = x" for x
    using demo_lib_correct(5) by (simp add: b64_correct_def)
  have e: "epoch_end demo_files 1 = Some (demo_root 1 40 True)"
    by (simp add: epoch_end_def demo_files_def demo_root_def)
  have g: "get_u64 demo_jsons (demo_genesis extra) ''entry_id'' = Some 1" "get_u64 demo_jsons (demo_genesis extra) ''entry_version'' = Some 3"
    "get_str demo_jsons (demo_genesis extra) ''key_purpose'' = Some ''epoch''"
    "absent_or_null demo_jsons (demo_genesis extra) ''account_index''"
    "get_str demo_jsons (demo_genesis extra) ''public_key'' =
       Some (b64_encode demo_lib (epoch_payload_v3 demo_lib 2 40 (replicate 32 9) (replicate 32 5)))"
    and t: "get_u64 demo_jsons (demo_genesis extra) ''created_at'' = Some 77"
    using assms by (auto simp: get_u64_def get_str_def demo_genesis_def demo_jsons_def absent_or_null_def)
  show "check_genesis demo_lib demo_jsons (V3 2 (replicate 32 5) demo_genesis_hash) demo_files (demo_genesis extra) = Inr ()"
    by (simp add: check_genesis_def e g t b64 demo_root_def demo_genesis_hash_def)
  show "get_u64 demo_jsons (demo_genesis extra) ''created_at'' = Some 77" by (rule t)
qed

theorem genesis_pins_foundation_witness:
  "(2 :: u16) = 2 \<and> replicate 32 (5 :: byte) = replicate 32 5 \<and> log_size (demo_root 1 40 True) = log_size (demo_root 1 40 True) \<and>
     root_hash (demo_root 1 40 True) = root_hash (demo_root 1 40 True)"
  by (rule genesis_pins_foundation [OF demo_check_genesis(1) demo_check_genesis(1) _ _ _ _ _ demo_check_genesis(2) demo_check_genesis(2),
        of "[]" "[(''note'', DNull)]"])
    (simp_all add: epoch_end_def demo_files_def demo_root_def hash32_def)

end
