(* ===== verification/Http_Client.thy ===== *)
theory Http_Client
  imports Keystore_Labels Json_Values Jcs
begin

section \<open>The HTTP client\<close>

text \<open>
  The API half of \<^verbatim>\<open>cli/src/http.rs\<close>: the mapping of refused requests to errors, the retry loop, signed
  requests, and the read-only mode in which every write is refused. The \<^verbatim>\<open>ureq\<close> agent is the parameter \<open>call\<close>,
  which takes a request to its outcome and may change the network's state \<open>'w\<close>; the field \<open>sent\<close> of the client
  records the requests put on the wire, the newest first. The system clock and the random nonces are the argument
  \<open>mint\<close>, one pair for each attempt of a call; no clock reading stands for a clock before 1970. The pauses
  between attempts and the hints printed for the user have no counterpart.
\<close>

subsection \<open>Requests and their outcomes\<close>

record request =
  req_method :: string
  req_url :: string
  req_headers :: "(string \<times> string) list"
  req_body :: "bytes option"

datatype outcome =
    HttpOk "string option"
  | HttpStatus nat string
  | Transport

record 'w http =
  READ_ONLY :: bool
  sent :: "request list"
  net :: 'w

type_synonym 'w agent = "request \<Rightarrow> 'w \<Rightarrow> outcome \<times> 'w"

definition MAX_RETRIES :: nat where "MAX_RETRIES = 3"

definition network :: CliError where "network = new_error 31 ''network_error''"
definition cli_outdated :: CliError where "cli_outdated = new_error 16 ''cli_outdated''"

definition backoff :: "nat \<Rightarrow> nat" where "backoff attempt = 2 ^ (attempt - 1)"

definition transmit :: "'w agent \<Rightarrow> request \<Rightarrow> 'w http \<Rightarrow> outcome \<times> 'w http" where
  "transmit call req h =
     (let (out, w) = call req (net h) in (out, h\<lparr> sent := req # sent h, net := w \<rparr>))"

definition epoch_refusal :: "'j json_lib \<Rightarrow> nat \<Rightarrow> string \<Rightarrow> CliError option" where
  "epoch_refusal J status body =
     Option.bind (j_from_str J body) (\<lambda>doc.
     Option.bind (j_get J doc ''error'') (\<lambda>err.
     Option.bind (get_str J err ''code'') (\<lambda>name.
     if status = 410 \<and> name = ''epoch_retired'' \<or> status = 404 \<and> name = ''epoch_unknown''
     then Some epoch_changed else None)))"

definition api_status_error :: "'j json_lib \<Rightarrow> nat \<Rightarrow> string \<Rightarrow> CliError" where
  "api_status_error J status body =
     (case epoch_refusal J status body of
        Some refusal \<Rightarrow> refusal
      | None \<Rightarrow>
          if status = 401 then authentication_failed
          else if status = 403 then authorization_denied
          else if status = 404 then not_found
          else if status = 409 then conflict
          else network)"

subsection \<open>The read-only mode\<close>

definition read_only :: "('w http \<Rightarrow> 'a \<times> 'w http) \<Rightarrow> 'w http \<Rightarrow> 'a \<times> 'w http" where
  "read_only f h = (let (r, h') = f (h\<lparr> READ_ONLY := True \<rparr>) in (r, h'\<lparr> READ_ONLY := READ_ONLY h \<rparr>))"

definition refuse_write_if_read_only :: "'w http \<Rightarrow> unit cli_result" where
  "refuse_write_if_read_only h = (if READ_ONLY h then Inl generic else Inr ())"

subsection \<open>The retry loop\<close>

text \<open>\<open>settle\<close> is what one outcome means for a call that has already been retried \<open>attempt\<close> times: \<open>None\<close> to try again.\<close>

definition settle :: "'j json_lib \<Rightarrow> nat \<Rightarrow> outcome \<Rightarrow> string cli_result option" where
  "settle J attempt out =
     (case out of
        HttpOk (Some text) \<Rightarrow> Some (Inr text)
      | HttpOk None \<Rightarrow> Some (Inl network)
      | HttpStatus status body \<Rightarrow>
          (if status = 400
           then Some (Inl (if contains_str ''cli_outdated'' body then cli_outdated else invalid_data))
           else if 500 \<le> status \<and> status < 600 \<and> attempt < MAX_RETRIES then None
           else Some (Inl (api_status_error J status body)))
      | Transport \<Rightarrow> if attempt < MAX_RETRIES then None else Some (Inl network))"

lemma settle_retry: "settle J attempt out = None \<Longrightarrow> attempt < MAX_RETRIES"
  by (auto simp: settle_def split: outcome.splits option.splits if_splits)

function call_loop ::
  "'j json_lib \<Rightarrow> 'w agent \<Rightarrow> (nat \<Rightarrow> request cli_result) \<Rightarrow> nat \<Rightarrow> 'w http \<Rightarrow> string cli_result \<times> 'w http" where
  "call_loop J call build attempt h =
     (case build attempt of
        Inl e \<Rightarrow> (Inl e, h)
      | Inr req \<Rightarrow>
          (case transmit call req h of
             (out, h') \<Rightarrow>
               (case settle J attempt out of
                  Some r \<Rightarrow> (r, h')
                | None \<Rightarrow> call_loop J call build (attempt + 1) h')))"
  by pat_completeness auto
termination
  by (relation "measure (\<lambda>(_, _, _, attempt, _). MAX_RETRIES - attempt)") (auto dest: settle_retry)

declare call_loop.simps [simp del]

definition version_header :: "string \<Rightarrow> string \<times> string" where
  "version_header CLI_VERSION = (''Signet-Cli-Version'', CLI_VERSION)"

definition get_request :: "string \<Rightarrow> string \<Rightarrow> (string \<times> string) list \<Rightarrow> request" where
  "get_request CLI_VERSION url headers =
     \<lparr> req_method = ''GET'', req_url = url, req_headers = version_header CLI_VERSION # headers, req_body = None \<rparr>"

definition get_text ::
  "string \<Rightarrow> 'j json_lib \<Rightarrow> 'w agent \<Rightarrow> string \<Rightarrow> (string \<times> string) list \<Rightarrow> 'w http \<Rightarrow> string cli_result \<times> 'w http" where
  "get_text CLI_VERSION J call url headers h =
     call_loop J call (\<lambda>_. Inr (get_request CLI_VERSION url headers)) 0 h"

definition parsed :: "'j json_lib \<Rightarrow> string cli_result \<times> 's \<Rightarrow> 'j cli_result \<times> 's" where
  "parsed J r = (rbind (fst r) (\<lambda>text. ok_or invalid_data (j_from_str J text)), snd r)"

definition get_json ::
  "string \<Rightarrow> 'j json_lib \<Rightarrow> 'w agent \<Rightarrow> string \<Rightarrow> (string \<times> string) list \<Rightarrow> 'w http \<Rightarrow> 'j cli_result \<times> 'w http" where
  "get_json CLI_VERSION J call url headers h = parsed J (get_text CLI_VERSION J call url headers h)"

definition get_text_once ::
  "string \<Rightarrow> 'j json_lib \<Rightarrow> 'w agent \<Rightarrow> string \<Rightarrow> 'w http \<Rightarrow> string cli_result \<times> 'w http" where
  "get_text_once CLI_VERSION J call url h =
     (let (out, h') = transmit call (get_request CLI_VERSION url []) h in
      (case out of
         HttpOk (Some text) \<Rightarrow> Inr text
       | HttpOk None \<Rightarrow> Inl network
       | HttpStatus status body \<Rightarrow> Inl (api_status_error J status body)
       | Transport \<Rightarrow> Inl network, h'))"

definition with_body :: "bytes option \<Rightarrow> (string \<times> string) list \<Rightarrow> (string \<times> string) list" where
  "with_body body headers =
     (case body of Some _ \<Rightarrow> headers @ [(''Content-Type'', ''application/json'')] | None \<Rightarrow> headers)"

definition post_text ::
  "string \<Rightarrow> 'j json_lib \<Rightarrow> 'w agent \<Rightarrow> string \<Rightarrow> bytes option \<Rightarrow> 'w http \<Rightarrow> string cli_result \<times> 'w http" where
  "post_text CLI_VERSION J call url body h =
     (case refuse_write_if_read_only h of
        Inl e \<Rightarrow> (Inl e, h)
      | Inr _ \<Rightarrow>
          call_loop J call (\<lambda>_. Inr \<lparr> req_method = ''POST'', req_url = url,
            req_headers = with_body body [version_header CLI_VERSION], req_body = body \<rparr>) 0 h)"

definition post_json ::
  "string \<Rightarrow> 'j json_lib \<Rightarrow> 'w agent \<Rightarrow> string \<Rightarrow> bytes option \<Rightarrow> 'w http \<Rightarrow> 'j cli_result \<times> 'w http" where
  "post_json CLI_VERSION J call url body h = parsed J (post_text CLI_VERSION J call url body h)"

subsection \<open>Signed requests\<close>

definition REQUEST_MLDSA_CTX :: bytes where "REQUEST_MLDSA_CTX = utf8 ''signet:req:v1''"
definition MLDSA87_SIG_LEN :: nat where "MLDSA87_SIG_LEN = 4627"

definition request_signature :: "'s keystore \<Rightarrow> 's \<Rightarrow> KeyLabel \<Rightarrow> bytes \<Rightarrow> bytes cli_result" where
  "request_signature ks s signing canonical =
     rbind (label_from_handle (label_handle signing) SigningPq) (\<lambda>pq_label.
     rbind (ks_exists ks s pq_label) (\<lambda>has_pq.
     if \<not> has_pq then ks_sign ks s signing canonical
     else
       rbind (ks_sign ks s signing canonical) (\<lambda>sig_es.
       rbind (ks_ml_dsa_sign ks s pq_label canonical REQUEST_MLDSA_CTX) (\<lambda>sig_pq.
       if length sig_pq \<noteq> MLDSA87_SIG_LEN then Inl generic else Inr (sig_es @ sig_pq)))))"

type_synonym minted = "nat \<Rightarrow> nat option \<times> bytes"

definition auth_headers ::
  "crypto_lib \<Rightarrow> 's keystore \<Rightarrow> 's \<Rightarrow> nat option \<times> bytes \<Rightarrow> KeyLabel \<Rightarrow> string \<Rightarrow> string \<Rightarrow> bytes \<Rightarrow>
     (string \<times> string) list cli_result" where
  "auth_headers E ks s fresh signing method path body =
     rbind (ks_meta ks s signing) (\<lambda>meta.
     rbind (ok_or network (fst fresh)) (\<lambda>secs.
     let fp = km_fingerprint meta;
         timestamp = show_nat secs;
         nonce = hex_encode E (snd fresh);
         canonical = signet_v1_canonical_bytes E method path body timestamp nonce fp
     in rbind (request_signature ks s signing canonical) (\<lambda>sig.
        Inr [(''Signet-Timestamp'', timestamp), (''Signet-Nonce'', nonce), (''Signet-Fingerprint'', fp),
             (''Signet-Signature'', b64_encode E sig)])))"

definition signed_request ::
  "string \<Rightarrow> crypto_lib \<Rightarrow> 's keystore \<Rightarrow> 's \<Rightarrow> minted \<Rightarrow> KeyLabel \<Rightarrow> string \<Rightarrow> string \<Rightarrow> string \<Rightarrow> bytes option \<Rightarrow> nat \<Rightarrow>
     request cli_result" where
  "signed_request CLI_VERSION E ks s mint signing method base_url path body attempt =
     rbind (auth_headers E ks s (mint attempt) signing method path (case body of Some b \<Rightarrow> b | None \<Rightarrow> [])) (\<lambda>headers.
     if method \<notin> {''GET'', ''POST'', ''PATCH'', ''DELETE''} then Inl invalid_args
     else Inr \<lparr> req_method = method, req_url = base_url @ path,
                req_headers = with_body body (version_header CLI_VERSION # headers), req_body = body \<rparr>)"

definition signed_call ::
  "string \<Rightarrow> crypto_lib \<Rightarrow> 'j json_lib \<Rightarrow> 'w agent \<Rightarrow> 's keystore \<Rightarrow> 's \<Rightarrow> minted \<Rightarrow> KeyLabel \<Rightarrow> string \<Rightarrow> string \<Rightarrow> string \<Rightarrow>
     bytes option \<Rightarrow> 'w http \<Rightarrow> string cli_result \<times> 'w http" where
  "signed_call CLI_VERSION E J call ks s mint signing method base_url path body h =
     (case if method \<noteq> ''GET'' then refuse_write_if_read_only h else Inr () of
        Inl e \<Rightarrow> (Inl e, h)
      | Inr _ \<Rightarrow> call_loop J call (signed_request CLI_VERSION E ks s mint signing method base_url path body) 0 h)"

text \<open>The typed entry points only fix the method and what becomes of the answer.\<close>

definition get_text_signed ::
  "string \<Rightarrow> crypto_lib \<Rightarrow> 'j json_lib \<Rightarrow> 'w agent \<Rightarrow> 's keystore \<Rightarrow> 's \<Rightarrow> minted \<Rightarrow> KeyLabel \<Rightarrow> string \<Rightarrow> string \<Rightarrow>
     'w http \<Rightarrow> string cli_result \<times> 'w http" where
  "get_text_signed V E J call ks s mint signing base_url path =
     signed_call V E J call ks s mint signing ''GET'' base_url path None"

definition get_json_signed ::
  "string \<Rightarrow> crypto_lib \<Rightarrow> 'j json_lib \<Rightarrow> 'w agent \<Rightarrow> 's keystore \<Rightarrow> 's \<Rightarrow> minted \<Rightarrow> KeyLabel \<Rightarrow> string \<Rightarrow> string \<Rightarrow>
     'w http \<Rightarrow> 'j cli_result \<times> 'w http" where
  "get_json_signed V E J call ks s mint signing base_url path h =
     parsed J (signed_call V E J call ks s mint signing ''GET'' base_url path None h)"

definition post_json_signed ::
  "string \<Rightarrow> crypto_lib \<Rightarrow> 'j json_lib \<Rightarrow> 'w agent \<Rightarrow> 's keystore \<Rightarrow> 's \<Rightarrow> minted \<Rightarrow> KeyLabel \<Rightarrow> string \<Rightarrow> string \<Rightarrow> bytes \<Rightarrow>
     'w http \<Rightarrow> 'j cli_result \<times> 'w http" where
  "post_json_signed V E J call ks s mint signing base_url path body h =
     parsed J (signed_call V E J call ks s mint signing ''POST'' base_url path (Some body) h)"

definition post_signed ::
  "string \<Rightarrow> crypto_lib \<Rightarrow> 'j json_lib \<Rightarrow> 'w agent \<Rightarrow> 's keystore \<Rightarrow> 's \<Rightarrow> minted \<Rightarrow> KeyLabel \<Rightarrow> string \<Rightarrow> string \<Rightarrow>
     'w http \<Rightarrow> string cli_result \<times> 'w http" where
  "post_signed V E J call ks s mint signing base_url path =
     signed_call V E J call ks s mint signing ''POST'' base_url path None"

definition patch_json_signed ::
  "string \<Rightarrow> crypto_lib \<Rightarrow> 'j json_lib \<Rightarrow> 'w agent \<Rightarrow> 's keystore \<Rightarrow> 's \<Rightarrow> minted \<Rightarrow> KeyLabel \<Rightarrow> string \<Rightarrow> string \<Rightarrow> bytes \<Rightarrow>
     'w http \<Rightarrow> 'j cli_result \<times> 'w http" where
  "patch_json_signed V E J call ks s mint signing base_url path body h =
     parsed J (signed_call V E J call ks s mint signing ''PATCH'' base_url path (Some body) h)"

definition delete_signed ::
  "string \<Rightarrow> crypto_lib \<Rightarrow> 'j json_lib \<Rightarrow> 'w agent \<Rightarrow> 's keystore \<Rightarrow> 's \<Rightarrow> minted \<Rightarrow> KeyLabel \<Rightarrow> string \<Rightarrow> string \<Rightarrow>
     'w http \<Rightarrow> unit cli_result \<times> 'w http" where
  "delete_signed V E J call ks s mint signing base_url path h =
     (let (r, h') = signed_call V E J call ks s mint signing ''DELETE'' base_url path None h
      in (rbind r (\<lambda>_. Inr ()), h'))"

definition delete_json_signed ::
  "string \<Rightarrow> crypto_lib \<Rightarrow> 'j json_lib \<Rightarrow> 'w agent \<Rightarrow> 's keystore \<Rightarrow> 's \<Rightarrow> minted \<Rightarrow> KeyLabel \<Rightarrow> string \<Rightarrow> string \<Rightarrow> bytes \<Rightarrow>
     'w http \<Rightarrow> 'j cli_result \<times> 'w http" where
  "delete_json_signed V E J call ks s mint signing base_url path body h =
     parsed J (signed_call V E J call ks s mint signing ''DELETE'' base_url path (Some body) h)"

subsection \<open>Running an epoch-bound attempt again\<close>

text \<open>\<^verbatim>\<open>once_more_on_epoch_change\<close> of \<^verbatim>\<open>cli/src/anchors.rs\<close>.\<close>

definition once_more_on_epoch_change ::
  "('w http \<Rightarrow> 'a cli_result \<times> 'w http) \<Rightarrow> 'w http \<Rightarrow> 'a cli_result \<times> 'w http" where
  "once_more_on_epoch_change attempt h =
     (case read_only attempt h of
        (Inl e, h') \<Rightarrow> if epoch_moved e then read_only attempt h' else (Inl e, h')
      | other \<Rightarrow> other)"

subsection \<open>What a call puts on the wire\<close>

lemma transmit_facts:
  "transmit call req h = (out, h') \<Longrightarrow> sent h' = req # sent h \<and> READ_ONLY h' = READ_ONLY h"
  by (auto simp: transmit_def Let_def split: prod.splits)

text \<open>A call sends the requests of its first attempts, in order, at most one more than the retries it has left.\<close>

lemma call_loop_sent:
  assumes "attempt \<le> MAX_RETRIES"
  shows "\<exists>reqs. sent (snd (call_loop J call build attempt h)) = rev reqs @ sent h \<and>
    map Inr reqs = map build [attempt..<attempt + length reqs] \<and> attempt + length reqs \<le> Suc MAX_RETRIES"
  using assms
proof (induction J call build attempt h rule: call_loop.induct)
  case (1 J call build attempt h)
  show ?case
  proof (cases "build attempt")
    case (Inl e)
    then show ?thesis using "1.prems" by (intro exI [of _ "[]"]) (simp add: call_loop.simps)
  next
    case (Inr req)
    obtain out h' where t: "transmit call req h = (out, h')" by fastforce
    note f = transmit_facts [OF t]
    show ?thesis
    proof (cases "settle J attempt out")
      case None
      then have lt: "attempt < MAX_RETRIES" by (rule settle_retry)
      have "attempt + 1 \<le> MAX_RETRIES" using lt by simp
      from "1.IH" [OF Inr t [symmetric] None this] obtain reqs where
        r: "sent (snd (call_loop J call build (attempt + 1) h')) = rev reqs @ sent h'"
          "map Inr reqs = map build [attempt + 1..<attempt + 1 + length reqs]" "attempt + 1 + length reqs \<le> Suc MAX_RETRIES"
        by blast
      have "[attempt..<attempt + length (req # reqs)] = attempt # [attempt + 1..<attempt + 1 + length reqs]"
        by (metis Suc_eq_plus1 add_Suc_right add_Suc_shift length_Cons less_add_Suc1 upt_conv_Cons)
      with r f Inr t None show ?thesis
        by (intro exI [of _ "req # reqs"]) (simp add: call_loop.simps [of J call build attempt h])
    next
      case (Some r)
      with Inr t f "1.prems" show ?thesis
        by (intro exI [of _ "[req]"]) (simp add: call_loop.simps [of J call build attempt h])
    qed
  qed
qed

lemma call_loop_flag: "READ_ONLY (snd (call_loop J call build attempt h)) = READ_ONLY h"
proof (induction J call build attempt h rule: call_loop.induct)
  case (1 J call build attempt h)
  show ?case
  proof (cases "build attempt")
    case (Inr req)
    obtain out h' where t: "transmit call req h = (out, h')" by fastforce
    show ?thesis
      using "1.IH" [OF Inr t [symmetric]] Inr t transmit_facts [OF t]
      by (cases "settle J attempt out") (simp_all add: call_loop.simps [of J call build attempt h])
  qed (simp add: call_loop.simps)
qed

definition nonce_of :: "request \<Rightarrow> string option" where
  "nonce_of req = map_of (req_headers req) ''Signet-Nonce''"

text \<open>The signature a request carries is over the method, path and body it is sent with, and over its own nonce.\<close>

definition signs_itself ::
  "crypto_lib \<Rightarrow> 's keystore \<Rightarrow> 's \<Rightarrow> KeyLabel \<Rightarrow> string \<Rightarrow> request \<Rightarrow> bool" where
  "signs_itself E ks s signing path req \<longleftrightarrow>
     (\<exists>timestamp nonce fp sig.
        map_of (req_headers req) ''Signet-Timestamp'' = Some timestamp \<and> nonce_of req = Some nonce \<and>
        map_of (req_headers req) ''Signet-Fingerprint'' = Some fp \<and>
        map_of (req_headers req) ''Signet-Signature'' = Some (b64_encode E sig) \<and>
        request_signature ks s signing (signet_v1_canonical_bytes E (req_method req) path
          (case req_body req of Some b \<Rightarrow> b | None \<Rightarrow> []) timestamp nonce fp) = Inr sig)"

lemma signed_request_Inr:
  assumes "signed_request V E ks s mint signing method base_url path body n = Inr req"
  shows "signs_itself E ks s signing path req \<and> nonce_of req = Some (hex_encode E (snd (mint n))) \<and>
    req_method req = method \<and> req_url req = base_url @ path \<and> req_body req = body"
  using assms
  by (auto simp: signed_request_def auth_headers_def signs_itself_def nonce_of_def version_header_def with_body_def
      Let_def result_simps split: if_splits option.splits)

text \<open>
  C26: a retried request is never a replay. A signed call sends at most four requests; each carries a signature
  over exactly the method, path, body, time and nonce it is sent with, and no two carry the same nonce, provided the
  random nonces drawn for the attempts differ.
\<close>
theorem signed_call_never_replays:
  assumes "inj_on (\<lambda>n. snd (mint n)) {..MAX_RETRIES}" "hex_correct E"
  shows "\<exists>reqs. sent (snd (signed_call V E J call ks s mint signing method base_url path body h)) = rev reqs @ sent h \<and>
    length reqs \<le> Suc MAX_RETRIES \<and> distinct (map nonce_of reqs) \<and>
    list_all (\<lambda>req. signs_itself E ks s signing path req \<and> req_method req = method \<and> req_body req = body) reqs"
proof (cases "method \<noteq> ''GET'' \<and> READ_ONLY h")
  case True
  then show ?thesis by (intro exI [of _ "[]"]) (simp add: signed_call_def refuse_write_if_read_only_def)
next
  case False
  let ?build = "signed_request V E ks s mint signing method base_url path body"
  obtain reqs where r: "sent (snd (call_loop J call ?build 0 h)) = rev reqs @ sent h"
      "map Inr reqs = map ?build [0..<length reqs]" "length reqs \<le> Suc MAX_RETRIES"
    using call_loop_sent [of 0 J call ?build h] by auto
  have nth: "?build i = Inr (reqs ! i)" if "i < length reqs" for i
    using r(2) that by (metis add.left_neutral diff_zero length_map length_upt nth_map nth_upt)
  have "distinct (map nonce_of reqs)"
  proof (clarsimp simp: distinct_conv_nth)
    fix i j assume ij: "i < length reqs" "j < length reqs" "i \<noteq> j" "nonce_of (reqs ! i) = nonce_of (reqs ! j)"
    then have "hex_encode E (snd (mint i)) = hex_encode E (snd (mint j))"
      using signed_request_Inr [OF nth [of i]] signed_request_Inr [OF nth [of j]] by simp
    then have "snd (mint i) = snd (mint j)" using hex_encode_inj [OF assms(2)] by blast
    then show False using inj_onD [OF assms(1), of i j] ij r(3) by simp
  qed
  moreover have "list_all (\<lambda>req. signs_itself E ks s signing path req \<and> req_method req = method \<and> req_body req = body) reqs"
    using signed_request_Inr [OF nth] by (simp add: list_all_length)
  moreover have "signed_call V E J call ks s mint signing method base_url path body h = call_loop J call ?build 0 h"
    using False by (auto simp: signed_call_def refuse_write_if_read_only_def)
  ultimately show ?thesis using r by auto
qed

subsection \<open>A concrete call\<close>

definition demo_signer_label :: KeyLabel where
  "demo_signer_label = \<lparr> label_handle = ''amy'', label_purpose = Purpose.Signing \<rparr>"

definition demo_ks :: "unit keystore" where
  "demo_ks = \<lparr> ks_tier = Software, ks_generate = (\<lambda>s l a. (Inl generic, s)),
     ks_meta = (\<lambda>s l. Inr \<lparr> km_label = full l, km_purpose = ''signing'', km_algorithm = ''ES256'', km_storage = ''software'', km_fingerprint = ''ab'', km_public_key = [4] \<rparr>),
     ks_sign = (\<lambda>s l m. Inr (take 64 (m @ replicate 64 0))), ks_ecdh = (\<lambda>s l p. Inl generic),
     ks_ml_kem_decapsulate = (\<lambda>s l c. Inl generic), ks_ml_dsa_sign = (\<lambda>s l m c. Inl generic), ks_list = (\<lambda>s. Inr []),
     ks_delete = (\<lambda>s l. (Inl generic, s)), ks_exists = (\<lambda>s l. Inr False) \<rparr>"

definition demo_agent :: "nat agent" where
  "demo_agent req n = (if n = 0 then Transport else HttpOk (Some ''{}''), n - 1)"

definition demo_mint :: minted where "demo_mint n = (Some 1000, [of_nat n])"

theorem signed_call_never_replays_witness:
  "\<exists>reqs. sent (snd (signed_call ''1.0'' demo_lib demo_jsons demo_agent demo_ks () demo_mint demo_signer_label ''POST'' ''https://s'' ''/v1''
       (Some [1]) \<lparr> READ_ONLY = False, sent = [], net = 0 \<rparr>)) = rev reqs @ [] \<and>
    length reqs \<le> Suc MAX_RETRIES \<and> distinct (map nonce_of reqs) \<and>
    list_all (\<lambda>req. signs_itself demo_lib demo_ks () demo_signer_label ''/v1'' req \<and> req_method req = ''POST'' \<and> req_body req = Some [1]) reqs"
proof -
  have "inj_on (\<lambda>n. snd (demo_mint n)) {..MAX_RETRIES}"
  proof (rule inj_onI)
    fix m n assume mn: "m \<in> {..MAX_RETRIES}" "n \<in> {..MAX_RETRIES}" "snd (demo_mint m) = snd (demo_mint n)"
    then have "unat (of_nat m :: byte) = unat (of_nat n :: byte)" by (simp add: demo_mint_def)
    with mn(1,2) show "m = n" by (simp add: unat_of_nat MAX_RETRIES_def)
  qed
  from signed_call_never_replays [OF this demo_lib_correct(6), of "''1.0''" demo_jsons demo_agent demo_ks "()" demo_signer_label "''POST''" "''https://s''"
      "''/v1''" "Some [1]" "\<lparr> READ_ONLY = False, sent = [], net = 0 \<rparr>"]
  show ?thesis by simp
qed

end
