(* ===== verification/Session.thy ===== *)
theory Session
  imports Http_Client
begin

section \<open>A command's session with the service\<close>

text \<open>
  What every signed call of one command shares: the client's version, the libraries, the keystore with its state, the
  labels of the signing and the key-agreement key, and the server's address. The \<open>n\<close>-th request that the command sends
  is stamped with the \<open>n\<close>-th reading of the clock and the \<open>n\<close>-th draw of the random generator.
\<close>

record ('w, 'j, 's) session =
  ss_version :: string
  ss_lib :: crypto_lib
  ss_json :: "'j json_lib"
  ss_agent :: "'w agent"
  ss_keystore :: "'s keystore"
  ss_keys :: 's
  ss_mint :: minted
  ss_signing :: KeyLabel
  ss_kem :: KeyLabel
  ss_url :: string

definition next_mint :: "('w, 'j, 's) session \<Rightarrow> 'w http \<Rightarrow> minted" where
  "next_mint ss h n = ss_mint ss (length (sent h) + n)"

definition api_get :: "('w, 'j, 's) session \<Rightarrow> string \<Rightarrow> 'w http \<Rightarrow> 'j cli_result \<times> 'w http" where
  "api_get ss path h =
     get_json_signed (ss_version ss) (ss_lib ss) (ss_json ss) (ss_agent ss) (ss_keystore ss) (ss_keys ss)
       (next_mint ss h) (ss_signing ss) (ss_url ss) path h"

definition api_post :: "('w, 'j, 's) session \<Rightarrow> string \<Rightarrow> bytes \<Rightarrow> 'w http \<Rightarrow> 'j cli_result \<times> 'w http" where
  "api_post ss path body h =
     post_json_signed (ss_version ss) (ss_lib ss) (ss_json ss) (ss_agent ss) (ss_keystore ss) (ss_keys ss)
       (next_mint ss h) (ss_signing ss) (ss_url ss) path body h"

definition api_delete :: "('w, 'j, 's) session \<Rightarrow> string \<Rightarrow> 'w http \<Rightarrow> unit cli_result \<times> 'w http" where
  "api_delete ss path h =
     delete_signed (ss_version ss) (ss_lib ss) (ss_json ss) (ss_agent ss) (ss_keystore ss) (ss_keys ss)
       (next_mint ss h) (ss_signing ss) (ss_url ss) path h"

end
