(* ===== verification/Bucket_Transport.thy ===== *)
theory Bucket_Transport
  imports Http_Client
begin

section \<open>The object-storage transport\<close>

text \<open>
  \<^verbatim>\<open>cli/src/bucket_transport.rs\<close>: one HTTP/1.1 request to a pre-signed URL, over a fresh connection or one from the
  download pool. A connection is what its socket will do: \<open>incoming\<close> lists what each check of the deadline and
  read brings (\<open>Late\<close> is a deadline that has passed, an empty read or the end of the list a closed connection),
  \<open>outgoing\<close> what each write does, and \<open>written\<close> the bytes put on it so far. The operating system's resolver and
  sockets and the TLS library are the parameter \<open>sockets\<close>. How long the timers run is not modelled: the durations
  are computed in floating point from the measured rate and only decide which of these events happen; the measured
  rate is not modelled either, and the pool is used by one worker at a time.
\<close>

subsection \<open>URLs\<close>

definition redact :: "string \<Rightarrow> string" where
  "redact url = (case split_once ''?'' url of Some (head, _) \<Rightarrow> head @ ''?<redacted>'' | None \<Rightarrow> url)"

record Target =
  t_host :: string
  t_port :: nat
  t_authority :: string
  request_target :: string
  t_tls :: bool

definition rsplit_once :: "char \<Rightarrow> string \<Rightarrow> (string \<times> string) option" where
  "rsplit_once d s = map_option (\<lambda>(a, b). (rev b, rev a)) (split_once [d] (rev s))"

definition split_authority :: "nat \<Rightarrow> string \<Rightarrow> (string \<times> nat) cli_result" where
  "split_authority default_port authority =
     (case strip_prefix ''['' authority of
        Some rest \<Rightarrow>
          rbind (ok_or network (split_once '']'' rest)) (\<lambda>(inside, after).
          rbind (if after = [] then Inr default_port
                 else rbind (ok_or network (strip_prefix '':'' after)) (\<lambda>p. ok_or network (parse_unsigned 65536 p)))
            (\<lambda>port. Inr (inside, port)))
      | None \<Rightarrow>
          (case rsplit_once (CHR '':'') authority of
             Some (h, p) \<Rightarrow> rbind (ok_or network (parse_unsigned 65536 p)) (\<lambda>port. Inr (h, port))
           | None \<Rightarrow> Inr (authority, default_port)))"

definition wire_authority :: "nat \<Rightarrow> string \<Rightarrow> nat \<Rightarrow> string" where
  "wire_authority default_port host port =
     (let name = (if CHR '':'' \<in> set host then ''['' @ host @ '']'' else host)
      in if port = default_port then name else name @ '':'' @ show_nat port)"

definition parse_url :: "string \<Rightarrow> Target cli_result" where
  "parse_url url =
     rbind (case strip_prefix ''https://'' url of
              Some rest \<Rightarrow> Inr (True, rest)
            | None \<Rightarrow> (case strip_prefix ''http://'' url of Some rest \<Rightarrow> Inr (False, rest) | None \<Rightarrow> Inl network))
       (\<lambda>(tls, rest).
     let authority = takeWhile (\<lambda>c. c \<noteq> CHR ''/'') rest;
         path = (case dropWhile (\<lambda>c. c \<noteq> CHR ''/'') rest of [] \<Rightarrow> ''/'' | p \<Rightarrow> p)
     in if CHR ''@'' \<in> set authority then Inl network
        else
          let default_port = (if tls then 443 else 80) in
          rbind (split_authority default_port authority) (\<lambda>(host, port).
          if host = [] then Inl network
          else Inr \<lparr> t_host = host, t_port = port, t_authority = wire_authority default_port host port,
                     request_target = path, t_tls = tls \<rparr>))"

subsection \<open>Connections\<close>

text \<open>
  \<open>calls\<close> lists the outcomes of the calls that arm the socket's timers and flush it, in order; when it is exhausted
  they succeed. \<open>in_turn\<close> runs the next call on the state the previous one left, unless that failed.
\<close>

datatype read_event = Late | Got bytes | ReadTimeout | ReadError

datatype write_event = WriteLate | Wrote nat | WriteTimeout | WriteInterrupted | WriteError

record conn =
  incoming :: "read_event list"
  outgoing :: "write_event list"
  calls :: "bool list"
  written :: bytes

definition in_turn :: "'a cli_result \<times> 's \<Rightarrow> ('a \<Rightarrow> 's \<Rightarrow> 'b cli_result \<times> 's) \<Rightarrow> 'b cli_result \<times> 's" where
  "in_turn m f = (case m of (Inl e, s) \<Rightarrow> (Inl e, s) | (Inr x, s) \<Rightarrow> f x s)"

definition socket_call :: "conn \<Rightarrow> unit cli_result \<times> conn" where
  "socket_call c = (case calls c of [] \<Rightarrow> (Inr (), c) | ok # r \<Rightarrow> (if ok then Inr () else Inl network, c\<lparr> calls := r \<rparr>))"

definition arm_read_timeout :: "conn \<Rightarrow> unit cli_result \<times> conn" where "arm_read_timeout = socket_call"
definition arm_write_timeout :: "conn \<Rightarrow> unit cli_result \<times> conn" where "arm_write_timeout = socket_call"

definition prefer_ipv4 :: "SocketAddr list \<Rightarrow> SocketAddr list" where
  "prefer_ipv4 addrs = (let (v4, v6) = List.partition (\<lambda>a. \<not> is_ipv6 a) addrs in v4 @ v6)"

definition is_ipv6_fallback :: "SocketAddr \<Rightarrow> SocketAddr list \<Rightarrow> bool" where
  "is_ipv6_fallback connected resolved \<longleftrightarrow> is_ipv6 connected \<and> list_ex (\<lambda>a. \<not> is_ipv6 a) resolved"

text \<open>
  A TLS handshake is the outcomes of the library's successive \<^verbatim>\<open>complete_io\<close> calls: the bytes read and written and
  whether it is still handshaking, or an error. \<open>tls_setup\<close> gives none when the name or the set-up is refused.
\<close>

datatype handshake_io = Io nat nat bool | IoError

fun drive_handshake :: "bool \<Rightarrow> handshake_io list \<Rightarrow> unit cli_result" where
  "drive_handshake False evs = Inr ()"
| "drive_handshake True [] = Inl network"
| "drive_handshake True (IoError # evs) = Inl network"
| "drive_handshake True (Io rd wr still # evs) =
     (if rd = 0 \<and> wr = 0 \<and> still then Inl network else drive_handshake still evs)"

record 'w sockets =
  resolve :: "string \<Rightarrow> nat \<Rightarrow> SocketAddr list option"
  connect_timeout :: "SocketAddr \<Rightarrow> 'w \<Rightarrow> conn option \<times> 'w"
  tls_setup :: "string \<Rightarrow> 'w \<Rightarrow> handshake_io list option \<times> 'w"

fun first_connect :: "'w sockets \<Rightarrow> SocketAddr list \<Rightarrow> 'w \<Rightarrow> (SocketAddr \<times> conn) option \<times> 'w" where
  "first_connect S [] w = (None, w)"
| "first_connect S (addr # addrs) w =
     (case connect_timeout S addr w of
        (Some c, w') \<Rightarrow> (Some (addr, c), w')
      | (None, w') \<Rightarrow> first_connect S addrs w')"

definition arm_handshake :: "conn \<Rightarrow> unit cli_result \<times> conn" where
  "arm_handshake c = in_turn (arm_read_timeout c) (\<lambda>_. arm_write_timeout)"

definition open_connection :: "'w sockets \<Rightarrow> Target \<Rightarrow> 'w \<Rightarrow> conn cli_result \<times> 'w" where
  "open_connection S target w =
     (case resolve S (t_host target) (t_port target) of
        None \<Rightarrow> (Inl network, w)
      | Some addrs \<Rightarrow>
          in_turn (map_prod (ok_or network) id (first_connect S (prefer_ipv4 addrs) w)) (\<lambda>(_, tcp) w.
          case arm_handshake tcp of
            (Inl e, _) \<Rightarrow> (Inl e, w)
          | (Inr _, tcp) \<Rightarrow>
              if t_tls target
              then in_turn (map_prod (ok_or network) id (tls_setup S (t_host target) w)) (\<lambda>evs w.
                     (rbind (drive_handshake True evs) (\<lambda>_. Inr tcp), w))
              else (Inr tcp, w)))"

text \<open>A write places some of the buffer, by the contract of \<^verbatim>\<open>Write\<close> never more than all of it.\<close>

fun write_loop :: "bytes \<Rightarrow> write_event list \<Rightarrow> bytes \<times> (write_event list) cli_result" where
  "write_loop [] evs = ([], Inr evs)"
| "write_loop buf [] = ([], Inl network)"
| "write_loop buf (ev # evs) =
     (case ev of
        WriteLate \<Rightarrow> ([], Inl transfer_stalled)
      | WriteTimeout \<Rightarrow> ([], Inl transfer_stalled)
      | WriteInterrupted \<Rightarrow> write_loop buf evs
      | WriteError \<Rightarrow> ([], Inl network)
      | Wrote n \<Rightarrow>
          (if n = 0 then ([], Inl transfer_stalled)
           else let (w, r) = write_loop (drop n buf) evs in (take n buf @ w, r)))"

definition write_all_gap_bounded :: "bytes \<Rightarrow> conn \<Rightarrow> unit cli_result \<times> conn" where
  "write_all_gap_bounded buf c =
     (let (w, r) = write_loop buf (outgoing c); c = c\<lparr> written := written c @ w \<rparr> in
      case r of
        Inl e \<Rightarrow> (Inl e, c)
      | Inr evs \<Rightarrow> socket_call (c\<lparr> outgoing := evs \<rparr>))"

subsection \<open>Responses\<close>

record HttpResponse =
  status :: nat
  etag :: "string option"
  resp_body :: bytes
  reusable :: bool

definition MAX_ERROR_BODY_BYTES :: nat where "MAX_ERROR_BODY_BYTES = 64 * 1024"

fun find_headers_end :: "bytes \<Rightarrow> nat option" where
  "find_headers_end [] = None"
| "find_headers_end (b # bs) =
     (if take 4 (b # bs) = [13, 10, 13, 10] then Some 4 else map_option Suc (find_headers_end bs))"

fun read_head :: "bytes \<Rightarrow> read_event list \<Rightarrow> (nat \<times> bytes \<times> read_event list) cli_result" where
  "read_head buf evs =
     (case find_headers_end buf of
        Some i \<Rightarrow> Inr (i, buf, evs)
      | None \<Rightarrow>
          (case evs of
             [] \<Rightarrow> Inl network
           | Late # _ \<Rightarrow> Inl transfer_stalled
           | ReadTimeout # _ \<Rightarrow> Inl transfer_stalled
           | ReadError # _ \<Rightarrow> Inl network
           | Got bs # evs' \<Rightarrow>
               (if bs = [] then Inl network
                else if length (buf @ bs) > 64 * 1024 then Inl network
                else read_head (buf @ bs) evs')))"

declare read_head.simps [simp del]

text \<open>
  \<open>from_utf8_lossy\<close> is \<^verbatim>\<open>String::from_utf8_lossy\<close>: each maximal ill-formed part becomes the replacement character.
\<close>

definition well_formed :: "byte \<Rightarrow> bytes \<Rightarrow> nat" where
  "well_formed b bs =
     (case bs of
        [] \<Rightarrow> 0
      | c # cs \<Rightarrow> if second_ok b c then Suc (length (takeWhile cont (take (utf8_len b - 2) cs))) else 0)"

function from_utf8_lossy :: "bytes \<Rightarrow> string" where
  "from_utf8_lossy [] = []"
| "from_utf8_lossy (b # bs) =
     (if utf8_len b = 1 then char_of (unat b) # from_utf8_lossy bs
      else if utf8_len b \<noteq> 0 \<and> Suc (well_formed b bs) = utf8_len b
      then of_utf8 (b # take (well_formed b bs) bs) @ from_utf8_lossy (drop (well_formed b bs) bs)
      else [CHR 0xEF, CHR 0xBF, CHR 0xBD]
           @ from_utf8_lossy (if utf8_len b = 0 then bs else drop (well_formed b bs) bs))"
  by pat_completeness auto
termination
  by (relation "measure length") auto

fun split_crlf :: "string \<Rightarrow> string list" where
  "split_crlf [] = [[]]"
| "split_crlf (c # s) =
     (if c = CHR 0x0D \<and> s \<noteq> [] \<and> hd s = CHR 0x0A then [] # split_crlf (tl s)
      else (case split_crlf s of [] \<Rightarrow> [[c]] | p # ps \<Rightarrow> (c # p) # ps))"

function words :: "string \<Rightarrow> string list" where
  "words [] = []"
| "words (c # s) =
     (case strip_white strip_prefix (c # s) of
        Some r \<Rightarrow> if length r < length (c # s) then words r else []
      | None \<Rightarrow>
          (if s = [] \<or> strip_white strip_prefix s \<noteq> None then [c] # words s
           else (case words s of [] \<Rightarrow> [[c]] | p # ps \<Rightarrow> (c # p) # ps)))"
  by pat_completeness auto
termination
  by (relation "measure length") auto

record head =
  h_status :: nat
  h_etag :: "string option"
  content_length :: "nat option"
  h_chunked :: bool
  server_close :: bool

definition header_line :: "string \<Rightarrow> head \<Rightarrow> head" where
  "header_line line h =
     (case split_once '':'' line of
        None \<Rightarrow> h
      | Some (name, raw) \<Rightarrow>
          let value = trim raw in
          if eq_ignore_ascii_case name ''etag'' then h\<lparr> h_etag := Some value \<rparr>
          else if eq_ignore_ascii_case name ''content-length'' then h\<lparr> content_length := parse_unsigned (2 ^ 64) value \<rparr>
          else if eq_ignore_ascii_case name ''transfer-encoding'' \<and> contains_str ''chunked'' (to_ascii_lowercase value)
          then h\<lparr> h_chunked := True \<rparr>
          else if eq_ignore_ascii_case name ''connection'' \<and> contains_str ''close'' (to_ascii_lowercase value)
          then h\<lparr> server_close := True \<rparr>
          else h)"

definition parse_head :: "bytes \<Rightarrow> head cli_result" where
  "parse_head bs =
     (let lines = split_crlf (from_utf8_lossy bs);
          fields = words (hd lines)
      in case fields of
           _ # field # _ \<Rightarrow>
             rbind (ok_or network (parse_unsigned 65536 field)) (\<lambda>st.
             Inr (fold header_line (tl lines)
               \<lparr> h_status = st, h_etag = None, content_length = None, h_chunked = False, server_close = False \<rparr>))
         | _ \<Rightarrow> Inl network)"

fun read_diag :: "nat \<Rightarrow> bytes \<Rightarrow> read_event list \<Rightarrow> bytes \<times> read_event list" where
  "read_diag cap body [] = (body, [])"
| "read_diag cap body (ev # evs) =
     (if length body < cap
      then (case ev of Got bs \<Rightarrow> if bs = [] then (body, evs) else read_diag cap (body @ bs) evs | _ \<Rightarrow> (body, evs))
      else (body, ev # evs))"

fun read_data :: "nat \<Rightarrow> bytes \<Rightarrow> read_event list \<Rightarrow> (bytes \<times> read_event list) cli_result" where
  "read_data target body [] = (if length body < target then Inl network else Inr (body, []))"
| "read_data target body (ev # evs) =
     (if length body < target
      then (case ev of
              Late \<Rightarrow> Inl transfer_stalled
            | ReadTimeout \<Rightarrow> Inl transfer_stalled
            | ReadError \<Rightarrow> Inl network
            | Got bs \<Rightarrow> if bs = [] then Inl network else read_data target (body @ bs) evs)
      else Inr (body, ev # evs))"

definition read_response :: "bool \<Rightarrow> read_event list \<Rightarrow> (HttpResponse \<times> read_event list) cli_result" where
  "read_response want_body evs =
     rbind (read_head [] evs) (\<lambda>(head_end, buf, evs).
     rbind (parse_head (take head_end buf)) (\<lambda>h.
     let body = drop head_end buf in
     rbind (if want_body \<or> 400 \<le> h_status h
            then
              if h_chunked h then Inl network
              else if 400 \<le> h_status h \<or> 300 \<le> h_status h \<and> h_status h < 400
              then
                let cap = min (case content_length h of Some n \<Rightarrow> n | None \<Rightarrow> MAX_ERROR_BODY_BYTES) MAX_ERROR_BODY_BYTES;
                    (body, evs) = read_diag cap body evs
                in Inr (case content_length h of Some n \<Rightarrow> take n body | None \<Rightarrow> body, False, evs)
              else
                rbind (ok_or network (content_length h)) (\<lambda>target.
                rbind (read_data target body evs) (\<lambda>(body, evs). Inr (take target body, target < length body, evs)))
            else Inr (body, False, evs)) (\<lambda>(body, overshot, evs).
     Inr (\<lparr> status = h_status h, etag = h_etag h, resp_body = body,
            reusable = (\<not> server_close h \<and> \<not> h_chunked h \<and> \<not> overshot \<and> h_status h < 300 \<and> want_body
                        \<and> content_length h = Some (length body)) \<rparr>, evs))))"

subsection \<open>Requests\<close>

definition request_head :: "string \<Rightarrow> Target \<Rightarrow> (string \<times> string) list \<Rightarrow> bytes \<Rightarrow> bool \<Rightarrow> string" where
  "request_head method target extra_headers body keep_alive =
     (let crlf = [CHR 0x0D, CHR 0x0A] in
      method @ '' '' @ request_target target @ '' HTTP/1.1'' @ crlf @ ''Host: '' @ t_authority target @ crlf
      @ ''Connection: '' @ (if keep_alive then ''keep-alive'' else ''close'') @ crlf
      @ (if body \<noteq> [] \<or> method = ''PUT'' then ''Content-Length: '' @ show_nat (length body) @ crlf else [])
      @ concat (map (\<lambda>(name, value). name @ '': '' @ value @ crlf) extra_headers) @ crlf)"

definition request_on ::
  "conn \<Rightarrow> string \<Rightarrow> Target \<Rightarrow> (string \<times> string) list \<Rightarrow> bytes \<Rightarrow> bool \<Rightarrow> bool \<Rightarrow> HttpResponse cli_result \<times> conn" where
  "request_on c method target extra_headers body want_body keep_alive =
     in_turn (arm_read_timeout c) (\<lambda>_ c.
     in_turn (arm_write_timeout c) (\<lambda>_ c.
     in_turn (write_all_gap_bounded (utf8 (request_head method target extra_headers body keep_alive)) c) (\<lambda>_ c.
     in_turn (write_all_gap_bounded body c) (\<lambda>_ c.
     case read_response want_body (incoming c) of
       Inl e \<Rightarrow> (Inl e, c)
     | Inr (resp, evs) \<Rightarrow> (Inr resp, c\<lparr> incoming := evs \<rparr>)))))"

type_synonym DownloadPool = "(string \<times> conn) list"

definition swap_remove :: "nat \<Rightarrow> 'a list \<Rightarrow> 'a list" where
  "swap_remove i xs = (if Suc i = length xs then butlast xs else (butlast xs)[i := last xs])"

fun index_of :: "('a \<Rightarrow> bool) \<Rightarrow> 'a list \<Rightarrow> nat option" where
  "index_of P [] = None"
| "index_of P (x # xs) = (if P x then Some 0 else map_option Suc (index_of P xs))"

definition pool_take :: "DownloadPool \<Rightarrow> string \<Rightarrow> (conn \<times> DownloadPool) option" where
  "pool_take idle authority =
     map_option (\<lambda>i. (snd (idle ! i), swap_remove i idle)) (index_of (\<lambda>(a, _). a = authority) idle)"

definition pool_put_back :: "DownloadPool \<Rightarrow> string \<Rightarrow> conn \<Rightarrow> DownloadPool" where
  "pool_put_back idle authority c = idle @ [(authority, c)]"

record Transfer =
  tr_status :: nat
  tr_etag :: "string option"
  tr_body :: bytes

definition finish_request :: "Target \<Rightarrow> HttpResponse \<Rightarrow> conn \<Rightarrow> DownloadPool option \<Rightarrow> Transfer cli_result \<times> DownloadPool option" where
  "finish_request target resp c pool =
     (if 300 \<le> status resp \<and> status resp < 400 then (Inl network, pool)
      else
        (Inr \<lparr> tr_status = status resp, tr_etag = etag resp, tr_body = resp_body resp \<rparr>,
         case pool of
           Some p \<Rightarrow> Some (if reusable resp then pool_put_back p (t_authority target) c else p)
         | None \<Rightarrow> None))"

text \<open>The argument \<open>allow_reuse\<close> is the loop's variable; the loop runs at most twice.\<close>

function request_loop ::
  "'w sockets \<Rightarrow> string \<Rightarrow> Target \<Rightarrow> (string \<times> string) list \<Rightarrow> bytes \<Rightarrow> bool \<Rightarrow> bool \<Rightarrow> DownloadPool option \<Rightarrow> 'w \<Rightarrow>
     Transfer cli_result \<times> DownloadPool option \<times> 'w" where
  "request_loop S method target headers body want_body allow_reuse pool w =
     (case (if allow_reuse then Option.bind pool (\<lambda>p. pool_take p (t_authority target)) else None) of
        Some (c, idle) \<Rightarrow>
          (case request_on c method target headers body want_body True of
             (Inl e, _) \<Rightarrow>
               (if allow_reuse then request_loop S method target headers body want_body False (Some idle) w
                else (Inl e, Some idle, w))
           | (Inr resp, c) \<Rightarrow> (let (r, pool) = finish_request target resp c (Some idle) in (r, pool, w)))
      | None \<Rightarrow>
          (case open_connection S target w of
             (Inl e, w) \<Rightarrow> (Inl e, pool, w)
           | (Inr c, w) \<Rightarrow>
               (case request_on c method target headers body want_body (pool \<noteq> None) of
                  (Inl e, _) \<Rightarrow> (Inl e, pool, w)
                | (Inr resp, c) \<Rightarrow> (let (r, pool) = finish_request target resp c pool in (r, pool, w)))))"
  by pat_completeness auto
termination
  by (relation "measure (\<lambda>(_, _, _, _, _, _, allow_reuse, _, _). if allow_reuse then 1 else 0)") auto

declare request_loop.simps [simp del]

definition request_with_pool ::
  "'w sockets \<Rightarrow> string \<Rightarrow> string \<Rightarrow> (string \<times> string) list \<Rightarrow> bytes \<Rightarrow> bool \<Rightarrow> DownloadPool option \<Rightarrow> 'w \<Rightarrow>
     Transfer cli_result \<times> DownloadPool option \<times> 'w" where
  "request_with_pool S method url headers body want_body pool w =
     (case parse_url url of
        Inl e \<Rightarrow> (Inl e, pool, w)
      | Inr target \<Rightarrow> request_loop S method target headers body want_body True pool w)"

definition bucket_put :: "'w sockets \<Rightarrow> string \<Rightarrow> bytes \<Rightarrow> 'w \<Rightarrow> Transfer cli_result \<times> 'w" where
  "bucket_put S url body w =
     (let (r, _, w) = request_with_pool S ''PUT'' url [] body False None w in (r, w))"

definition range_header :: "nat \<Rightarrow> nat \<Rightarrow> (string \<times> string) list" where
  "range_header start stop = [(''Range'', ''bytes='' @ show_nat start @ ''-'' @ show_nat stop)]"

definition get_range :: "'w sockets \<Rightarrow> string \<Rightarrow> nat \<Rightarrow> nat \<Rightarrow> 'w \<Rightarrow> Transfer cli_result \<times> 'w" where
  "get_range S url start stop w =
     (let (r, _, w) = request_with_pool S ''GET'' url (range_header start stop) [] True None w in (r, w))"

definition get_range_pooled ::
  "'w sockets \<Rightarrow> DownloadPool \<Rightarrow> string \<Rightarrow> nat \<Rightarrow> nat \<Rightarrow> 'w \<Rightarrow> Transfer cli_result \<times> DownloadPool option \<times> 'w" where
  "get_range_pooled S pool url start stop w =
     request_with_pool S ''GET'' url (range_header start stop) [] True (Some pool) w"

subsection \<open>What was received\<close>

text \<open>\<open>stream\<close> is the bytes that arrive before the connection closes or fails.\<close>

fun stream :: "read_event list \<Rightarrow> bytes" where
  "stream (Got bs # evs) = (if bs = [] then [] else bs @ stream evs)"
| "stream evs = []"

lemma headers_end_bounds: "find_headers_end xs = Some i \<Longrightarrow> 4 \<le> i \<and> i \<le> length xs"
proof (induction xs arbitrary: i)
  case (Cons x xs)
  show ?case
  proof (cases "take 4 (x # xs) = [13, 10, 13, 10]")
    case True
    then have "length (take 4 (x # xs)) = 4" by simp
    then have "4 \<le> length (x # xs)" unfolding length_take by linarith
    with True Cons.prems show ?thesis by simp
  next
    case False
    with Cons.prems Cons.IH show ?thesis by fastforce
  qed
qed simp

lemma headers_end_append: "find_headers_end xs = Some i \<Longrightarrow> find_headers_end (xs @ ys) = Some i"
proof (induction xs arbitrary: i)
  case (Cons x xs)
  have "4 \<le> length (x # xs)" using headers_end_bounds [OF Cons.prems] by linarith
  then have same: "take 4 (x # xs @ ys) = take 4 (x # xs)" by (cases xs) (simp_all add: take_Cons')
  show ?case
  proof (cases "take 4 (x # xs) = [13, 10, 13, 10]")
    case True
    with Cons.prems same show ?thesis by simp
  next
    case False
    with Cons.prems obtain j where "find_headers_end xs = Some j" "i = Suc j" by auto
    with Cons.IH False same show ?thesis by (simp only: append_Cons find_headers_end.simps if_False option.map)
  qed
qed simp

lemma read_head_Inr:
  "read_head buf evs = Inr (i, buf', evs') \<Longrightarrow>
     find_headers_end buf' = Some i \<and> buf' @ stream evs' = buf @ stream evs"
proof (induction buf evs rule: read_head.induct)
  case (1 buf evs)
  show ?case
  proof (cases "find_headers_end buf")
    case (Some j)
    with "1.prems" show ?thesis by (simp add: read_head.simps [of buf])
  next
    case None
    with "1.prems" obtain bs evs1 where g: "evs = Got bs # evs1" "bs \<noteq> []" "\<not> 64 * 1024 < length (buf @ bs)"
      and r: "read_head (buf @ bs) evs1 = Inr (i, buf', evs')"
      by (auto simp: read_head.simps [of buf] split: list.splits read_event.splits if_splits)
    from "1.IH" [OF None g(1) refl g(2,3) r] g show ?thesis by simp
  qed
qed

lemma read_data_Inr:
  "read_data target body evs = Inr (body', evs') \<Longrightarrow>
     body' @ stream evs' = body @ stream evs \<and> target \<le> length body'"
  by (induction target body evs rule: read_data.induct) (auto split: if_splits read_event.splits)

lemma data_response:
  assumes "read_response True evs = Inr (r, evs')" "status r < 300"
  obtains i buf evs1 h target body where
    "read_head [] evs = Inr (i, buf, evs1)" "parse_head (take i buf) = Inr h" "content_length h = Some target"
    "read_data target (drop i buf) evs1 = Inr (body, evs')" "resp_body r = take target body"
    "reusable r \<longrightarrow> \<not> target < length body"
  using assms
  by (auto simp: read_response_def result_simps Let_def split: if_splits prod.splits)



subsection \<open>Every way of cutting the response\<close>

lemma headers_end_prefix:
  assumes "find_headers_end xs = Some (length xs)" "length ys < length xs" "ys @ zs = xs @ rest"
  shows "find_headers_end ys = None"
proof (rule ccontr)
  assume "find_headers_end ys \<noteq> None"
  then obtain j where j: "find_headers_end ys = Some j" by auto
  from headers_end_append [OF this, of zs] headers_end_append [OF assms(1), of rest] assms(3)
  have "j = length xs" by simp
  with headers_end_bounds [OF j] assms(2) show False by simp
qed

lemma read_head_chunks:
  assumes "find_headers_end hb = Some (length hb)" "length hb + 8192 \<le> 64 * 1024"
    and "\<And>c. c \<in> set cs \<Longrightarrow> c \<noteq> [] \<and> length c \<le> 8192" "buf @ concat cs = hb @ rest"
  shows "\<exists>buf' cs'. read_head buf (map Got cs @ evs) = Inr (length hb, buf', map Got cs' @ evs)
    \<and> buf' @ concat cs' = hb @ rest \<and> set cs' \<subseteq> set cs \<and> length hb \<le> length buf'"
  using assms(3,4)
proof (induction cs arbitrary: buf)
  case Nil
  then have "find_headers_end buf = Some (length hb)" using headers_end_append [OF assms(1), of rest] by simp
  then have "read_head buf evs = Inr (length hb, buf, evs)" by (simp add: read_head.simps [of buf])
  with Nil show ?case by (intro exI [of _ buf] exI [of _ "[]"]) simp
next
  case (Cons c cs)
  show ?case
  proof (cases "length hb \<le> length buf")
    case True
    then have "buf = hb @ drop (length hb) buf" using Cons.prems(2) by (metis append_eq_append_conv_if append_take_drop_id)
    then have "find_headers_end buf = Some (length hb)" using headers_end_append [OF assms(1)] by metis
    with True Cons.prems show ?thesis
      by (intro exI [of _ buf] exI [of _ "c # cs"]) (simp add: read_head.simps [of buf])
  next
    case False
    have "find_headers_end buf = None" using headers_end_prefix [OF assms(1)] False Cons.prems(2) by (metis not_le)
    moreover have "c \<noteq> []" "length c \<le> 8192" using Cons.prems(1) by auto
    ultimately have "read_head buf (map Got (c # cs) @ evs) = read_head (buf @ c) (map Got cs @ evs)"
      using False assms(2) by (simp add: read_head.simps [of buf])
    moreover have "(buf @ c) @ concat cs = hb @ rest" using Cons.prems(2) by simp
    ultimately show ?thesis using Cons.IH [of "buf @ c"] Cons.prems(1) by (auto simp: subset_iff)
  qed
qed

lemma read_data_chunks:
  "\<lbrakk> [] \<notin> set cs; length (body @ concat cs) = target \<rbrakk> \<Longrightarrow>
     read_data target body (map Got cs @ evs) = Inr (body @ concat cs, evs)"
proof (induction cs arbitrary: body)
  case Nil
  then show ?case by (cases evs) simp_all
next
  case (Cons c cs)
  then have "0 < length c" by (cases c) simp_all
  with Cons show ?case using Cons.IH [of "body @ c"] by auto
qed

text \<open>
  However the network cuts it into reads, a complete download response is read: every sequence of nonempty reads of at
  most 8 KiB whose concatenation is a head and the body it declares gives that body, leaves the following events
  untouched, and the connection is reusable unless the server announced that it closes it.\<close>
theorem response_read_in_any_chunks:
  assumes "find_headers_end hb = Some (length hb)" "parse_head hb = Inr h" "length hb + 8192 \<le> 64 * 1024"
    and "h_status h < 300" "\<not> h_chunked h" "content_length h = Some (length body)"
    and "concat cs = hb @ body" "\<And>c. c \<in> set cs \<Longrightarrow> c \<noteq> [] \<and> length c \<le> 8192"
  shows "read_response True (map Got cs @ evs) =
    Inr (\<lparr> status = h_status h, etag = h_etag h, resp_body = body, reusable = (\<not> server_close h) \<rparr>, evs)"
proof -
  obtain buf cs' where r: "read_head [] (map Got cs @ evs) = Inr (length hb, buf, map Got cs' @ evs)"
    "buf @ concat cs' = hb @ body" "set cs' \<subseteq> set cs" "length hb \<le> length buf"
    using read_head_chunks [OF assms(1,3), of cs "[]" body evs] assms(7,8) by auto
  then have cut: "take (length hb) buf = hb" "drop (length hb) buf @ concat cs' = body"
    by (metis append_eq_append_conv_if append_eq_conv_conj take_append le_antisym nat_le_linear append_Nil2 diff_is_0_eq take_0)
       (use r in \<open>metis append_eq_append_conv_if drop_append append_eq_conv_conj diff_is_0_eq drop0\<close>)
  moreover have "[] \<notin> set cs'" using r(3) assms(8) by blast
  ultimately have "read_data (length body) (drop (length hb) buf) (map Got cs' @ evs) = Inr (body, evs)"
    using read_data_chunks [of cs' "drop (length hb) buf" "length body" evs] by simp
  with r(1) cut(1) assms(2,4-6) show ?thesis by (simp add: read_response_def rbind_def)
qed

text \<open>Evaluation of a head made of printable ASCII fields.\<close>

lemma strip_white_plain: "plain c \<Longrightarrow> strip_white strip_prefix (c # s) = None"
  using white_not_plain
  by (auto simp: strip_white_def list_all_iff strip_prefix_iff Cons_eq_append_conv split: option.split
      dest!: find_Some_iff [THEN iffD1]) (metis list.sel(1) nth_mem)

lemma strip_white_space [simp]: "strip_white strip_prefix (CHR '' '' # s) = Some s"
  by (simp add: strip_white_def white_spaces_def strip_prefix_def)

lemma words_plain:
  assumes "w \<noteq> []" "list_all plain w"
  shows "words (w @ CHR '' '' # s) = w # words s" "words w = [w]"
  using assms by (induction w rule: list_nonempty_induct) (auto simp: strip_white_plain neq_Nil_conv)

lemma lossy_ascii: "list_all (\<lambda>b. b < 0x80) bs \<Longrightarrow> from_utf8_lossy bs = of_utf8 bs"
  by (induction bs) (simp_all add: utf8_len_def of_utf8_def)

declare words.simps [simp del]

definition demo_head :: string where
  "demo_head = ''HTTP/1.1 206 OK'' @ [CHR 0x0D, CHR 0x0A] @ ''content-length:3'' @ [CHR 0x0D, CHR 0x0A, CHR 0x0D, CHR 0x0A]"

lemma demo_head_bytes: "from_utf8_lossy (utf8 demo_head) = demo_head"
proof -
  have "list_all (\<lambda>b. b < 0x80) (utf8 demo_head)" by (simp add: utf8_def demo_head_def)
  from lossy_ascii [OF this] show ?thesis by (simp only: of_utf8_utf8)
qed

lemma demo_head_parse:
  "parse_head (utf8 demo_head) = Inr \<lparr> h_status = 206, h_etag = None, content_length = Some 3,
     h_chunked = False, server_close = False \<rparr>"
proof -
  have "split_crlf demo_head = [''HTTP/1.1 206 OK'', ''content-length:3'', [], []]" by (simp add: demo_head_def)
  moreover have "words ''HTTP/1.1 206 OK'' = [''HTTP/1.1'', ''206'', ''OK'']"
    using words_plain(1) [of "''HTTP/1.1''" "''206 OK''"] words_plain(1) [of "''206''" "''OK''"] words_plain(2) [of "''OK''"]
    by (simp add: plain_def)
  moreover have "trim ''3'' = ''3''" by (simp add: trim_plain plain_def)
  ultimately show ?thesis
    by (simp add: parse_head_def demo_head_bytes header_line_def parse_unsigned_def is_digit_def digit_value_def
        Let_def strip_prefix_def eq_ignore_ascii_case_def to_ascii_lowercase_def ascii_lower_def rbind_def ok_or_def)
qed

lemma demo_head_end: "find_headers_end (utf8 demo_head) = Some (length (utf8 demo_head))"
  by (simp add: demo_head_def utf8_def)

definition demo_reads :: "bytes list" where
  "demo_reads = [take 10 (utf8 demo_head), drop 10 (utf8 demo_head) @ [7], [8, 9]]"

theorem response_read_in_any_chunks_witness:
  "read_response True (map Got demo_reads @ [ReadTimeout]) =
     Inr (\<lparr> status = 206, etag = None, resp_body = [7, 8, 9], reusable = True \<rparr>, [ReadTimeout])"
  using response_read_in_any_chunks [OF demo_head_end demo_head_parse, of "[7, 8, 9]" demo_reads "[ReadTimeout]"]
  by (force simp: demo_reads_def demo_head_def utf8_def)

lemma demo_read:
  "read_response True (map Got demo_reads @ [ReadTimeout]) =
     Inr (\<lparr> status = 206, etag = None, resp_body = [7, 8, 9], reusable = True \<rparr>, [ReadTimeout])"
proof -
  have "read_head [] (map Got demo_reads @ [ReadTimeout]) =
      Inr (37, utf8 demo_head @ [7], [Got [8, 9], ReadTimeout])"
    by (simp add: demo_reads_def demo_head_def utf8_def read_head.simps)
  moreover have "take 37 (utf8 demo_head @ [7]) = utf8 demo_head" "drop 37 (utf8 demo_head @ [7]) = [7]"
    by (simp_all add: demo_head_def utf8_def)
  ultimately show ?thesis by (simp add: read_response_def rbind_def demo_head_parse ok_or_def)
qed


subsection \<open>What was sent\<close>

lemma in_turn_Inr [result_simps]: "in_turn m f = (Inr y, s') \<longleftrightarrow> (\<exists>x s. m = (Inr x, s) \<and> f x s = (Inr y, s'))"
  by (auto simp: in_turn_def split: prod.splits sum.splits)

lemma socket_call_keeps: "socket_call c = (r, c') \<Longrightarrow> written c' = written c \<and> incoming c' = incoming c"
  by (auto simp: socket_call_def split: list.splits)

lemma write_loop_prefix: "write_loop buf evs = (w, r) \<Longrightarrow> \<exists>rest. buf = w @ rest \<and> (\<not> isl r \<longrightarrow> rest = [])"
proof (induction buf evs arbitrary: w r rule: write_loop.induct)
  case (3 b bs ev evs)
  show ?case
  proof (cases ev)
    case (Wrote n)
    obtain w1 r1 where l: "write_loop (drop n (b # bs)) evs = (w1, r1)" by fastforce
    show ?thesis
    proof (cases "n = 0")
      case False
      from "3.IH" (1) [OF Wrote False l] obtain rest where
        "drop n (b # bs) = w1 @ rest" "\<not> isl r1 \<longrightarrow> rest = []" by auto
      then have "b # bs = take n (b # bs) @ w1 @ rest" by (metis append_take_drop_id)
      with \<open>\<not> isl r1 \<longrightarrow> rest = []\<close> "3.prems" Wrote False l show ?thesis by (intro exI [of _ rest]) auto
    qed (use "3.prems" Wrote in auto)
  qed (use 3 in auto)
qed auto

lemma write_all_sends:
  "write_all_gap_bounded buf c = (Inr u, c') \<Longrightarrow> written c' = written c @ buf \<and> incoming c' = incoming c"
  by (auto simp: write_all_gap_bounded_def Let_def split: prod.splits sum.splits
      dest!: socket_call_keeps write_loop_prefix)

lemma response_step:
  "(case rr of Inl e \<Rightarrow> (Inl e, c) | Inr (resp, evs) \<Rightarrow> (Inr resp, c\<lparr> incoming := evs \<rparr>)) = (Inr r, c') \<longleftrightarrow>
     (\<exists>evs. rr = Inr (r, evs) \<and> c' = c\<lparr> incoming := evs \<rparr>)"
  by (auto split: sum.splits)

text \<open>
  C25: A request that got an answer was sent whole: the connection carries the request's head and then the whole body,
  and nothing else, whatever partial writes the socket made.\<close>
theorem answered_request_was_sent_whole:
  assumes "request_on c method target headers body want_body keep_alive = (Inr resp, c')"
  shows "written c' = written c @ utf8 (request_head method target headers body keep_alive) @ body"
proof -
  obtain c1 c2 c3 c4 evs u1 u2 u3 u4 where
    "arm_read_timeout c = (Inr u1, c1)" "arm_write_timeout c1 = (Inr u2, c2)"
    "write_all_gap_bounded (utf8 (request_head method target headers body keep_alive)) c2 = (Inr u3, c3)"
    "write_all_gap_bounded body c3 = (Inr u4, c4)" "c' = c4\<lparr> incoming := evs \<rparr>"
    using assms unfolding request_on_def in_turn_Inr response_step by blast
  then show ?thesis
    by (auto simp: arm_read_timeout_def arm_write_timeout_def dest!: socket_call_keeps write_all_sends)
qed

subsection \<open>The authority that was signed\<close>

lemma rsplit_once_last: "d \<notin> set b \<Longrightarrow> rsplit_once d (a @ d # b) = Some (a, b)"
proof -
  assume "d \<notin> set b"
  then have "split_once [d] (rev b @ d # rev a) = Some (rev b, rev a)" by (simp add: split_once_char_iff)
  then show ?thesis by (simp add: rsplit_once_def)
qed

lemma show_nat_no: "\<not> is_digit c \<Longrightarrow> c \<notin> set (show_nat n)"
  using show_nat_facts(2) [of n] by (auto simp: list_all_iff)

lemma no_digits [simp]: "\<not> is_digit (CHR '':'')" "\<not> is_digit (CHR ''/'')" "\<not> is_digit (CHR ''@'')"
  by (simp_all add: is_digit_def less_eq_char_def)

definition url_scheme :: "bool \<Rightarrow> string" where
  "url_scheme tls = (if tls then ''https://'' else ''http://'')"

definition default_port :: "bool \<Rightarrow> nat" where
  "default_port tls = (if tls then 443 else 80)"

lemma split_wire_authority:
  assumes "CHR ''['' \<notin> set host" "CHR '']'' \<notin> set host" "port < 65536"
  shows "split_authority d (wire_authority d host port) = Inr (host, port)"
proof (cases "CHR '':'' \<in> set host")
  case True
  have "split_once '']'' (host @ CHR '']'' # r) = Some (host, r)" for r
    using assms(2) by (simp add: split_once_char_iff)
  moreover have "strip_prefix '':'' ('':'' @ show_nat port) = Some (show_nat port)" by (rule strip_prefix_append)
  moreover have "strip_prefix ''['' (CHR ''['' # r) = Some r" for r by (simp add: strip_prefix_def)
  ultimately show ?thesis using True assms(3)
    by (cases "port = d") (simp_all add: split_authority_def wire_authority_def Let_def)
next
  case False
  have none: "strip_prefix ''['' (host @ r) = None" if "r = [] \<or> hd r = CHR '':''" for r
    using assms(1) that by (cases host; cases r) (auto simp: strip_prefix_def)
  have "rsplit_once (CHR '':'') host = None"
    using False split_once_char_None [of "CHR '':''" "rev host"] by (simp add: rsplit_once_def)
  moreover have "rsplit_once (CHR '':'') (host @ CHR '':'' # show_nat port) = Some (host, show_nat port)"
    by (rule rsplit_once_last [OF show_nat_no]) simp
  ultimately show ?thesis using False assms(3) none [of "[]"] none [of "CHR '':'' # show_nat port"]
    by (cases "port = d") (simp_all add: split_authority_def wire_authority_def Let_def)
qed

lemma url_parts:
  assumes "host \<noteq> []" "set host \<inter> set ''/@[]'' = {}" "port < 65536"
  shows "parse_url (url_scheme tls @ wire_authority (default_port tls) host port @ ''/'' @ path) =
    Inr \<lparr> t_host = host, t_port = port, t_authority = wire_authority (default_port tls) host port,
          request_target = ''/'' @ path, t_tls = tls \<rparr>"
proof -
  let ?a = "wire_authority (default_port tls) host port"
  have a: "CHR ''/'' \<notin> set ?a" "CHR ''@'' \<notin> set ?a"
    using assms(2) by (auto simp: wire_authority_def Let_def show_nat_no)
  then have "takeWhile (\<lambda>c. c \<noteq> CHR ''/'') (?a @ CHR ''/'' # path) = ?a"
    "dropWhile (\<lambda>c. c \<noteq> CHR ''/'') (?a @ CHR ''/'' # path) = CHR ''/'' # path"
    by (auto simp: takeWhile_append dropWhile_append)
  moreover have "split_authority (default_port tls) ?a = Inr (host, port)"
    using assms(2,3) by (intro split_wire_authority) auto
  moreover have "strip_prefix ''https://'' (''http://'' @ s) = None" for s by (simp add: strip_prefix_def)
  ultimately show ?thesis using a assms(1)
    by (cases tls) (simp_all add: parse_url_def url_scheme_def default_port_def rbind_def Let_def strip_prefix_def)
qed

text \<open>
  The authority sent in the Host header is the authority of the signed URL, character for character: brackets around an
  IPv6 literal and a port that is not the scheme's default are kept, a default port is absent; the host and port
  connected to and the request target are the URL's own.\<close>
theorem authority_reproduced:
  assumes "host \<noteq> []" "set host \<inter> set ''/@[]'' = {}" "port < 65536"
  shows "parse_url (url_scheme tls @ wire_authority (default_port tls) host port @ ''/'' @ path) =
    Inr \<lparr> t_host = host, t_port = port, t_authority = wire_authority (default_port tls) host port,
          request_target = ''/'' @ path, t_tls = tls \<rparr>"
  by (rule url_parts [OF assms])

theorem authority_reproduced_witness:
  "parse_url (url_scheme False @ wire_authority (default_port False) ''::1'' 9000 @ ''/'' @ ''b?sig=1'') =
    Inr \<lparr> t_host = ''::1'', t_port = 9000, t_authority = wire_authority (default_port False) ''::1'' 9000,
          request_target = ''/b?sig=1'', t_tls = False \<rparr>
   \<and> wire_authority (default_port False) ''::1'' 9000 = ''[::1]:9000''"
proof -
  have "char_of (57 :: nat) = CHR ''9''" "char_of (48 :: nat) = CHR ''0''" by code_simp+
  then have "show_nat 9000 = ''9000''" by (simp add: show_nat.simps digit_def)
  then show ?thesis using authority_reproduced [of "''::1''" 9000 False "''b?sig=1''"]
    by (simp add: wire_authority_def default_port_def Let_def)
qed

subsection \<open>The pool\<close>

lemma swap_remove_subset: "i < length xs \<Longrightarrow> set (swap_remove i xs) \<subseteq> set xs"
  by (cases xs rule: rev_cases) (auto simp: swap_remove_def dest: in_set_butlastD set_update_subset_insert [THEN subsetD])

lemma index_of_Some: "index_of P xs = Some i \<Longrightarrow> i < length xs \<and> P (xs ! i)"
  by (induction xs arbitrary: i) (auto split: if_splits)

lemma pool_take_Some:
  assumes "pool_take idle a = Some (c, idle')"
  shows "(a, c) \<in> set idle \<and> set idle' \<subseteq> set idle"
proof -
  obtain i where i: "index_of (\<lambda>(b, _). b = a) idle = Some i" "c = snd (idle ! i)" "idle' = swap_remove i idle"
    using assms by (auto simp: pool_take_def)
  then have "i < length idle" "fst (idle ! i) = a" using index_of_Some [OF i(1)] by (auto split: prod.splits)
  then show ?thesis using i(2,3) swap_remove_subset [of i idle] by (metis nth_mem prod.collapse)
qed

lemma finish_request_pool:
  assumes "finish_request target resp c (Some p) = (r, pool')"
  shows "\<exists>p'. pool' = Some p' \<and> set p' \<subseteq> set p \<union> (if isl r then {} else range (Pair (t_authority target)))
    \<and> (\<not> reusable resp \<longrightarrow> p' = p)"
  using assms by (auto simp: finish_request_def pool_put_back_def split: if_splits)

lemma pool_after_fresh:
  assumes "request_loop S method target headers body want_body False (Some p) w = (r, pool', w')"
  shows "\<exists>p'. pool' = Some p' \<and> set p' \<subseteq> set p \<union> (if isl r then {} else range (Pair (t_authority target)))"
proof -
  obtain o1 w1 where o: "open_connection S target w = (o1, w1)" by fastforce
  show ?thesis
  proof (cases o1)
    case (Inl e)
    then show ?thesis using assms o by (auto simp: request_loop.simps [of _ _ _ _ _ _ False])
  next
    case (Inr c)
    obtain q c1 where q: "request_on c method target headers body want_body True = (q, c1)" by fastforce
    show ?thesis
    proof (cases q)
      case Inl
      then show ?thesis using assms o Inr q by (auto simp: request_loop.simps [of _ _ _ _ _ _ False])
    next
      case (Inr resp)
      obtain r1 p1 where f: "finish_request target resp c1 (Some p) = (r1, p1)" by fastforce
      then show ?thesis using assms o \<open>o1 = Inr c\<close> q Inr finish_request_pool [OF f]
        by (auto simp: request_loop.simps [of _ _ _ _ _ _ False])
    qed
  qed
qed

text \<open>The download pool never keeps a connection that failed: after a request that failed the pool holds only connections it
  held before, and after one that was answered at most the one it used, filed under its own authority. A pooled
  connection is only ever taken for the authority it was opened for.\<close>

lemma pool_after_request:
  assumes "request_loop S method target headers body want_body allow_reuse (Some p) w = (r, pool', w')"
  shows "\<exists>p'. pool' = Some p' \<and> set p' \<subseteq> set p \<union> (if isl r then {} else range (Pair (t_authority target)))"
proof (cases "allow_reuse \<and> pool_take p (t_authority target) \<noteq> None")
  case True
  then obtain c idle where t: "allow_reuse" "pool_take p (t_authority target) = Some (c, idle)" by auto
  obtain q c1 where q: "request_on c method target headers body want_body True = (q, c1)" by fastforce
  have idle: "set idle \<subseteq> set p" using pool_take_Some [OF t(2)] by simp
  show ?thesis
  proof (cases q)
    case Inl
    then have "request_loop S method target headers body want_body False (Some idle) w = (r, pool', w')"
      using assms t q by (simp add: request_loop.simps [of _ _ _ _ _ _ True])
    from pool_after_fresh [OF this] idle show ?thesis by (auto split: if_splits)
  next
    case (Inr resp)
    obtain r1 p1 where f: "finish_request target resp c1 (Some idle) = (r1, p1)" by fastforce
    then have "r1 = r" "p1 = pool'" using assms t q Inr by (auto simp: request_loop.simps [of _ _ _ _ _ _ True])
    with finish_request_pool [OF f] idle show ?thesis by (auto split: if_splits) blast
  qed
next
  case False
  then have "request_loop S method target headers body want_body allow_reuse (Some p) w =
      request_loop S method target headers body want_body False (Some p) w"
    by (cases allow_reuse; cases "pool_take p (t_authority target)")
      (simp_all add: request_loop.simps [of S "method"])
  with assms pool_after_fresh show ?thesis by metis
qed

subsection \<open>A concrete request\<close>

definition demo_target :: Target where
  "demo_target = \<lparr> t_host = ''s'', t_port = 80, t_authority = ''s'', request_target = ''/k?x'', t_tls = False \<rparr>"

definition demo_conn :: conn where
  "demo_conn = \<lparr> incoming = map Got demo_reads @ [ReadTimeout], outgoing = [Wrote 5, WriteInterrupted, Wrote 100],
     calls = [], written = [] \<rparr>"

lemma demo_request:
  "request_on demo_conn ''GET'' demo_target [] [] True False =
     (Inr \<lparr> status = 206, etag = None, resp_body = [7, 8, 9], reusable = True \<rparr>,
      \<lparr> incoming = [ReadTimeout], outgoing = [], calls = [],
        written = utf8 (request_head ''GET'' demo_target [] [] False) \<rparr>)"
proof -
  have "write_loop (utf8 (request_head ''GET'' demo_target [] [] False)) [Wrote 5, WriteInterrupted, Wrote 100] =
      (utf8 (request_head ''GET'' demo_target [] [] False), Inr [])"
    by (simp add: request_head_def demo_target_def utf8_def)
  then show ?thesis
    by (simp add: request_on_def in_turn_def arm_read_timeout_def arm_write_timeout_def socket_call_def
        write_all_gap_bounded_def demo_conn_def demo_read [simplified])
qed

theorem answered_request_was_sent_whole_witness:
  "written (snd (request_on demo_conn ''GET'' demo_target [] [] True False)) =
     written demo_conn @ utf8 (request_head ''GET'' demo_target [] [] False) @ []"
  using answered_request_was_sent_whole [OF demo_request] by (simp add: demo_request)

end
