(* ===== verification/Presigned.thy ===== *)
theory Presigned
  imports Bucket_Transport
begin

section \<open>Transfers to and from pre-signed URLs\<close>

text \<open>
  The object-storage half of \<^verbatim>\<open>cli/src/http.rs\<close> and the knobs and the governor of
  \<^verbatim>\<open>cli/src/transfer_governor.rs\<close>. Durations are in nanoseconds. What the sockets do depends on the bounds and the
  ceiling in force, so the parameter \<open>S\<close> gives the sockets for a pair of them. A floating-point rate is a value of
  a type \<open>'f\<close> with the operations the governor uses of it, the parameter \<open>F\<close>; the pauses between attempts and the
  notes printed for the user have no counterpart.
\<close>

definition from_secs :: "nat \<Rightarrow> nat" where "from_secs n = n * 1000000000"

definition clamp :: "int \<Rightarrow> int \<Rightarrow> int \<Rightarrow> int" where
  "clamp lo hi v = (if v < lo then lo else if hi < v then hi else v)"

subsection \<open>The served knobs\<close>

record TransportBounds =
  write_gap :: nat
  sndbuf_bytes :: nat
  response_backstop_floor :: nat

definition default_bounds :: TransportBounds where
  "default_bounds = \<lparr> write_gap = from_secs 12, sndbuf_bytes = 1024 * 1024, response_backstop_floor = from_secs 300 \<rparr>"

record TransferKnobs =
  attempts :: nat
  stall_timeout :: nat
  knob_sndbuf_bytes :: nat

definition default_knobs :: TransferKnobs where
  "default_knobs = \<lparr> attempts = 10, stall_timeout = from_secs 15, knob_sndbuf_bytes = sndbuf_bytes default_bounds \<rparr>"

definition governor_i64 :: "'j json_lib \<Rightarrow> 'j \<Rightarrow> string \<Rightarrow> int option" where
  "governor_i64 J value name = Option.bind (j_get J value ''governor'') (\<lambda>g. get_i64 J g name)"

definition knobs_from_response :: "'j json_lib \<Rightarrow> 'j \<Rightarrow> TransferKnobs" where
  "knobs_from_response J value =
     \<lparr> attempts =
         (case get_i64 J value ''part_retry_attempts'' of
            Some v \<Rightarrow> nat (clamp 1 100 v) | None \<Rightarrow> attempts default_knobs),
       stall_timeout =
         (case get_i64 J value ''stall_timeout_seconds'' of
            Some v \<Rightarrow> from_secs (nat (clamp 5 300 v)) | None \<Rightarrow> stall_timeout default_knobs),
       knob_sndbuf_bytes =
         (case governor_i64 J value ''sndbuf_bytes'' of
            Some v \<Rightarrow> nat (clamp (256 * 1024) (8 * 1024 * 1024) v) | None \<Rightarrow> knob_sndbuf_bytes default_knobs) \<rparr>"

definition transport_bounds :: "TransferKnobs \<Rightarrow> TransportBounds" where
  "transport_bounds knobs =
     default_bounds\<lparr> write_gap := stall_timeout knobs, sndbuf_bytes := knob_sndbuf_bytes knobs \<rparr>"

text \<open>The pause before an attempt, in milliseconds, with the random number it draws.\<close>

definition transfer_backoff :: "nat \<Rightarrow> nat \<Rightarrow> nat" where
  "transfer_backoff random attempt =
     (if attempt \<le> 2 then 0 else random mod min (1000 * 2 ^ min (attempt - 3) 3) 10000)"

definition relax_ceiling :: "nat \<Rightarrow> nat" where
  "relax_ceiling c = min (c * 2) (from_secs 86400)"

subsection \<open>The governor\<close>

record 'f f64_lib =
  per_second :: "nat \<Rightarrow> nat \<Rightarrow> 'f"
  credible :: "'f \<Rightarrow> bool"
  blend :: "'f \<Rightarrow> 'f \<Rightarrow> 'f"
  halve :: "'f \<Rightarrow> 'f"
  scaled :: "nat \<Rightarrow> 'f \<Rightarrow> nat \<Rightarrow> nat"

record GovernorKnobs =
  ceiling_k :: nat
  target_part_seconds :: nat
  part_min_bytes :: nat
  part_max_bytes :: nat

definition default_governor_knobs :: GovernorKnobs where
  "default_governor_knobs =
     \<lparr> ceiling_k = 4, target_part_seconds = 10, part_min_bytes = 5 * 1024 * 1024, part_max_bytes = 64 * 1024 * 1024 \<rparr>"

definition governor_int :: "'j json_lib \<Rightarrow> 'j \<Rightarrow> string \<Rightarrow> int \<Rightarrow> int \<Rightarrow> nat \<Rightarrow> nat" where
  "governor_int J value name lo hi fallback =
     (case governor_i64 J value name of Some v \<Rightarrow> nat (clamp lo hi v) | None \<Rightarrow> fallback)"

definition governor_knobs_from_response :: "'j json_lib \<Rightarrow> 'j \<Rightarrow> GovernorKnobs" where
  "governor_knobs_from_response J value =
     (let d = default_governor_knobs in
      \<lparr> ceiling_k = governor_int J value ''ceiling_k_cli'' 2 20 (ceiling_k d),
        target_part_seconds = governor_int J value ''target_part_seconds'' 2 120 (target_part_seconds d),
        part_min_bytes =
          governor_int J value ''part_min_bytes'' (5 * 1024 * 1024) (64 * 1024 * 1024) (part_min_bytes d),
        part_max_bytes =
          governor_int J value ''part_max_bytes'' (5 * 1024 * 1024) (1024 * 1024 * 1024) (part_max_bytes d) \<rparr>)"

record 'f TransferGovernor =
  gov_knobs :: GovernorKnobs
  rate_est :: "'f option"
  generation :: nat

definition governor_new :: "GovernorKnobs \<Rightarrow> 'f TransferGovernor" where
  "governor_new knobs = \<lparr> gov_knobs = knobs, rate_est = None, generation = 0 \<rparr>"

definition RATE_FRESHNESS :: nat where "RATE_FRESHNESS = from_secs (15 * 60)"

definition with_warm_start :: "'f f64_lib \<Rightarrow> GovernorKnobs \<Rightarrow> 'f \<Rightarrow> nat \<Rightarrow> 'f TransferGovernor" where
  "with_warm_start F knobs rate_bps age =
     \<lparr> gov_knobs = knobs, rate_est = (if age \<le> RATE_FRESHNESS \<and> credible F rate_bps then Some rate_bps else None),
       generation = 0 \<rparr>"

definition observe_part :: "'f f64_lib \<Rightarrow> nat \<Rightarrow> nat \<Rightarrow> 'f TransferGovernor \<Rightarrow> 'f TransferGovernor" where
  "observe_part F bytes elapsed g =
     (if elapsed = 0 \<or> bytes = 0 then g
      else
        let observed = per_second F bytes elapsed in
        if \<not> credible F observed then g
        else g\<lparr> rate_est := Some (case rate_est g of Some prev \<Rightarrow> blend F observed prev | None \<Rightarrow> observed) \<rparr>)"

definition penalize_stall :: "'f f64_lib \<Rightarrow> nat \<Rightarrow> 'f TransferGovernor \<Rightarrow> 'f TransferGovernor" where
  "penalize_stall F start_generation g =
     (if start_generation \<noteq> generation g then g
      else
        case rate_est g of
          None \<Rightarrow> g
        | Some rate \<Rightarrow>
            let halved = halve F rate in
            g\<lparr> rate_est := (if credible F halved then Some halved else None), generation := generation g + 1 \<rparr>)"

definition governor_ceiling :: "'f f64_lib \<Rightarrow> nat \<Rightarrow> 'f TransferGovernor \<Rightarrow> nat option" where
  "governor_ceiling F bytes g = map_option (\<lambda>rate. scaled F bytes rate (ceiling_k (gov_knobs g))) (rate_est g)"

subsection \<open>Uploading one part\<close>

type_synonym 'w transport = "TransportBounds \<Rightarrow> nat option \<Rightarrow> 'w sockets"

text \<open>The first argument of the loops is the number of attempts left.\<close>

primrec put_loop ::
  "nat \<Rightarrow> 'w transport \<Rightarrow> TransportBounds \<Rightarrow> string \<Rightarrow> bytes \<Rightarrow> nat option \<Rightarrow> 'w \<Rightarrow> string cli_result \<times> 'w" where
  "put_loop 0 S bounds url body ceiling w = (Inl transfer_stalled, w)"
| "put_loop (Suc n) S bounds url body ceiling w =
     (case bucket_put (S bounds ceiling) url body w of
        (Inr t, w') \<Rightarrow>
          (if tr_status t = 200 \<or> tr_status t = 204 then (ok_or network (tr_etag t), w')
           else if 500 \<le> tr_status t \<and> tr_status t < 600 then put_loop n S bounds url body ceiling w'
           else (Inl network, w'))
      | (Inl e, w') \<Rightarrow>
          put_loop n S bounds url body
            (if code e = ''transfer_stalled'' then map_option relax_ceiling ceiling else ceiling) w')"

definition on_net :: "('w \<Rightarrow> 'a \<times> 'w) \<Rightarrow> 'w http \<Rightarrow> 'a \<times> 'w http" where
  "on_net f h = (let (r, w) = f (net h) in (r, h\<lparr> net := w \<rparr>))"

definition put_presigned ::
  "'w transport \<Rightarrow> string \<Rightarrow> bytes \<Rightarrow> TransferKnobs \<Rightarrow> nat option \<Rightarrow> 'w http \<Rightarrow> string cli_result \<times> 'w http" where
  "put_presigned S url body knobs ceiling h =
     (case refuse_write_if_read_only h of
        Inl e \<Rightarrow> (Inl e, h)
      | Inr _ \<Rightarrow> on_net (put_loop (attempts knobs) S (transport_bounds knobs) url body ceiling) h)"

subsection \<open>Downloading one range\<close>

definition DOWNLOAD_ATTEMPTS :: nat where "DOWNLOAD_ATTEMPTS = 3"

definition presigned_rejected :: CliError where "presigned_rejected = new_error 31 ''presigned_rejected''"

definition pooled_attempt ::
  "'w sockets \<Rightarrow> DownloadPool option \<Rightarrow> bool \<Rightarrow> string \<Rightarrow> nat \<Rightarrow> nat \<Rightarrow> 'w \<Rightarrow>
     Transfer cli_result \<times> DownloadPool option \<times> 'w" where
  "pooled_attempt S pool first url start stop w =
     (case (if first then pool else None) of
        Some p \<Rightarrow> get_range_pooled S p url start stop w
      | None \<Rightarrow> (let (r, w') = get_range S url start stop w in (r, pool, w')))"

primrec get_loop ::
  "nat \<Rightarrow> 'w sockets \<Rightarrow> bool \<Rightarrow> string \<Rightarrow> nat \<Rightarrow> nat \<Rightarrow> DownloadPool option \<Rightarrow> 'w \<Rightarrow>
     bytes cli_result \<times> DownloadPool option \<times> 'w" where
  "get_loop 0 S first url start stop pool w = (Inl network, pool, w)"
| "get_loop (Suc n) S first url start stop pool w =
     (case pooled_attempt S pool first url start stop w of
        (Inr t, pool', w') \<Rightarrow>
          (if tr_status t = 200 \<or> tr_status t = 206 then (Inr (tr_body t), pool', w')
           else if 500 \<le> tr_status t \<and> tr_status t < 600 then get_loop n S False url start stop pool' w'
           else if tr_status t = 403 then (Inl presigned_rejected, pool', w')
           else (Inl network, pool', w'))
      | (Inl e, pool', w') \<Rightarrow> get_loop n S False url start stop pool' w')"

definition get_presigned_range_impl ::
  "'w transport \<Rightarrow> string \<Rightarrow> nat \<Rightarrow> nat \<Rightarrow> DownloadPool option \<Rightarrow> 'w \<Rightarrow> bytes cli_result \<times> DownloadPool option \<times> 'w" where
  "get_presigned_range_impl S url start stop pool w =
     get_loop DOWNLOAD_ATTEMPTS (S (transport_bounds default_knobs) None) True url start stop pool w"

definition get_presigned_range :: "'w transport \<Rightarrow> string \<Rightarrow> nat \<Rightarrow> nat \<Rightarrow> 'w \<Rightarrow> bytes cli_result \<times> 'w" where
  "get_presigned_range S url start stop w =
     (let (r, _, w') = get_presigned_range_impl S url start stop None w in (r, w'))"

definition get_presigned_range_pooled ::
  "'w transport \<Rightarrow> DownloadPool \<Rightarrow> string \<Rightarrow> nat \<Rightarrow> nat \<Rightarrow> 'w \<Rightarrow> bytes cli_result \<times> DownloadPool option \<times> 'w" where
  "get_presigned_range_pooled S pool url start stop w = get_presigned_range_impl S url start stop (Some pool) w"

subsection \<open>The knobs are within their bounds\<close>

lemma clamp_bounds: "lo \<le> hi \<Longrightarrow> lo \<le> clamp lo hi v \<and> clamp lo hi v \<le> hi"
  by (simp add: clamp_def)

text \<open>
  Whatever a server serves, the transfer stays bounded: between 1 and 100 attempts, a stall detected after 5 to 300
  seconds, a send buffer of 256 KiB to 8 MiB, a ceiling of 2 to 20 times the expected duration.\<close>
theorem served_knobs_bounded:
  "attempts (knobs_from_response J v) \<in> {1..100} \<and>
   stall_timeout (knobs_from_response J v) \<in> {from_secs 5..from_secs 300} \<and>
   knob_sndbuf_bytes (knobs_from_response J v) \<in> {256 * 1024..8 * 1024 * 1024} \<and>
   ceiling_k (governor_knobs_from_response J v) \<in> {2..20}"
proof -
  have c: "nat (clamp lo hi x) \<in> {nat lo..nat hi}" if "lo \<le> hi" for lo hi x
    using clamp_bounds [OF that, of x] by auto
  show ?thesis
    using c [of 1 100] c [of 5 300] c [of "256 * 1024" "8 * 1024 * 1024"] c [of 2 20]
    by (auto simp: knobs_from_response_def governor_knobs_from_response_def governor_int_def default_knobs_def
        default_bounds_def default_governor_knobs_def from_secs_def Let_def split: option.split)
qed

subsection \<open>One link event costs one halving\<close>

text \<open>
  However many concurrent parts report a stall that began under the same generation, the rate estimate is halved once: after
  the first report every further one with that stamp leaves the governor unchanged.\<close>
theorem burst_halves_once:
  assumes "rate_est g \<noteq> None" "stamps \<noteq> []" "set stamps \<subseteq> {generation g}"
  shows "fold (penalize_stall F) stamps g = penalize_stall F (generation g) g"
proof -
  have later: "fold (penalize_stall F) ss g' = g'" if "set ss \<subseteq> {generation g}" "generation g' \<noteq> generation g" for ss g'
    using that by (induction ss) (auto simp: penalize_stall_def)
  obtain ss where s: "stamps = generation g # ss" "set ss \<subseteq> {generation g}" using assms(2,3) by (cases stamps) auto
  have "generation (penalize_stall F (generation g) g) \<noteq> generation g"
    using assms(1) by (auto simp: penalize_stall_def Let_def)
  with later [OF s(2)] show ?thesis by (simp add: s(1))
qed

subsection \<open>What a finished transfer means\<close>

text \<open>An upload that succeeds had an attempt in which storage answered 200 or 204 with an entity tag.\<close>

lemma put_loop_Inr:
  "put_loop n S bounds url body ceiling w = (Inr tag, w') \<Longrightarrow>
     \<exists>c w1 t. bucket_put (S bounds c) url body w1 = (Inr t, w') \<and> tr_status t \<in> {200, 204} \<and> tr_etag t = Some tag"
proof (induction n arbitrary: ceiling w)
  case (Suc n)
  obtain r w1 where p: "bucket_put (S bounds ceiling) url body w = (r, w1)" by fastforce
  show ?case
  proof (cases r)
    case (Inl e)
    with Suc.prems p show ?thesis using Suc.IH by fastforce
  next
    case (Inr t)
    with Suc p show ?thesis by (auto simp: result_simps split: if_splits)
  qed
qed simp

lemma get_loop_Inr:
  "get_loop n S first url start stop pool w = (Inr body, pool', w') \<Longrightarrow>
     \<exists>f p w1 t. pooled_attempt S p f url start stop w1 = (Inr t, pool', w') \<and> tr_status t \<in> {200, 206} \<and> tr_body t = body"
proof (induction n arbitrary: first pool w)
  case (Suc n)
  obtain r p1 w1 where p: "pooled_attempt S pool first url start stop w = (r, p1, w1)" by (metis prod.exhaust)
  show ?case
  proof (cases r)
    case (Inl e)
    with Suc.prems p show ?thesis using Suc.IH by fastforce
  next
    case (Inr t)
    with Suc p show ?thesis by (auto split: if_splits)
  qed
qed simp

subsection \<open>A concrete governor\<close>

definition demo_rates :: "nat f64_lib" where
  "demo_rates = \<lparr> per_second = (\<lambda>b e. b * from_secs 1 div e), credible = (\<lambda>r. 1024 \<le> r),
     blend = (\<lambda>new old. (4 * new + 6 * old) div 10), halve = (\<lambda>r. r div 2), scaled = (\<lambda>b r k. from_secs (b * k div r)) \<rparr>"

definition demo_governor :: "nat TransferGovernor" where
  "demo_governor = \<lparr> gov_knobs = default_governor_knobs, rate_est = Some 8192, generation = 3 \<rparr>"

theorem burst_halves_once_witness:
  "fold (penalize_stall demo_rates) [3, 3, 3] demo_governor =
     \<lparr> gov_knobs = default_governor_knobs, rate_est = Some 4096, generation = 4 \<rparr>"
  using burst_halves_once [of demo_governor "[3, 3, 3]" demo_rates]
  by (simp add: demo_governor_def demo_rates_def penalize_stall_def)

end
