(* ===== verification/Upload_Parts.thy ===== *)
theory Upload_Parts
  imports Presigned Envelope
begin

section \<open>Uploading the parts of a file\<close>

text \<open>
  The plan of a multipart upload and \<^verbatim>\<open>upload_parts\<close> of \<^verbatim>\<open>cli/src/commands.rs\<close>: the chunks of a file are
  sealed and put to their pre-signed URLs, one after the other, or by one thread that seals ahead and several that
  send. The threads are a step relation \<open>fan_step\<close> whose steps may interleave in every way the locks and the channel
  allow. The source file is its content with the sizes its reads happen to return; the monotonic clock is a function
  \<open>now\<close> of the state of the world. The busy fraction, a statistic for the user, is not modelled.
\<close>

subsection \<open>The plan\<close>

definition DEFAULT_CHUNK_SIZE :: nat where "DEFAULT_CHUNK_SIZE = 16 * 1024 * 1024"
definition MAX_PARTS :: nat where "MAX_PARTS = 10000"
definition MIN_MULTIPART_CHUNK_SIZE :: nat where "MIN_MULTIPART_CHUNK_SIZE = 5 * 1024 * 1024"
definition CHUNK_OVERHEAD :: nat where "CHUNK_OVERHEAD = 34"

definition as_i64 :: "int \<Rightarrow> int" where
  "as_i64 n = (n + 2 ^ 63) mod 2 ^ 64 - 2 ^ 63"

text \<open>No result is the panic of a division by zero.\<close>

definition chunk_plan :: "nat \<Rightarrow> nat \<Rightarrow> (nat \<times> int) cli_result option" where
  "chunk_plan file_size chunk_size =
     (if file_size \<noteq> 0 \<and> chunk_size = 0 then None
      else
        let chunk_count = (if file_size = 0 then 1 else (file_size + chunk_size - 1) div chunk_size) in
        Some (if MAX_PARTS < chunk_count then Inl invalid_args
              else Inr (chunk_count, as_i64 (as_i64 (int file_size) + int chunk_count * int CHUNK_OVERHEAD))))"

definition check_multipart_floor :: "nat \<Rightarrow> nat \<Rightarrow> unit cli_result" where
  "check_multipart_floor chunk_count chunk_size =
     (if 1 < chunk_count \<and> chunk_size < MIN_MULTIPART_CHUNK_SIZE then Inl invalid_args else Inr ())"

text \<open>\<open>capacity_refusal\<close> gives the refusal's message; here only whether there is one.\<close>

definition capacity_refusal :: "int \<Rightarrow> int option \<Rightarrow> int option \<Rightarrow> bool" where
  "capacity_refusal declared_size max_size remaining \<longleftrightarrow>
     (case max_size of Some c \<Rightarrow> c < declared_size | None \<Rightarrow> False) \<or>
     (case remaining of Some r \<Rightarrow> r < declared_size | None \<Rightarrow> False)"

definition CLI_MAX_UPLOAD_PREPARE_AHEAD :: int where "CLI_MAX_UPLOAD_PREPARE_AHEAD = 4"
definition CLI_MAX_UPLOAD_CONCURRENCY :: int where "CLI_MAX_UPLOAD_CONCURRENCY = 8"

definition upload_prepare_ahead :: "'j json_lib \<Rightarrow> 'j \<Rightarrow> nat" where
  "upload_prepare_ahead J response =
     nat (clamp 0 CLI_MAX_UPLOAD_PREPARE_AHEAD
       (case governor_i64 J response ''upload_prepare_ahead'' of Some v \<Rightarrow> v | None \<Rightarrow> 0))"

definition upload_concurrency :: "'j json_lib \<Rightarrow> 'j \<Rightarrow> nat" where
  "upload_concurrency J response =
     nat (clamp 1 CLI_MAX_UPLOAD_CONCURRENCY
       (case governor_i64 J response ''concurrency_upload'' of Some v \<Rightarrow> v | None \<Rightarrow> 1))"

definition as_i32 :: "int \<Rightarrow> int" where
  "as_i32 n = (n + 2 ^ 31) mod 2 ^ 32 - 2 ^ 31"

definition part_fields :: "'j json_lib \<Rightarrow> 'j \<Rightarrow> (int \<times> string) cli_result" where
  "part_fields J part =
     rbind (ok_or invalid_data (get_i64 J part ''part_number'')) (\<lambda>part_number.
     rbind (ok_or invalid_data (get_str J part ''url'')) (\<lambda>url.
     Inr (as_i32 part_number, url)))"

subsection \<open>Reading and sealing a chunk\<close>

text \<open>
  Each read returns some bytes of what is left, none only at the end of the file; \<open>None\<close> is a failed read. When the
  listed sizes are used up a read fills the rest of the buffer.
\<close>

fun fill_chunk :: "nat option list \<Rightarrow> bytes \<Rightarrow> nat \<Rightarrow> bytes cli_result" where
  "fill_chunk rs rest 0 = Inr []"
| "fill_chunk [] rest want = Inr (take want rest)"
| "fill_chunk (None # rs) rest want = Inl input_read"
| "fill_chunk (Some n # rs) rest want =
     (if rest = [] then Inr []
      else
        let k = min (max 1 n) (min want (length rest)) in
        rbind (fill_chunk rs (drop k rest) (want - k)) (\<lambda>more. Inr (take k rest @ more)))"

record input_file =
  content :: "bytes option"
  seek_ok :: "nat \<Rightarrow> bool"
  reads :: "nat \<Rightarrow> nat option list"

record ('w, 'f) upload_job =
  u_lib :: crypto_lib
  u_input :: input_file
  u_dek :: bytes
  u_file_id :: bytes
  u_chunk_size :: nat
  u_chunk_count :: u32
  u_knobs :: TransferKnobs
  u_transport :: "'w transport"
  u_f64 :: "'f f64_lib"
  u_now :: "'w \<Rightarrow> nat"

type_synonym part_plan = "int \<times> string"
type_synonym sealed_part = "int \<times> string \<times> bytes"

definition chunk_index_of :: "int \<Rightarrow> u32" where "chunk_index_of part_number = of_int (part_number - 1)"

definition seal_part :: "('w, 'f) upload_job \<Rightarrow> bytes \<Rightarrow> part_plan \<Rightarrow> sealed_part cli_result" where
  "seal_part job file = (\<lambda>(part_number, url).
     let index = chunk_index_of part_number;
         offset = unat index * u_chunk_size job
     in if \<not> seek_ok (u_input job) offset then Inl input_read
        else
          rbind (fill_chunk (reads (u_input job) offset) (drop offset file) (u_chunk_size job)) (\<lambda>plain.
          rbind (map_err (\<lambda>_. encryption_failed)
            (seal_chunk (u_lib job) (u_dek job) (u_file_id job) index (u_chunk_count job) plain)) (\<lambda>envelope.
          Inr (part_number, url, envelope))))"

subsection \<open>Sending a part\<close>

record PartInput =
  part_number :: int
  part_etag :: string

record ('w, 'f) wire =
  governor :: "'f TransferGovernor"
  parts :: "PartInput list"
  client :: "'w http"

definition send_begin :: "('w, 'f) upload_job \<Rightarrow> bytes \<Rightarrow> 'f TransferGovernor \<Rightarrow> nat option \<times> nat" where
  "send_begin job envelope g = (governor_ceiling (u_f64 job) (length envelope) g, generation g)"

definition send_finish ::
  "('w, 'f) upload_job \<Rightarrow> sealed_part \<Rightarrow> nat option \<times> nat \<Rightarrow> ('w, 'f) wire \<Rightarrow> unit cli_result \<times> ('w, 'f) wire" where
  "send_finish job = (\<lambda>(n, url, envelope) (ceiling, stamp) s.
     let (outcome, h') = put_presigned (u_transport job) url envelope (u_knobs job) ceiling (client s);
         elapsed = u_now job (net h') - u_now job (net (client s));
         s = s\<lparr> client := h' \<rparr>
     in case outcome of
          Inr tag \<Rightarrow>
            (Inr (), s\<lparr> governor := observe_part (u_f64 job) (length envelope) elapsed (governor s),
                        parts := parts s @ [\<lparr> part_number = n, part_etag = tag \<rparr>] \<rparr>)
        | Inl e \<Rightarrow> (Inl e, s\<lparr> governor := penalize_stall (u_f64 job) stamp (governor s) \<rparr>))"

definition send_one ::
  "('w, 'f) upload_job \<Rightarrow> sealed_part \<Rightarrow> ('w, 'f) wire \<Rightarrow> unit cli_result \<times> ('w, 'f) wire" where
  "send_one job part s = send_finish job part (send_begin job (snd (snd part)) (governor s)) s"

subsection \<open>One part after the other\<close>

fun send_serially ::
  "'j json_lib \<Rightarrow> ('w, 'f) upload_job \<Rightarrow> bytes \<Rightarrow> 'j list \<Rightarrow> ('w, 'f) wire \<Rightarrow> unit cli_result \<times> ('w, 'f) wire" where
  "send_serially J job file [] s = (Inr (), s)"
| "send_serially J job file (p # ps) s =
     (case rbind (part_fields J p) (seal_part job file) of
        Inl e \<Rightarrow> (Inl e, s)
      | Inr part \<Rightarrow> in_turn (send_one job part s) (\<lambda>_. send_serially J job file ps))"

definition finished :: "('w, 'f) wire \<Rightarrow> PartInput list" where
  "finished s = sort_key part_number (parts s)"

definition upload_serially ::
  "'j json_lib \<Rightarrow> ('w, 'f) upload_job \<Rightarrow> 'j list \<Rightarrow> ('w, 'f) wire \<Rightarrow> PartInput list cli_result \<times> ('w, 'f) wire" where
  "upload_serially J job part_urls s =
     (case content (u_input job) of
        None \<Rightarrow> (Inl input_read, s)
      | Some file \<Rightarrow> in_turn (send_serially J job file part_urls s) (\<lambda>_ s. (Inr (finished s), s)))"

subsection \<open>Sealing ahead and sending in parallel\<close>

text \<open>
  The thread that seals is in one of these states: about to open the file, about to prepare the next part of the
  plan, parked in the channel's \<^verbatim>\<open>send\<close> with an item, or returned. A worker waits for an item, holds one it has just
  received, has a part on the wire with the ceiling and generation it started under, or has returned.
\<close>

datatype producer = Opening | Preparing "part_plan list" | Offering "sealed_part cli_result" "part_plan list" | Stopped

datatype worker = Receiving | Holding "sealed_part cli_result" | Sending sealed_part "nat option \<times> nat" | Exited

record ('w, 'f) fan =
  producer :: producer
  queue :: "sealed_part cli_result list"
  workers :: "worker list"
  abort :: bool
  first_error :: "CliError option"
  wire :: "('w, 'f) wire"

definition record_error :: "CliError \<Rightarrow> ('w, 'f) fan \<Rightarrow> ('w, 'f) fan" where
  "record_error e s =
     s\<lparr> first_error := (case first_error s of None \<Rightarrow> Some e | Some e0 \<Rightarrow> Some e0), abort := True \<rparr>"

text \<open>What the thread that seals does once its \<^verbatim>\<open>send\<close> has returned.\<close>

definition after_offer :: "sealed_part cli_result \<Rightarrow> part_plan list \<Rightarrow> producer" where
  "after_offer item rest = (case item of Inl _ \<Rightarrow> Stopped | Inr _ \<Rightarrow> Preparing rest)"

definition set_worker :: "nat \<Rightarrow> worker \<Rightarrow> ('w, 'f) fan \<Rightarrow> ('w, 'f) fan" where
  "set_worker i x s = s\<lparr> workers := (workers s)[i := x] \<rparr>"

inductive fan_step :: "('w, 'f) upload_job \<Rightarrow> nat \<Rightarrow> part_plan list \<Rightarrow> ('w, 'f) fan \<Rightarrow> ('w, 'f) fan \<Rightarrow> bool"
  for job :: "('w, 'f) upload_job" and capacity :: nat and plan :: "part_plan list" where
  open_file: "\<lbrakk> producer s = Opening; content (u_input job) = Some f \<rbrakk> \<Longrightarrow>
    fan_step job capacity plan s (s\<lparr> producer := Preparing plan \<rparr>)"
| open_fails: "\<lbrakk> producer s = Opening; content (u_input job) = None \<rbrakk> \<Longrightarrow>
    fan_step job capacity plan s (s\<lparr> producer := Offering (Inl input_read) [] \<rparr>)"
| plan_done: "producer s = Preparing [] \<Longrightarrow> fan_step job capacity plan s (s\<lparr> producer := Stopped \<rparr>)"
| sees_abort: "\<lbrakk> producer s = Preparing (p # rest); abort s \<rbrakk> \<Longrightarrow>
    fan_step job capacity plan s (s\<lparr> producer := Stopped \<rparr>)"
| prepare: "\<lbrakk> producer s = Preparing (p # rest); \<not> abort s; content (u_input job) = Some f \<rbrakk> \<Longrightarrow>
    fan_step job capacity plan s (s\<lparr> producer := Offering (seal_part job f p) rest \<rparr>)"
| enqueue: "\<lbrakk> producer s = Offering item rest; length (queue s) < capacity \<rbrakk> \<Longrightarrow>
    fan_step job capacity plan s (s\<lparr> producer := after_offer item rest, queue := queue s @ [item] \<rparr>)"
| rendezvous: "\<lbrakk> producer s = Offering item rest; capacity = 0; i < length (workers s); workers s ! i = Receiving \<rbrakk> \<Longrightarrow>
    fan_step job capacity plan s (set_worker i (Holding item) (s\<lparr> producer := after_offer item rest \<rparr>))"
| receive: "\<lbrakk> queue s = item # items; i < length (workers s); workers s ! i = Receiving \<rbrakk> \<Longrightarrow>
    fan_step job capacity plan s (set_worker i (Holding item) (s\<lparr> queue := items \<rparr>))"
| drain: "\<lbrakk> i < length (workers s); workers s ! i = Holding item; abort s \<rbrakk> \<Longrightarrow>
    fan_step job capacity plan s (set_worker i Receiving s)"
| sealing_failed: "\<lbrakk> i < length (workers s); workers s ! i = Holding (Inl e); \<not> abort s \<rbrakk> \<Longrightarrow>
    fan_step job capacity plan s (set_worker i Receiving (record_error e s))"
| start_sending: "\<lbrakk> i < length (workers s); workers s ! i = Holding (Inr part); \<not> abort s \<rbrakk> \<Longrightarrow>
    fan_step job capacity plan s
      (set_worker i (Sending part (send_begin job (snd (snd part)) (governor (wire s)))) s)"
| sent: "\<lbrakk> i < length (workers s); workers s ! i = Sending part start; send_finish job part start (wire s) = (Inr (), w) \<rbrakk> \<Longrightarrow>
    fan_step job capacity plan s (set_worker i Receiving (s\<lparr> wire := w \<rparr>))"
| sending_failed: "\<lbrakk> i < length (workers s); workers s ! i = Sending part start; send_finish job part start (wire s) = (Inl e, w) \<rbrakk> \<Longrightarrow>
    fan_step job capacity plan s (set_worker i Receiving (record_error e (s\<lparr> wire := w \<rparr>)))"
| leave: "\<lbrakk> i < length (workers s); workers s ! i = Receiving; producer s = Stopped; queue s = [] \<rbrakk> \<Longrightarrow>
    fan_step job capacity plan s (set_worker i Exited s)"

definition fan_start :: "nat \<Rightarrow> ('w, 'f) wire \<Rightarrow> ('w, 'f) fan" where
  "fan_start concurrency w =
     \<lparr> producer = Opening, queue = [], workers = replicate (max concurrency 1) Receiving, abort = False,
       first_error = None, wire = w \<rparr>"

definition joined :: "('w, 'f) fan \<Rightarrow> bool" where
  "joined s \<longleftrightarrow> producer s = Stopped \<and> list_all (\<lambda>x. x = Exited) (workers s)"

definition fan_result :: "part_plan list \<Rightarrow> ('w, 'f) fan \<Rightarrow> PartInput list cli_result" where
  "fan_result plan s =
     (case first_error s of
        Some e \<Rightarrow> Inl e
      | None \<Rightarrow> if length (parts (wire s)) \<noteq> length plan then Inl invalid_data else Inr (finished (wire s)))"

definition planned :: "'j json_lib \<Rightarrow> 'j list \<Rightarrow> part_plan list cli_result" where
  "planned J part_urls = try_map (part_fields J) part_urls"

text \<open>\<open>upload_parts\<close> relates the arguments of the function to each outcome it can have.\<close>

definition upload_parts ::
  "'j json_lib \<Rightarrow> ('w, 'f) upload_job \<Rightarrow> 'j list \<Rightarrow> nat \<Rightarrow> nat \<Rightarrow> 'f TransferGovernor \<Rightarrow> 'w http \<Rightarrow>
     PartInput list cli_result \<times> ('w, 'f) wire \<Rightarrow> bool" where
  "upload_parts J job part_urls prepare_ahead concurrency g h outcome \<longleftrightarrow>
     (let w = \<lparr> governor = g, parts = [], client = h \<rparr> in
      if concurrency \<le> 1 \<and> prepare_ahead = 0 then outcome = upload_serially J job part_urls w
      else
        case planned J part_urls of
          Inl e \<Rightarrow> outcome = (Inl e, w)
        | Inr plan \<Rightarrow>
            \<exists>s. (fan_step job (prepare_ahead - 1) plan)\<^sup>*\<^sup>* (fan_start concurrency w) s \<and> joined s \<and>
                outcome = (fan_result plan s, wire s))"

subsection \<open>Reading\<close>

text \<open>Short reads do not matter: a chunk that is read is the chunk of the file.\<close>

lemma fill_chunk_Inr: "fill_chunk rs rest want = Inr chunk \<Longrightarrow> chunk = take want rest"
proof (induction rs rest want arbitrary: chunk rule: fill_chunk.induct)
  case (4 n rs rest want)
  show ?case
  proof (cases "rest = []")
    case False
    let ?k = "min (max 1 n) (min (Suc want) (length rest))"
    obtain more where m: "fill_chunk rs (drop ?k rest) (Suc want - ?k) = Inr more" "chunk = take ?k rest @ more"
      using "4.prems" False by (auto simp: result_simps Let_def)
    have "more = take (Suc want - ?k) (drop ?k rest)" using "4.IH" [OF False refl m(1)] .
    moreover have "take (Suc want) rest = take (?k + (Suc want - ?k)) rest" by simp
    ultimately show ?thesis using m(2) by (simp only: take_add)
  qed (use 4 in simp)
qed auto

lemma seal_part_Inr:
  assumes "seal_part job file (n, url) = Inr part"
  shows "\<exists>envelope. part = (n, url, envelope) \<and>
    seal_chunk (u_lib job) (u_dek job) (u_file_id job) (chunk_index_of n) (u_chunk_count job)
      (take (u_chunk_size job) (drop (unat (chunk_index_of n) * u_chunk_size job) file)) = Inr envelope"
  using assms by (auto simp: seal_part_def Let_def result_simps split: if_splits dest!: fill_chunk_Inr)

subsection \<open>The threads never block for good\<close>

definition fan_ok :: "('w, 'f) upload_job \<Rightarrow> nat \<Rightarrow> ('w, 'f) fan \<Rightarrow> bool" where
  "fan_ok job capacity s \<longleftrightarrow>
     workers s \<noteq> [] \<and> length (queue s) \<le> capacity \<and> (Exited \<in> set (workers s) \<longrightarrow> producer s = Stopped \<and> queue s = []) \<and>
     (abort s \<longleftrightarrow> first_error s \<noteq> None) \<and>
     (case producer s of
        Preparing _ \<Rightarrow> content (u_input job) \<noteq> None
      | Offering (Inr _) _ \<Rightarrow> content (u_input job) \<noteq> None
      | _ \<Rightarrow> True)"

lemma fan_ok_start: "fan_ok job capacity (fan_start concurrency w)"
  by (simp add: fan_ok_def fan_start_def)

lemma set_worker_sel [simp]:
  "producer (set_worker i x s) = producer s" "queue (set_worker i x s) = queue s" "abort (set_worker i x s) = abort s"
  "first_error (set_worker i x s) = first_error s" "wire (set_worker i x s) = wire s"
  "workers (set_worker i x s) = (workers s)[i := x]"
  by (simp_all add: set_worker_def)

lemma record_error_sel [simp]:
  "producer (record_error e s) = producer s" "queue (record_error e s) = queue s" "abort (record_error e s)"
  "first_error (record_error e s) \<noteq> None" "wire (record_error e s) = wire s" "workers (record_error e s) = workers s"
  by (simp_all add: record_error_def split: option.split)

lemma update_keeps_exited: "\<lbrakk> Exited \<in> set (xs[i := x]); x \<noteq> Exited \<rbrakk> \<Longrightarrow> Exited \<in> set xs"
  using set_update_subset_insert [of xs i x] by auto

lemma fan_ok_step:
  assumes "fan_step job capacity plan s t" "fan_ok job capacity s"
  shows "fan_ok job capacity t"
  using assms
  by (induction rule: fan_step.induct)
    (auto simp: fan_ok_def after_offer_def split: sum.splits producer.splits dest!: update_keeps_exited)

lemma fan_ok_reachable:
  "(fan_step job capacity plan)\<^sup>*\<^sup>* (fan_start concurrency w) s \<Longrightarrow> fan_ok job capacity s"
  by (induction rule: rtranclp_induct) (auto simp: fan_ok_start dest: fan_ok_step)

lemma busy_worker_steps:
  assumes "i < length (workers s)" "workers s ! i = Holding item \<or> workers s ! i = Sending part start"
  shows "\<exists>t. fan_step job capacity plan s t"
proof (cases "workers s ! i = Holding item")
  case True
  then show ?thesis using assms(1) by (cases "abort s"; cases item) (auto intro: fan_step.intros)
next
  case False
  then have "workers s ! i = Sending part start" using assms(2) by simp
  moreover obtain r w where "send_finish job part start (wire s) = (r, w)" by fastforce
  ultimately show ?thesis using assms(1) fan_step.sent [of i s part start job w capacity plan]
      fan_step.sending_failed [of i s part start job _ w capacity plan]
    by (cases r) auto
qed

lemma idle_or_busy:
  assumes "fan_ok job capacity s" "x \<in> set (workers s)" "x \<noteq> Exited"
  shows "(\<exists>i < length (workers s). workers s ! i = Receiving) \<or> (\<exists>t. fan_step job capacity plan s t)"
proof -
  obtain i where i: "i < length (workers s)" "workers s ! i = x" using assms(2) by (auto simp: in_set_conv_nth)
  with assms(3) busy_worker_steps [OF i(1)] show ?thesis by (cases x) auto
qed

lemma fan_progress:
  assumes ok: "fan_ok job capacity s" and "\<not> joined s"
  shows "\<exists>t. fan_step job capacity plan s t"
proof -
  have live: "(\<exists>i < length (workers s). workers s ! i = Receiving) \<or> (\<exists>t. fan_step job capacity plan s t)"
    if "producer s \<noteq> Stopped"
  proof -
    have "hd (workers s) \<in> set (workers s)" "Exited \<notin> set (workers s)" using ok that by (auto simp: fan_ok_def)
    then show ?thesis using idle_or_busy [OF ok] by metis
  qed
  show ?thesis
  proof (cases "producer s")
    case Opening
    then show ?thesis by (cases "content (u_input job)") (auto intro: fan_step.intros)
  next
    case (Preparing ps)
    then show ?thesis using ok by (cases ps; cases "abort s") (auto simp: fan_ok_def intro: fan_step.intros)
  next
    case (Offering item rest)
    show ?thesis
    proof (cases "length (queue s) < capacity")
      case True
      then show ?thesis using Offering by (auto intro: fan_step.enqueue)
    next
      case False
      then have full: "length (queue s) = capacity" using ok by (simp add: fan_ok_def)
      from live Offering consider i where "i < length (workers s)" "workers s ! i = Receiving" |
        t where "fan_step job capacity plan s t" by auto
      then show ?thesis
      proof cases
        case 1
        then show ?thesis using fan_step.rendezvous [OF Offering _ 1] fan_step.receive [OF _ 1] full
          by (cases "queue s") (auto simp del: set_worker_sel, blast+)
      qed blast
    qed
  next
    case Stopped
    then obtain x where "x \<in> set (workers s)" "x \<noteq> Exited" using assms(2) by (auto simp: joined_def list_all_iff)
    from idle_or_busy [OF ok this, of plan] show ?thesis
    proof
      assume "\<exists>i < length (workers s). workers s ! i = Receiving"
      then obtain i where i: "i < length (workers s)" "workers s ! i = Receiving" by blast
      show ?thesis using fan_step.leave [OF i Stopped] fan_step.receive [OF _ i] by (cases "queue s") blast+
    qed
  qed
qed

subsection \<open>The threads end\<close>

fun producer_work :: "part_plan list \<Rightarrow> producer \<Rightarrow> nat" where
  "producer_work plan Opening = 5 * length plan + 6"
| "producer_work plan (Preparing ps) = 5 * length ps + 1"
| "producer_work plan (Offering _ rest) = 5 * length rest + 5"
| "producer_work plan Stopped = 0"

fun worker_work :: "worker \<Rightarrow> nat" where
  "worker_work Receiving = 1"
| "worker_work (Holding _) = 3"
| "worker_work (Sending _ _) = 2"
| "worker_work Exited = 0"

definition fan_work :: "part_plan list \<Rightarrow> ('w, 'f) fan \<Rightarrow> nat" where
  "fan_work plan s = producer_work plan (producer s) + 3 * length (queue s) + sum_list (map worker_work (workers s))"

lemma sum_list_set:
  fixes f :: "'a \<Rightarrow> 'b :: comm_monoid_add"
  shows "i < length xs \<Longrightarrow> sum_list (map f (xs[i := x])) + f (xs ! i) = sum_list (map f xs) + f x"
proof (induction xs arbitrary: i)
  case (Cons y ys)
  show ?case
  proof (cases i)
    case 0
    then show ?thesis by (simp add: ac_simps)
  next
    case (Suc j)
    then have "sum_list (map f (ys[j := x])) + f (ys ! j) = sum_list (map f ys) + f x" using Cons by simp
    then show ?thesis using Suc by (simp add: add.assoc)
  qed
qed simp

lemma fan_work_step: "fan_step job capacity plan s t \<Longrightarrow> fan_work plan t < fan_work plan s"
proof (induction rule: fan_step.induct)
  case (rendezvous s item rest i)
  then show ?case using sum_list_set [of i "workers s" worker_work "Holding item"]
    by (cases item) (simp_all add: fan_work_def after_offer_def)
next
  case (receive s item items i)
  then show ?case using sum_list_set [of i "workers s" worker_work "Holding item"] by (simp add: fan_work_def)
next
  case (drain i s item)
  then show ?case using sum_list_set [of i "workers s" worker_work Receiving] by (simp add: fan_work_def)
next
  case (sealing_failed i s e)
  then show ?case using sum_list_set [of i "workers s" worker_work Receiving] by (simp add: fan_work_def)
next
  case (start_sending i s part)
  then show ?case using sum_list_set [of i "workers s" worker_work
      "Sending part (send_begin job (snd (snd part)) (governor (wire s)))"] by (simp add: fan_work_def)
next
  case (sent i s part start w)
  then show ?case using sum_list_set [of i "workers s" worker_work Receiving] by (simp add: fan_work_def)
next
  case (sending_failed i s part start e w)
  then show ?case using sum_list_set [of i "workers s" worker_work Receiving] by (simp add: fan_work_def)
next
  case (leave i s)
  then show ?case using sum_list_set [of i "workers s" worker_work Exited] by (simp add: fan_work_def)
qed (auto simp: fan_work_def after_offer_def split: sum.splits)

lemma fan_run_length: "(fan_step job capacity plan ^^ n) s t \<Longrightarrow> n + fan_work plan t \<le> fan_work plan s"
proof (induction n arbitrary: t)
  case (Suc n)
  then obtain u where "(fan_step job capacity plan ^^ n) s u" "fan_step job capacity plan u t" by auto
  with Suc.IH fan_work_step [of job capacity plan u t] show ?case by fastforce
qed simp

text \<open>
  The upload's threads neither deadlock nor run on: from every state they can reach, either a step is possible or all of them
  have returned, and no run has more than \<open>5 * parts + 6\<close> steps and one more for each worker.\<close>
theorem fan_out_never_hangs:
  assumes "(fan_step job capacity plan ^^ n) (fan_start concurrency w) s"
  shows "((\<exists>t. fan_step job capacity plan s t) \<or> joined s) \<and> n \<le> 5 * length plan + 6 + max concurrency 1"
proof -
  have "(fan_step job capacity plan)\<^sup>*\<^sup>* (fan_start concurrency w) s" using assms by (rule relpowp_imp_rtranclp)
  from fan_progress [OF fan_ok_reachable [OF this]] have "(\<exists>t. fan_step job capacity plan s t) \<or> joined s" by blast
  moreover have "fan_work plan (fan_start concurrency w) = 5 * length plan + 6 + max concurrency 1"
    by (simp add: fan_work_def fan_start_def sum_list_replicate)
  ultimately show ?thesis using fan_run_length [OF assms] by auto
qed

subsection \<open>Every part of the plan is delivered\<close>

text \<open>
  A part is delivered when the chunk of its number, sealed for that number, was put to the URL the plan gives it and
  storage answered with the part's entity tag.
\<close>

definition delivered :: "('w, 'f) upload_job \<Rightarrow> part_plan list \<Rightarrow> PartInput \<Rightarrow> bool" where
  "delivered job plan p \<longleftrightarrow>
     (\<exists>file url envelope ceiling h h'. content (u_input job) = Some file \<and> (part_number p, url) \<in> set plan \<and>
        seal_part job file (part_number p, url) = Inr (part_number p, url, envelope) \<and>
        put_presigned (u_transport job) url envelope (u_knobs job) ceiling h = (Inr (part_etag p), h'))"

definition sealed_for :: "('w, 'f) upload_job \<Rightarrow> part_plan list \<Rightarrow> sealed_part \<Rightarrow> bool" where
  "sealed_for job plan = (\<lambda>(n, url, envelope).
     (n, url) \<in> set plan \<and> (\<exists>file. content (u_input job) = Some file \<and> seal_part job file (n, url) = Inr (n, url, envelope)))"

fun item_ok :: "('w, 'f) upload_job \<Rightarrow> part_plan list \<Rightarrow> sealed_part cli_result \<Rightarrow> bool" where
  "item_ok job plan (Inl e) = True"
| "item_ok job plan (Inr part) = sealed_for job plan part"

fun producer_sound :: "('w, 'f) upload_job \<Rightarrow> part_plan list \<Rightarrow> producer \<Rightarrow> bool" where
  "producer_sound job plan (Preparing ps) = (set ps \<subseteq> set plan)"
| "producer_sound job plan (Offering item rest) = (item_ok job plan item \<and> set rest \<subseteq> set plan)"
| "producer_sound job plan _ = True"

fun worker_sound :: "('w, 'f) upload_job \<Rightarrow> part_plan list \<Rightarrow> worker \<Rightarrow> bool" where
  "worker_sound job plan (Holding item) = item_ok job plan item"
| "worker_sound job plan (Sending part _) = sealed_for job plan part"
| "worker_sound job plan _ = True"

definition fan_sound :: "('w, 'f) upload_job \<Rightarrow> part_plan list \<Rightarrow> ('w, 'f) fan \<Rightarrow> bool" where
  "fan_sound job plan s \<longleftrightarrow> producer_sound job plan (producer s) \<and> (\<forall>item \<in> set (queue s). item_ok job plan item) \<and>
     (\<forall>x \<in> set (workers s). worker_sound job plan x) \<and> (\<forall>p \<in> set (parts (wire s)). delivered job plan p)"

lemma seal_part_sound:
  assumes "content (u_input job) = Some file" "p \<in> set plan"
  shows "item_ok job plan (seal_part job file p)"
proof (cases "seal_part job file p")
  case (Inr part)
  then obtain envelope where "part = (fst p, snd p, envelope)" using seal_part_Inr [of job "file" "fst p" "snd p" part] by auto
  with Inr assms show ?thesis by (auto simp: sealed_for_def split: prod.splits)
qed simp

lemma send_finish_parts:
  assumes "send_finish job part start w = (r, w')" "sealed_for job plan part" "\<forall>p \<in> set (parts w). delivered job plan p"
  shows "(\<forall>p \<in> set (parts w'). delivered job plan p) \<and>
    map part_number (parts w') = map part_number (parts w) @ (case r of Inl _ \<Rightarrow> [] | Inr _ \<Rightarrow> [fst part])"
proof -
  obtain n url envelope where part: "part = (n, url, envelope)" by (cases part)
  obtain outcome h' where put: "put_presigned (u_transport job) url envelope (u_knobs job) (fst start) (client w) = (outcome, h')"
    by fastforce
  have new: "delivered job plan \<lparr> part_number = n, part_etag = tag \<rparr>" if "outcome = Inr tag" for tag
    using assms(2) put that unfolding part sealed_for_def delivered_def by fastforce
  show ?thesis using assms(1,3) put new
    by (cases outcome) (auto simp: part send_finish_def Let_def split: prod.splits)
qed

lemma set_updateD: "x \<in> set (xs[i := y]) \<Longrightarrow> x = y \<or> x \<in> set xs"
  using set_update_subset_insert [of xs i y] by auto

lemma held_item:
  assumes "fan_sound job plan s" "i < length (workers s)"
  shows "worker_sound job plan (workers s ! i)"
  using assms by (simp add: fan_sound_def)

lemma fan_sound_step:
  assumes "fan_step job capacity plan s t" "fan_sound job plan s"
  shows "fan_sound job plan t"
  using assms
proof (induction rule: fan_step.induct)
  case (prepare s p rest f)
  then show ?case using seal_part_sound [of job f p plan] by (auto simp: fan_sound_def)
next
  case (sent i s part start w)
  have "sealed_for job plan part" using held_item [OF sent(4,1)] sent(2) by simp
  with sent send_finish_parts [OF sent(3) this] show ?case
    by (auto simp: fan_sound_def dest!: set_updateD)
next
  case (sending_failed i s part start e w)
  have "sealed_for job plan part" using held_item [OF sending_failed(4,1)] sending_failed(2) by simp
  with sending_failed send_finish_parts [OF sending_failed(3) this] show ?case
    by (auto simp: fan_sound_def dest!: set_updateD)
next
  case (start_sending i s part)
  have "sealed_for job plan part" using held_item [OF start_sending(4,1)] start_sending(2) by simp
  with start_sending show ?case by (auto simp: fan_sound_def dest!: set_updateD)
qed (auto simp: fan_sound_def after_offer_def split: sum.splits dest!: set_updateD)

text \<open>Until something fails, every number of the plan is in exactly one place: still to prepare, prepared, on the wire or delivered.\<close>

fun item_numbers :: "sealed_part cli_result \<Rightarrow> int multiset" where
  "item_numbers (Inl _) = {#}"
| "item_numbers (Inr part) = {# fst part #}"

fun producer_numbers :: "part_plan list \<Rightarrow> producer \<Rightarrow> int multiset" where
  "producer_numbers plan Opening = mset (map fst plan)"
| "producer_numbers plan (Preparing ps) = mset (map fst ps)"
| "producer_numbers plan (Offering item rest) = item_numbers item + mset (map fst rest)"
| "producer_numbers plan Stopped = {#}"

fun worker_numbers :: "worker \<Rightarrow> int multiset" where
  "worker_numbers (Holding item) = item_numbers item"
| "worker_numbers (Sending part _) = {# fst part #}"
| "worker_numbers _ = {#}"

definition fan_numbers :: "part_plan list \<Rightarrow> ('w, 'f) fan \<Rightarrow> int multiset" where
  "fan_numbers plan s =
     producer_numbers plan (producer s) + sum_list (map item_numbers (queue s)) +
     sum_list (map worker_numbers (workers s)) + mset (map part_number (parts (wire s)))"

definition fan_failing :: "('w, 'f) fan \<Rightarrow> bool" where
  "fan_failing s \<longleftrightarrow> abort s \<or> (\<exists>e rest. producer s = Offering (Inl e) rest) \<or> (\<exists>e. Inl e \<in> set (queue s)) \<or>
     (\<exists>e. Holding (Inl e) \<in> set (workers s))"

lemma kept_in_update: "\<lbrakk> y \<in> set xs; xs ! i \<noteq> y \<rbrakk> \<Longrightarrow> y \<in> set (xs[i := x])"
  by (metis in_set_conv_nth length_list_update nth_list_update_neq)

lemma kept_failure:
  "\<lbrakk> Holding (Inl e) \<in> set xs; \<forall>e. xs ! i \<noteq> Holding (Inl e) \<rbrakk> \<Longrightarrow> Holding (Inl e) \<in> set (xs[i := x])"
  using kept_in_update by metis

lemma fan_failing_step:
  assumes "fan_step job capacity plan s t" "fan_failing s"
  shows "fan_failing t"
  using assms
proof (induction rule: fan_step.induct)
  case (enqueue s item rest)
  then show ?case by (cases item) (auto simp: fan_failing_def)
next
  case (rendezvous s item rest i)
  show ?case
  proof (cases item)
    case (Inl e)
    then have "Holding (Inl e) \<in> set ((workers s)[i := Holding item])" using rendezvous by (simp add: set_update_memI)
    then show ?thesis by (auto simp: fan_failing_def)
  next
    case (Inr part)
    then show ?thesis using rendezvous kept_failure [of _ "workers s" i "Holding item"]
      unfolding fan_failing_def by (auto, blast)
  qed
next
  case (receive s item items i)
  show ?case
  proof (cases item)
    case (Inl e)
    then have "Holding (Inl e) \<in> set ((workers s)[i := Holding item])" using receive by (simp add: set_update_memI)
    then show ?thesis by (auto simp: fan_failing_def)
  next
    case (Inr part)
    then show ?thesis using receive kept_failure [of _ "workers s" i "Holding item"]
      unfolding fan_failing_def by (auto, blast)
  qed
next
  case (start_sending i s part)
  then show ?case using kept_failure [of _ "workers s" i] unfolding fan_failing_def by (auto, blast)
next
  case (sent i s part start w)
  then show ?case using kept_failure [of _ "workers s" i] unfolding fan_failing_def by (auto, blast)
next
  case (leave i s)
  then show ?case using kept_failure [of _ "workers s" i] by (auto simp: fan_failing_def)
qed (auto simp: fan_failing_def)

lemma fan_numbers_step:
  assumes "fan_step job capacity plan s t" "fan_sound job plan s" "\<not> fan_failing t"
  shows "fan_numbers plan t = fan_numbers plan s"
  using assms
proof (induction rule: fan_step.induct)
  case (prepare s p rest f)
  then obtain part where "seal_part job f p = Inr part" by (cases "seal_part job f p") (auto simp: fan_failing_def)
  moreover from this have "fst part = fst p" using seal_part_Inr [of job f "fst p" "snd p" part] by auto
  ultimately show ?case using prepare by (simp add: fan_numbers_def)
next
  case (enqueue s item rest)
  then show ?case by (cases item) (auto simp: fan_numbers_def fan_failing_def after_offer_def)
next
  case (rendezvous s item rest i)
  then obtain part where "item = Inr part" by (cases item) (auto simp: fan_failing_def intro: set_update_memI)
  with rendezvous show ?case using sum_list_set [of i "workers s" worker_numbers "Holding item"]
    by (simp add: fan_numbers_def after_offer_def ac_simps)
next
  case (receive s item items i)
  then show ?case using sum_list_set [of i "workers s" worker_numbers "Holding item"]
    by (simp add: fan_numbers_def ac_simps)
next
  case (start_sending i s part)
  then show ?case using sum_list_set [of i "workers s" worker_numbers
      "Sending part (send_begin job (snd (snd part)) (governor (wire s)))"] by (simp add: fan_numbers_def)
next
  case (sent i s part start w)
  have "sealed_for job plan part" using held_item [OF sent(4,1)] sent(2) by simp
  from send_finish_parts [OF sent(3) this]
  have "map part_number (parts w) = map part_number (parts (wire s)) @ [fst part]"
    using sent(4) by (simp add: fan_sound_def)
  with sent show ?case using sum_list_set [of i "workers s" worker_numbers Receiving]
    by (simp add: fan_numbers_def ac_simps)
next
  case (leave i s)
  then show ?case using sum_list_set [of i "workers s" worker_numbers Exited] by (simp add: fan_numbers_def)
qed (auto simp: fan_numbers_def fan_failing_def)

lemma fan_invariant:
  assumes "(fan_step job capacity plan)\<^sup>*\<^sup>* (fan_start concurrency w) s" "parts w = []"
  shows "fan_sound job plan s \<and> (fan_failing s \<or> fan_numbers plan s = mset (map fst plan))"
  using assms(1)
proof (induction rule: rtranclp_induct)
  case base
  then show ?case
    by (auto simp: fan_start_def fan_sound_def fan_numbers_def sum_list_replicate assms(2) map_replicate)
next
  case (step s t)
  then show ?case using fan_sound_step fan_failing_step fan_numbers_step by metis
qed

lemma exited_numbers: "set xs \<subseteq> {Exited} \<Longrightarrow> sum_list (map worker_numbers xs) = {#}"
  by (induction xs) auto

lemma joined_parts:
  assumes "(fan_step job capacity plan)\<^sup>*\<^sup>* (fan_start concurrency w) s" "parts w = []" "joined s" "first_error s = None"
  shows "mset (map part_number (parts (wire s))) = mset (map fst plan) \<and> (\<forall>p \<in> set (parts (wire s)). delivered job plan p)"
proof -
  have ok: "fan_ok job capacity s" using fan_ok_reachable [OF assms(1)] .
  have exited: "workers s \<noteq> []" "set (workers s) \<subseteq> {Exited}" "producer s = Stopped"
    using ok assms(3) by (auto simp: fan_ok_def joined_def list_all_iff)
  then have "Exited \<in> set (workers s)" by (cases "workers s") auto
  then have q: "queue s = []" "\<not> abort s" using ok assms(4) by (auto simp: fan_ok_def)
  have "sum_list (map worker_numbers (workers s)) = {#}" using exited(2) by (rule exited_numbers)
  moreover have "\<not> fan_failing s" using exited q by (auto simp: fan_failing_def)
  ultimately show ?thesis using fan_invariant [OF assms(1,2)] exited(3) q(1)
    by (simp add: fan_numbers_def fan_sound_def)
qed

text \<open>The same of the serial loop.\<close>

lemma send_serially_parts:
  assumes "send_serially J job f ps s = (Inr u, s')" "content (u_input job) = Some f"
  shows "\<exists>plan. planned J ps = Inr plan \<and> map part_number (parts s') = map part_number (parts s) @ map fst plan \<and>
    (\<forall>plan'. set plan \<subseteq> set plan' \<longrightarrow> (\<forall>p \<in> set (parts s). delivered job plan' p) \<longrightarrow> (\<forall>p \<in> set (parts s'). delivered job plan' p))"
  using assms(1)
proof (induction ps arbitrary: s)
  case Nil
  then show ?case by (simp add: planned_def)
next
  case (Cons j js)
  then obtain p part s1 where p: "part_fields J j = Inr p" "seal_part job f p = Inr part"
      "send_one job part s = (Inr (), s1)" "send_serially J job f js s1 = (Inr u, s')"
    by (auto simp: result_simps split: sum.splits)
  obtain plan where plan: "planned J js = Inr plan"
      "map part_number (parts s') = map part_number (parts s1) @ map fst plan"
      "\<And>plan'. \<lbrakk> set plan \<subseteq> set plan'; \<forall>p \<in> set (parts s1). delivered job plan' p \<rbrakk> \<Longrightarrow> \<forall>p \<in> set (parts s'). delivered job plan' p"
    using Cons.IH [OF p(4)] by blast
  have part: "sealed_for job plan' part" if "p \<in> set plan'" for plan'
    using seal_part_sound [OF assms(2) that] p(2) by simp
  have "fst part = fst p" using p(2) seal_part_Inr [of job f "fst p" "snd p" part] by auto
  note one = send_finish_parts [OF p(3) [unfolded send_one_def]]
  have numbers: "map part_number (parts s1) = map part_number (parts s) @ [fst p]"
    using p(3) \<open>fst part = fst p\<close> by (auto simp: send_one_def send_finish_def Let_def split: prod.splits sum.splits)
  show ?case
  proof (intro exI [of _ "p # plan"] conjI allI impI)
    show "planned J (j # js) = Inr (p # plan)" using p(1) plan(1) by (simp add: planned_def result_simps)
    show "map part_number (parts s') = map part_number (parts s) @ map fst (p # plan)" using numbers plan(2) by simp
    fix plan' assume sub: "set (p # plan) \<subseteq> set plan'" and old: "\<forall>p \<in> set (parts s). delivered job plan' p"
    then have "\<forall>p \<in> set (parts s1). delivered job plan' p" using one [OF part] by simp
    then show "\<forall>p \<in> set (parts s'). delivered job plan' p" using sub by (intro plan(3)) simp_all
  qed
qed

lemma numbers_sorted:
  assumes "mset (map part_number ps) = mset ns"
  shows "map part_number (sort_key part_number ps) = sort ns"
proof (rule sym, rule properties_for_sort)
  show "mset (map part_number (sort_key part_number ps)) = mset ns" using assms by (simp only: mset_map mset_sort)
qed simp

text \<open>
  C21: When the parts of an upload are reported as stored, on whichever path and in whatever order the threads ran, they are
  exactly the parts of the plan, in the order of their numbers: each was sealed from the file's own chunk for its own
  number, put to the URL planned for it, and is reported with the entity tag storage answered.\<close>
theorem uploaded_parts_are_the_plan:
  assumes "upload_parts J job part_urls prepare_ahead concurrency g h (Inr ps, w)"
  shows "\<exists>plan. planned J part_urls = Inr plan \<and> map part_number ps = sort (map fst plan) \<and> list_all (delivered job plan) ps"
proof (cases "concurrency \<le> 1 \<and> prepare_ahead = 0")
  case True
  then have "upload_serially J job part_urls \<lparr> governor = g, parts = [], client = h \<rparr> = (Inr ps, w)"
    using assms by (simp add: upload_parts_def)
  then obtain f where f: "content (u_input job) = Some f"
      "in_turn (send_serially J job f part_urls \<lparr> governor = g, parts = [], client = h \<rparr>) (\<lambda>_ s. (Inr (finished s), s)) = (Inr ps, w)"
    by (auto simp: upload_serially_def split: option.splits)
  then obtain s u where s: "content (u_input job) = Some f" "ps = finished s"
      "send_serially J job f part_urls \<lparr> governor = g, parts = [], client = h \<rparr> = (Inr u, s)"
    unfolding in_turn_Inr by blast
  obtain plan where "planned J part_urls = Inr plan" "map part_number (parts s) = map fst plan"
      "\<forall>p \<in> set (parts s). delivered job plan p"
    using send_serially_parts [OF s(3,1)] by auto
  then show ?thesis using s(2) numbers_sorted [of "parts s" "map fst plan"] by (auto simp: finished_def list_all_iff)
next
  case False
  then obtain plan s where s: "planned J part_urls = Inr plan" "joined s"
      "(fan_step job (prepare_ahead - 1) plan)\<^sup>*\<^sup>* (fan_start concurrency \<lparr> governor = g, parts = [], client = h \<rparr>) s"
      "fan_result plan s = Inr ps"
    using assms by (auto simp: upload_parts_def Let_def split: sum.splits)
  then have r: "first_error s = None" "ps = finished (wire s)" by (auto simp: fan_result_def split: option.splits if_splits)
  from joined_parts [OF s(3) _ s(2) r(1)] s(1) r(2) numbers_sorted [of "parts (wire s)" "map fst plan"]
  show ?thesis by (auto simp: finished_def list_all_iff)
qed

text \<open>The check for missing parts after the threads have joined never fires.\<close>

lemma fan_result_complete:
  assumes "(fan_step job capacity plan)\<^sup>*\<^sup>* (fan_start concurrency w) s" "parts w = []" "joined s"
  shows "fan_result plan s = (case first_error s of Some e \<Rightarrow> Inl e | None \<Rightarrow> Inr (finished (wire s)))"
proof (cases "first_error s")
  case None
  have "length (parts (wire s)) = length plan"
    using mset_eq_length [OF conjunct1 [OF joined_parts [OF assms None]]] by simp
  with None show ?thesis by (simp add: fan_result_def)
qed (simp add: fan_result_def)

subsection \<open>A concrete upload\<close>

definition demo_ok_head :: string where
  "demo_ok_head = ''HTTP/1.1 200 OK'' @ [CHR 0x0D, CHR 0x0A] @ ''etag:t'' @ [CHR 0x0D, CHR 0x0A, CHR 0x0D, CHR 0x0A]"

definition demo_store :: "nat transport" where
  "demo_store = (\<lambda>_ _. \<lparr> resolve = (\<lambda>_ _. Some [\<lparr> addr_text = ''s'', is_ipv6 = False, is_loopback = True \<rparr>]),
     connect_timeout = (\<lambda>_ n. (Some \<lparr> incoming = [Got (utf8 demo_ok_head)], outgoing = [Wrote 1000, Wrote 1000], calls = [], written = [] \<rparr>, Suc n)),
     tls_setup = (\<lambda>_ n. (None, n)) \<rparr>)"

definition demo_job :: "(nat, nat) upload_job" where
  "demo_job = \<lparr> u_lib = demo_lib, u_input = \<lparr> content = Some [1, 2, 3], seek_ok = (\<lambda>_. True), reads = (\<lambda>_. [Some 1]) \<rparr>,
     u_dek = replicate 32 7, u_file_id = replicate 16 1, u_chunk_size = 2, u_chunk_count = 2, u_knobs = default_knobs,
     u_transport = demo_store, u_f64 = demo_rates, u_now = id \<rparr>"

definition demo_part :: "int \<Rightarrow> demo_json" where
  "demo_part n = DObj [(''part_number'', DInt n), (''url'', DStr ''http://s/k'')]"

definition demo_client :: "nat http" where "demo_client = \<lparr> READ_ONLY = False, sent = [], net = 0 \<rparr>"

lemma demo_ok_parse:
  "parse_head (utf8 demo_ok_head) = Inr \<lparr> h_status = 200, h_etag = Some ''t'', content_length = None,
     h_chunked = False, server_close = False \<rparr>"
proof -
  have "list_all (\<lambda>b. b < 0x80) (utf8 demo_ok_head)" by (simp add: utf8_def demo_ok_head_def)
  from lossy_ascii [OF this] have "from_utf8_lossy (utf8 demo_ok_head) = demo_ok_head" by (simp only: of_utf8_utf8)
  moreover have "split_crlf demo_ok_head = [''HTTP/1.1 200 OK'', ''etag:t'', [], []]" by (simp add: demo_ok_head_def)
  moreover have "words ''HTTP/1.1 200 OK'' = [''HTTP/1.1'', ''200'', ''OK'']"
    using words_plain(1) [of "''HTTP/1.1''" "''200 OK''"] words_plain(1) [of "''200''" "''OK''"] words_plain(2) [of "''OK''"]
    by (simp add: plain_def)
  moreover have "trim ''t'' = ''t''" by (simp add: trim_plain plain_def)
  ultimately show ?thesis
    by (simp add: parse_head_def header_line_def parse_unsigned_def is_digit_def digit_value_def Let_def strip_prefix_def
        eq_ignore_ascii_case_def to_ascii_lowercase_def ascii_lower_def rbind_def ok_or_def)
qed

lemma demo_ok_response:
  "read_response False [Got (utf8 demo_ok_head)] =
     Inr (\<lparr> status = 200, etag = Some ''t'', resp_body = [], reusable = False \<rparr>, [])"
proof -
  have "find_headers_end (utf8 demo_ok_head) = Some 27" "length (utf8 demo_ok_head) = 27" "utf8 demo_ok_head \<noteq> []"
    by (simp_all add: demo_ok_head_def utf8_def)
  then have "read_head [] [Got (utf8 demo_ok_head)] = Inr (27, utf8 demo_ok_head, [])" by (simp add: read_head.simps)
  then show ?thesis using \<open>length (utf8 demo_ok_head) = 27\<close>
    by (simp add: read_response_def rbind_def demo_ok_parse)
qed

lemma demo_parse_url:
  "parse_url ''http://s/k'' = Inr \<lparr> t_host = ''s'', t_port = 80, t_authority = ''s'', request_target = ''/k'', t_tls = False \<rparr>"
  using url_parts [of "''s''" 80 False "''k''"]
  by (simp add: url_scheme_def wire_authority_def default_port_def Let_def)

lemma write_loop_once: "\<lbrakk> buf \<noteq> []; length buf \<le> n; 0 < n \<rbrakk> \<Longrightarrow> write_loop buf (Wrote n # evs) = (buf, Inr evs)"
  by (cases buf) simp_all

lemma demo_put:
  assumes "body \<noteq> []" "length body \<le> 90"
  shows "put_presigned demo_store ''http://s/k'' body default_knobs c h =
    (if READ_ONLY h then (Inl generic, h) else (Inr ''t'', h\<lparr> net := Suc (net h) \<rparr>))"
proof -
  let ?t = "\<lparr> t_host = ''s'', t_port = 80, t_authority = ''s'', request_target = ''/k'', t_tls = False \<rparr>"
  let ?b = "transport_bounds default_knobs"
  have sh: "show_nat n = (if n < 10 then [digit n] else [digit (n div 10), digit (n mod 10)])" if "n < 100" for n
    using that less_mult_imp_div_less [of n 10 10] by (simp add: show_nat.simps)
  have hd: "utf8 (request_head ''PUT'' ?t [] body False) \<noteq> []" "length (utf8 (request_head ''PUT'' ?t [] body False)) \<le> 1000"
    using assms(2) by (simp_all add: request_head_def utf8_def sh)
  have "open_connection (demo_store ?b c) ?t n =
      (Inr \<lparr> incoming = [Got (utf8 demo_ok_head)], outgoing = [Wrote 1000, Wrote 1000], calls = [], written = [] \<rparr>, Suc n)" for n
    by (simp add: open_connection_def demo_store_def prefer_ipv4_def in_turn_def arm_handshake_def arm_read_timeout_def
        arm_write_timeout_def socket_call_def ok_or_def)
  moreover have "fst (request_on \<lparr> incoming = [Got (utf8 demo_ok_head)], outgoing = [Wrote 1000, Wrote 1000], calls = [], written = [] \<rparr>
        ''PUT'' ?t [] body False False) = Inr \<lparr> status = 200, etag = Some ''t'', resp_body = [], reusable = False \<rparr>"
    using hd assms by (simp add: request_on_def in_turn_def arm_read_timeout_def arm_write_timeout_def socket_call_def
        write_all_gap_bounded_def write_loop_once demo_ok_response)
  moreover from this obtain c2 where "request_on \<lparr> incoming = [Got (utf8 demo_ok_head)], outgoing = [Wrote 1000, Wrote 1000], calls = [], written = [] \<rparr>
        ''PUT'' ?t [] body False False = (Inr \<lparr> status = 200, etag = Some ''t'', resp_body = [], reusable = False \<rparr>, c2)"
    by (metis prod.collapse)
  ultimately have "bucket_put (demo_store ?b c) ''http://s/k'' body n =
      (Inr \<lparr> tr_status = 200, tr_etag = Some ''t'', tr_body = [] \<rparr>, Suc n)" for n
    by (simp add: bucket_put_def request_with_pool_def demo_parse_url request_loop.simps finish_request_def)
  then show ?thesis
    by (simp add: put_presigned_def refuse_write_if_read_only_def on_net_def default_knobs_def numeral_eq_Suc
        ok_or_def)
qed

lemma demo_seal_chunk:
  assumes "i < n"
  shows "\<exists>e. seal_chunk demo_lib dek file_id i n p = Inr e \<and> length e = length p + 34"
proof -
  have "n \<noteq> 0" using assms by auto
  with assms have last: "is_last_chunk i n = Inr (i = n - 1)" by (simp add: is_last_chunk_def not_le)
  obtain iv where "multipart_iv demo_lib dek i = Inr iv"
    by (simp add: multipart_iv_def hkdf_sha256_def demo_lib_def)
  moreover obtain c where "seal demo_lib dek iv p (multipart_aad file_id i (i = n - 1)) = Inr c"
    by (simp add: seal_def demo_lib_def)
  ultimately obtain e where "seal_chunk demo_lib dek file_id i n p = Inr e"
    using last by (simp add: seal_chunk_def)
  with chunk_roundtrip [OF demo_lib_correct(2,4) this] show ?thesis by blast
qed

lemma demo_seal:
  assumes "n = 1 \<or> n = 2"
  shows "\<exists>envelope. seal_part demo_job [1, 2, 3] (n, url) = Inr (n, url, envelope) \<and> envelope \<noteq> [] \<and> length envelope \<le> 90"
proof -
  let ?i = "chunk_index_of n"
  have i: "?i < 2" "unat ?i \<le> 1" using assms by (auto simp: chunk_index_of_def)
  let ?p = "take 2 (drop (unat ?i * 2) [1, 2, 3 :: byte])"
  obtain e where e: "seal_chunk demo_lib (replicate 32 7) (replicate 16 1) ?i 2 ?p = Inr e" "length e = length ?p + 34"
    using demo_seal_chunk [OF i(1)] by blast
  have "fill_chunk [Some 1] (drop (unat ?i * 2) [1, 2, 3]) 2 = Inr ?p" using assms by (auto simp: chunk_index_of_def eval_nat_numeral)
  moreover have "e \<noteq> []" "length e \<le> 90" using e(2) by auto
  ultimately show ?thesis using e(1) by (simp add: seal_part_def demo_job_def)
qed

lemma demo_fields: "- (2 ^ 31) \<le> n \<Longrightarrow> n < 2 ^ 31 \<Longrightarrow> part_fields demo_jsons (demo_part n) = Inr (n, ''http://s/k'')"
  by (simp add: part_fields_def demo_part_def demo_jsons_def get_i64_def get_str_def as_i32_def)

lemma demo_upload:
  "\<exists>w. upload_parts demo_jsons demo_job [demo_part 2, demo_part 1] 0 1 (governor_new default_governor_knobs) demo_client
     (Inr [\<lparr> part_number = 1, part_etag = ''t'' \<rparr>, \<lparr> part_number = 2, part_etag = ''t'' \<rparr>], w)"
proof -
  obtain e1 where e1: "seal_part demo_job [1, 2, 3] (1, ''http://s/k'') = Inr (1, ''http://s/k'', e1)" "e1 \<noteq> []" "length e1 \<le> 90"
    using demo_seal [of 1] by blast
  obtain e2 where e2: "seal_part demo_job [1, 2, 3] (2, ''http://s/k'') = Inr (2, ''http://s/k'', e2)" "e2 \<noteq> []" "length e2 \<le> 90"
    using demo_seal [of 2] by blast
  have s: "\<exists>s'. send_one demo_job (n, ''http://s/k'', e) s = (Inr (), s') \<and> READ_ONLY (client s') = READ_ONLY (client s)
      \<and> parts s' = parts s @ [\<lparr> part_number = n, part_etag = ''t'' \<rparr>]"
    if "e \<noteq> []" "length e \<le> 90" "\<not> READ_ONLY (client s)" for n e s
    using demo_put [OF that(1,2)] that(3)
    by (auto simp: send_one_def send_begin_def send_finish_def demo_job_def Let_def)
  let ?s0 = "\<lparr> governor = governor_new default_governor_knobs, parts = [], client = demo_client \<rparr>"
  obtain s1 where s1: "send_one demo_job (2, ''http://s/k'', e2) ?s0 = (Inr (), s1)" "\<not> READ_ONLY (client s1)"
      "parts s1 = [\<lparr> part_number = 2, part_etag = ''t'' \<rparr>]"
    using s [OF e2(2,3), of ?s0 2] by (auto simp: demo_client_def)
  obtain s2 where s2: "send_one demo_job (1, ''http://s/k'', e1) s1 = (Inr (), s2)"
      "parts s2 = [\<lparr> part_number = 2, part_etag = ''t'' \<rparr>, \<lparr> part_number = 1, part_etag = ''t'' \<rparr>]"
    using s [OF e1(2,3) s1(2), of 1] s1(3) by auto
  have "content (u_input demo_job) = Some [1, 2, 3]" by (simp add: demo_job_def)
  then show ?thesis using s1 s2 e1(1) e2(1)
    by (intro exI [of _ s2])
      (simp add: upload_parts_def upload_serially_def demo_fields rbind_def in_turn_def finished_def)
qed

theorem uploaded_parts_are_the_plan_witness:
  "\<exists>plan. planned demo_jsons [demo_part 2, demo_part 1] = Inr plan \<and> [1, 2] = sort (map fst plan) \<and>
     list_all (delivered demo_job plan) [\<lparr> part_number = 1, part_etag = ''t'' \<rparr>, \<lparr> part_number = 2, part_etag = ''t'' \<rparr>]"
proof -
  obtain w where "upload_parts demo_jsons demo_job [demo_part 2, demo_part 1] 0 1 (governor_new default_governor_knobs) demo_client
     (Inr [\<lparr> part_number = 1, part_etag = ''t'' \<rparr>, \<lparr> part_number = 2, part_etag = ''t'' \<rparr>], w)"
    using demo_upload by blast
  from uploaded_parts_are_the_plan [OF this] show ?thesis by simp
qed

theorem fan_out_never_hangs_witness:
  "((\<exists>t. fan_step demo_job 0 [(1, ''u'')] (fan_start 2 \<lparr> governor = governor_new default_governor_knobs, parts = [], client = demo_client \<rparr>
       \<lparr> producer := Preparing [(1, ''u'')] \<rparr>) t)
    \<or> joined (fan_start 2 \<lparr> governor = governor_new default_governor_knobs :: nat TransferGovernor, parts = [], client = demo_client \<rparr>
       \<lparr> producer := Preparing [(1, ''u'')] \<rparr>))
   \<and> 1 \<le> 5 * length [(1 :: int, ''u'')] + 6 + max 2 1"
proof -
  let ?s = "fan_start 2 \<lparr> governor = governor_new default_governor_knobs :: nat TransferGovernor, parts = [], client = demo_client \<rparr>"
  have "fan_step demo_job 0 [(1, ''u'')] ?s (?s\<lparr> producer := Preparing [(1, ''u'')] \<rparr>)"
    by (rule fan_step.open_file [where f = "[1, 2, 3]"]) (simp_all add: fan_start_def demo_job_def)
  then have "(fan_step demo_job 0 [(1, ''u'')] ^^ 1) ?s (?s\<lparr> producer := Preparing [(1, ''u'')] \<rparr>)" unfolding relpowp_1 .
  from fan_out_never_hangs [OF this] show ?thesis .
qed

end
