(* ===== verification/Wrap_Keys.thy ===== *)
theory Wrap_Keys
  imports Key_Wrap Keystore_Labels Json_Values
begin

section \<open>Wrapping keys for people\<close>

text \<open>
  \<^verbatim>\<open>cli/src/hybrid.rs\<close> and the functions of \<^verbatim>\<open>cli/src/commands.rs\<close> that turn a verified key bundle into a wrap and
  unwrap what was wrapped for the caller's keystore. The ML-KEM library is the parameter \<open>encaps\<close>, which takes its
  random input and an encapsulation key to a ciphertext and a secret; the random numbers a wrap draws are an argument
  \<open>draw\<close>, the ephemeral scalar and the input of \<open>encaps\<close>. The conversions between the envelopes and JSON values are
  those that \<^verbatim>\<open>serde\<close> derives for structures that deny unknown fields. The command line is built without the feature
  \<^verbatim>\<open>classical-write\<close>.
\<close>

type_synonym encapsulator = "bytes \<Rightarrow> bytes \<Rightarrow> (bytes \<times> bytes) option"
type_synonym draw = "bytes \<times> bytes"

subsection \<open>Envelopes as JSON\<close>

definition only_fields :: "'j json_lib \<Rightarrow> 'j \<Rightarrow> string list \<Rightarrow> bool" where
  "only_fields J v names =
     (case j_entries J v of None \<Rightarrow> False | Some ps \<Rightarrow> list_all (\<lambda>(k, _). k \<in> set names) ps)"

definition epk_to_value :: "'j json_lib \<Rightarrow> EpkJwk \<Rightarrow> 'j" where
  "epk_to_value J epk = j_object J
     [(''kty'', j_string J (kty epk)), (''crv'', j_string J (crv epk)), (''x'', j_string J (jwk_x epk)), (''y'', j_string J (jwk_y epk))]"

definition epk_from_value :: "'j json_lib \<Rightarrow> 'j \<Rightarrow> EpkJwk option" where
  "epk_from_value J v =
     (if \<not> only_fields J v [''kty'', ''crv'', ''x'', ''y''] then None
      else
        Option.bind (get_str J v ''kty'') (\<lambda>a.
        Option.bind (get_str J v ''crv'') (\<lambda>b.
        Option.bind (get_str J v ''x'') (\<lambda>c.
        Option.bind (get_str J v ''y'') (\<lambda>d.
        Some \<lparr> kty = a, crv = b, jwk_x = c, jwk_y = d \<rparr>)))))"

definition u32_field :: "'j json_lib \<Rightarrow> 'j \<Rightarrow> string \<Rightarrow> u32 option" where
  "u32_field J v name = Option.bind (get_u64 J v name) (\<lambda>n. if n < 2 ^ 32 then Some (of_nat n) else None)"

definition wrap_from_value :: "'j json_lib \<Rightarrow> 'j \<Rightarrow> WrapEnvelope option" where
  "wrap_from_value J v =
     (if \<not> only_fields J v [''v'', ''alg'', ''epk'', ''ct'', ''rfp''] then None
      else
        Option.bind (u32_field J v ''v'') (\<lambda>n.
        Option.bind (get_str J v ''alg'') (\<lambda>a.
        Option.bind (Option.bind (j_get J v ''epk'') (epk_from_value J)) (\<lambda>e.
        Option.bind (get_str J v ''ct'') (\<lambda>c.
        Option.bind (get_str J v ''rfp'') (\<lambda>r.
        Some \<lparr> we_v = n, we_alg = a, we_epk = e, we_ct = c, we_rfp = r \<rparr>))))))"

definition hybrid_from_value :: "'j json_lib \<Rightarrow> 'j \<Rightarrow> HybridWrapEnvelope option" where
  "hybrid_from_value J v =
     (if \<not> only_fields J v [''v'', ''alg'', ''epk'', ''ek'', ''wk'', ''rfp''] then None
      else
        Option.bind (u32_field J v ''v'') (\<lambda>n.
        Option.bind (get_str J v ''alg'') (\<lambda>a.
        Option.bind (Option.bind (j_get J v ''epk'') (epk_from_value J)) (\<lambda>e.
        Option.bind (get_str J v ''ek'') (\<lambda>k.
        Option.bind (get_str J v ''wk'') (\<lambda>w.
        Option.bind (get_str J v ''rfp'') (\<lambda>r.
        Some \<lparr> hw_v = n, hw_alg = a, hw_epk = e, hw_ek = k, hw_wk = w, hw_rfp = r \<rparr>)))))))"

definition hybrid_to_value :: "'j json_lib \<Rightarrow> HybridWrapEnvelope \<Rightarrow> 'j" where
  "hybrid_to_value J env = j_object J
     [(''v'', j_number J (unat (hw_v env))), (''alg'', j_string J (hw_alg env)), (''epk'', epk_to_value J (hw_epk env)),
      (''ek'', j_string J (hw_ek env)), (''wk'', j_string J (hw_wk env)), (''rfp'', j_string J (hw_rfp env))]"

subsection \<open>The hybrid wrap\<close>

definition encapsulate :: "encapsulator \<Rightarrow> bytes \<Rightarrow> bytes \<Rightarrow> (bytes \<times> bytes) cli_result" where
  "encapsulate encaps random rk_pq =
     (if length rk_pq \<noteq> MLKEM1024_EK_LEN then Inl invalid_data
      else ok_or encryption_failed (encaps random rk_pq))"

definition wrap_key_hybrid ::
  "crypto_lib \<Rightarrow> encapsulator \<Rightarrow> draw \<Rightarrow> bytes \<Rightarrow> bytes \<Rightarrow> bytes \<Rightarrow> bytes \<Rightarrow> HybridWrapEnvelope cli_result" where
  "wrap_key_hybrid E encaps draw rk_ec_x963 rk_pq key party_v =
     (let (eph_scalar, random) = draw in
      rbind (map_err (\<lambda>_. encryption_failed) (ecdh_p256 E eph_scalar rk_ec_x963)) (\<lambda>z_ecdh.
      rbind (encapsulate encaps random rk_pq) (\<lambda>(ek, z_mlkem).
      map_err (\<lambda>_. encryption_failed)
        (wrap_from_secrets E z_ecdh z_mlkem (p256_public E eph_scalar) ek rk_ec_x963 rk_pq key party_v))))"

definition unwrap_key_hybrid ::
  "crypto_lib \<Rightarrow> 's keystore \<Rightarrow> 's \<Rightarrow> KeyLabel \<Rightarrow> KeyLabel \<Rightarrow> HybridWrapEnvelope \<Rightarrow> bytes \<Rightarrow> bytes cli_result" where
  "unwrap_key_hybrid E ks s kem_label kem_pq_label envelope party_v =
     rbind (map_err (\<lambda>_. invalid_data) (x963_from_epk E (hw_epk envelope))) (\<lambda>epk.
     rbind (ok_or invalid_data (b64_decode E (hw_ek envelope))) (\<lambda>ek.
     rbind (ks_ecdh ks s kem_label epk) (\<lambda>z_ecdh.
     rbind (ks_ml_kem_decapsulate ks s kem_pq_label ek) (\<lambda>z_mlkem.
     rbind (ks_meta ks s kem_label) (\<lambda>m_ec.
     rbind (ks_meta ks s kem_pq_label) (\<lambda>m_pq.
     lift_crypto (unwrap_with_shared_secrets E z_ecdh z_mlkem envelope (km_public_key m_ec) (km_public_key m_pq) party_v)))))))"

subsection \<open>Unwrapping what is addressed to me\<close>

datatype WrapAlg = Classical | Hybrid

definition wrap_alg_of :: "'j json_lib \<Rightarrow> 'j \<Rightarrow> WrapAlg cli_result" where
  "wrap_alg_of J value =
     (if get_str J value ''alg'' = Some ''ECDH-ES+A256KW'' then Inr Classical
      else if get_str J value ''alg'' = Some ''ECDH-ES+ML-KEM-1024+A256KW'' then Inr Hybrid
      else Inl invalid_data)"

definition kem_pq_sibling :: "KeyLabel \<Rightarrow> KeyLabel cli_result" where
  "kem_pq_sibling kem_label = label_from_handle (label_handle kem_label) KemPq"

text \<open>The classical arm may get stuck in key derivation, which is no result.\<close>

definition unwrap_classical ::
  "crypto_lib \<Rightarrow> 'j json_lib \<Rightarrow> 's keystore \<Rightarrow> 's \<Rightarrow> 'j \<Rightarrow> KeyLabel \<Rightarrow>
     (bytes \<Rightarrow> WrapEnvelope \<Rightarrow> bytes crypto_result option) \<Rightarrow> bytes cli_result option" where
  "unwrap_classical E J ks s value kem_label unwrap =
     (case rbind (ok_or invalid_data (wrap_from_value J value)) (\<lambda>envelope.
           rbind (map_err (\<lambda>_. invalid_data) (x963_from_epk E (we_epk envelope))) (\<lambda>epk.
           rbind (ks_ecdh ks s kem_label epk) (\<lambda>z. Inr (envelope, z)))) of
        Inl e \<Rightarrow> Some (Inl e)
      | Inr (envelope, z) \<Rightarrow> map_option lift_crypto (unwrap z envelope))"

definition unwrap_hybrid ::
  "crypto_lib \<Rightarrow> 'j json_lib \<Rightarrow> 's keystore \<Rightarrow> 's \<Rightarrow> 'j \<Rightarrow> KeyLabel \<Rightarrow> bytes \<Rightarrow> bytes cli_result" where
  "unwrap_hybrid E J ks s value kem_label party_v =
     rbind (ok_or invalid_data (hybrid_from_value J value)) (\<lambda>envelope.
     rbind (kem_pq_sibling kem_label) (\<lambda>kem_pq_label.
     unwrap_key_hybrid E ks s kem_label kem_pq_label envelope party_v))"

definition unwrap_dek_value ::
  "crypto_lib \<Rightarrow> 'j json_lib \<Rightarrow> 's keystore \<Rightarrow> 's \<Rightarrow> 'j \<Rightarrow> KeyLabel \<Rightarrow> bytes cli_result option" where
  "unwrap_dek_value E J ks s value kem_label =
     (case wrap_alg_of J value of
        Inl e \<Rightarrow> Some (Inl e)
      | Inr Classical \<Rightarrow> unwrap_classical E J ks s value kem_label (unwrap_dek_with_shared_secret E)
      | Inr Hybrid \<Rightarrow> Some (unwrap_hybrid E J ks s value kem_label []))"

definition unwrap_metadata_key_envelope ::
  "crypto_lib \<Rightarrow> 'j json_lib \<Rightarrow> 's keystore \<Rightarrow> 's \<Rightarrow> 'j \<Rightarrow> bytes \<Rightarrow> KeyLabel \<Rightarrow> bytes cli_result option" where
  "unwrap_metadata_key_envelope E J ks s value root kem_label =
     (case wrap_alg_of J value of
        Inl e \<Rightarrow> Some (Inl e)
      | Inr Classical \<Rightarrow>
          unwrap_classical E J ks s value kem_label (\<lambda>z env. unwrap_metadata_key_with_shared_secret E z env root)
      | Inr Hybrid \<Rightarrow> Some (unwrap_hybrid E J ks s value kem_label root))"

subsection \<open>Key bundles\<close>

definition verify_recipient_kem_pub :: "crypto_lib \<Rightarrow> 'j json_lib \<Rightarrow> 'j \<Rightarrow> bytes cli_result" where
  "verify_recipient_kem_pub E J value =
     rbind (ok_or invalid_data (get_str J value ''kem_pubkey'')) (\<lambda>kem_b64.
     rbind (ok_or invalid_data (get_str J value ''kem_pubkey_fingerprint'')) (\<lambda>stated_fp.
     rbind (ok_or invalid_data (b64_decode E kem_b64)) (\<lambda>pubkey.
     rbind (map_err (\<lambda>_. invalid_data) (fingerprint E pubkey)) (\<lambda>computed.
     if computed \<noteq> stated_fp then Inl transparency_violation else Inr pubkey))))"

record RecipientWrapKeys =
  rk_ec :: bytes
  rk_pq :: "bytes option"

definition verify_recipient_wrap_keys :: "crypto_lib \<Rightarrow> 'j json_lib \<Rightarrow> 'j \<Rightarrow> RecipientWrapKeys cli_result" where
  "verify_recipient_wrap_keys E J value =
     rbind (verify_recipient_kem_pub E J value) (\<lambda>ec.
     rbind (case (get_str J value ''kem_pq_pubkey'', get_str J value ''kem_pq_pubkey_fingerprint'') of
              (Some k, Some fp) \<Rightarrow>
                rbind (ok_or invalid_data (b64_decode E k)) (\<lambda>ek.
                if length ek \<noteq> MLKEM1024_EK_LEN then Inl invalid_data
                else if fingerprint_raw E ek \<noteq> fp then Inl transparency_violation
                else Inr (Some ek))
            | _ \<Rightarrow> Inl transparency_violation)
       (\<lambda>pq. Inr \<lparr> rk_ec = ec, rk_pq = pq \<rparr>))"

definition self_wrap_keys ::
  "crypto_lib \<Rightarrow> 'j json_lib \<Rightarrow> 's keystore \<Rightarrow> 's \<Rightarrow> 'j \<Rightarrow> KeyLabel \<Rightarrow> RecipientWrapKeys cli_result" where
  "self_wrap_keys E J ks s me kem_label =
     rbind (ks_meta ks s kem_label) (\<lambda>m.
     rbind (case get_str J me ''kem_pq_pubkey'' of
              None \<Rightarrow> Inl transparency_violation
            | Some b64 \<Rightarrow>
                rbind (ok_or invalid_data (b64_decode E b64)) (\<lambda>attested.
                rbind (kem_pq_sibling kem_label) (\<lambda>pq_label.
                rbind (map_err (\<lambda>_. invalid_data) (ks_meta ks s pq_label)) (\<lambda>m_pq.
                if attested \<noteq> km_public_key m_pq then Inl transparency_violation
                else Inr (Some (km_public_key m_pq))))))
       (\<lambda>pq. Inr \<lparr> rk_ec = km_public_key m, rk_pq = pq \<rparr>))"

definition refuse_classical_write :: CliError where "refuse_classical_write = transparency_violation"

definition wrap_dek_for ::
  "crypto_lib \<Rightarrow> 'j json_lib \<Rightarrow> encapsulator \<Rightarrow> draw \<Rightarrow> RecipientWrapKeys \<Rightarrow> bytes \<Rightarrow> 'j cli_result" where
  "wrap_dek_for E J encaps draw keys dek =
     (case rk_pq keys of
        Some pq \<Rightarrow> rbind (wrap_key_hybrid E encaps draw (rk_ec keys) pq dek []) (\<lambda>env. Inr (hybrid_to_value J env))
      | None \<Rightarrow> Inl refuse_classical_write)"

definition wrap_metadata_key_for ::
  "crypto_lib \<Rightarrow> 'j json_lib \<Rightarrow> encapsulator \<Rightarrow> draw \<Rightarrow> RecipientWrapKeys \<Rightarrow> bytes \<Rightarrow> bytes \<Rightarrow> 'j cli_result" where
  "wrap_metadata_key_for E J encaps draw keys metadata_key root =
     (case rk_pq keys of
        Some pq \<Rightarrow> rbind (wrap_key_hybrid E encaps draw (rk_ec keys) pq metadata_key root) (\<lambda>env. Inr (hybrid_to_value J env))
      | None \<Rightarrow> Inl refuse_classical_write)"

definition rewrap_dek_to ::
  "crypto_lib \<Rightarrow> 'j json_lib \<Rightarrow> encapsulator \<Rightarrow> draw \<Rightarrow> 's keystore \<Rightarrow> 's \<Rightarrow> KeyLabel \<Rightarrow> 'j \<Rightarrow> RecipientWrapKeys \<Rightarrow>
     'j cli_result option" where
  "rewrap_dek_to E J encaps draw ks s kem_label envelope recipient =
     map_option (\<lambda>r. rbind r (wrap_dek_for E J encaps draw recipient)) (unwrap_dek_value E J ks s envelope kem_label)"

subsection \<open>JSON round trip\<close>

lemma only_fields_object:
  assumes "json_doc_correct J" "distinct (map fst kvs)" "fst ` set kvs \<subseteq> set names"
  shows "only_fields J (j_object J kvs) names"
proof -
  obtain ps where "j_entries J (j_object J kvs) = Some ps" "mset ps = mset kvs"
    using assms(1,2) unfolding json_doc_correct_def by blast
  moreover from this have "set ps = set kvs" using mset_eq_setD by blast
  ultimately show ?thesis using assms(3) by (auto simp: only_fields_def list_all_iff)
qed

lemma object_get:
  assumes "json_doc_correct J" "distinct (map fst kvs)"
  shows "j_get J (j_object J kvs) k = map_of kvs k"
  using assms by (simp add: json_doc_correct_def json_correct_def)

lemma string_get: "json_doc_correct J \<Longrightarrow> j_str J (j_string J t) = Some t"
  by (simp add: json_doc_correct_def json_correct_def)

lemma epk_value_roundtrip: "json_doc_correct J \<Longrightarrow> epk_from_value J (epk_to_value J epk) = Some epk"
  by (simp add: epk_from_value_def epk_to_value_def only_fields_object get_str_def object_get string_get)

lemma number_field:
  fixes n :: u32
  assumes "json_doc_correct J"
  shows "j_u64 J (j_number J (unat n)) = Some (unat n)"
proof -
  have "unat n < 2 ^ 64" using unsigned_less [of n, where ?'a = nat] by simp
  then show ?thesis using assms by (simp add: json_doc_correct_def)
qed

lemma hybrid_value_roundtrip:
  assumes "json_doc_correct J"
  shows "hybrid_from_value J (hybrid_to_value J env) = Some env"
proof -
  have "unat (hw_v env) < 2 ^ 32" using unsigned_less [of "hw_v env", where ?'a = nat] by simp
  then show ?thesis using assms
    by (simp add: hybrid_from_value_def hybrid_to_value_def only_fields_object get_str_def get_u64_def u32_field_def
        object_get string_get epk_value_roundtrip number_field)
qed

subsection \<open>A wrapped key reaches its recipient\<close>

text \<open>
  \<open>holds\<close>: the keystore's key pair under the label is that of the scalar, its ML-KEM key that of the sibling label, and
  it recovers the secret of every ciphertext made for that key, as ML-KEM promises.
\<close>

definition holds ::
  "crypto_lib \<Rightarrow> encapsulator \<Rightarrow> 's keystore \<Rightarrow> 's \<Rightarrow> KeyLabel \<Rightarrow> bytes \<Rightarrow> bytes \<Rightarrow> bool" where
  "holds E encaps ks s kem_label scalar pq \<longleftrightarrow>
     (\<exists>pq_label. kem_pq_sibling kem_label = Inr pq_label \<and>
        (\<exists>m. ks_meta ks s kem_label = Inr m \<and> km_public_key m = p256_public E scalar) \<and>
        (\<exists>m. ks_meta ks s pq_label = Inr m \<and> km_public_key m = pq) \<and>
        (\<forall>peer. ks_ecdh ks s kem_label peer = lift_crypto (ecdh_p256 E scalar peer)) \<and>
        (\<forall>r ct z. encaps r pq = Some (ct, z) \<longrightarrow> ks_ml_kem_decapsulate ks s pq_label ct = Inr z))"

lemma hybrid_alg: "as_jose HYBRID_ALG = ''ECDH-ES+ML-KEM-1024+A256KW''"
  by (simp add: HYBRID_ALG_def)

lemma wrap_hybrid_envelope:
  assumes "wrap_key_hybrid E encaps draw ec pq key v = Inr env"
  obtains z ct zq where "ecdh_p256 E (fst draw) ec = Inr z" "encaps (snd draw) pq = Some (ct, zq)"
    "wrap_from_secrets E z zq (p256_public E (fst draw)) ct ec pq key v = Inr env"
  using assms by (auto simp: wrap_key_hybrid_def encapsulate_def result_simps split: prod.splits if_splits)

lemma unwrap_hybrid_recovers:
  assumes "b64_correct E" "kw_correct E" "p256_correct E" "json_doc_correct J" "length key = 32"
    and "p256_scalar E (fst draw)" "p256_scalar E scalar" "holds E encaps ks s kem_label scalar pq"
    and "wrap_key_hybrid E encaps draw (p256_public E scalar) pq key v = Inr env"
  shows "unwrap_hybrid E J ks s (hybrid_to_value J env) kem_label v = Inr key"
proof -
  obtain z ct zq where w: "ecdh_p256 E (fst draw) (p256_public E scalar) = Inr z" "encaps (snd draw) pq = Some (ct, zq)"
      "wrap_from_secrets E z zq (p256_public E (fst draw)) ct (p256_public E scalar) pq key v = Inr env"
    using wrap_hybrid_envelope [OF assms(9)] .
  have pub: "p256_decode E (p256_public E (fst draw)) = Some (p256_public E (fst draw))"
    using assms(3,6) by (simp add: p256_correct_def)
  have env: "hw_epk env = epk_jwk E (p256_public E (fst draw))" "hw_ek env = b64_encode E ct"
    using w(3) pub by (auto simp: wrap_from_secrets_def result_simps split: if_splits)
  have "x963_from_epk E (hw_epk env) = Inr (p256_public E (fst draw))"
    using epk_roundtrip [OF assms(1,3) pub] env(1) by simp
  moreover have "ecdh_p256 E scalar (p256_public E (fst draw)) = Inr z"
    using w(1) assms(3,6,7) by (auto simp: p256_correct_def ecdh_p256_def)
  moreover have "unwrap_with_shared_secrets E z zq env (p256_public E scalar) pq v = Inr key"
    using hybrid_recovers [OF assms(1-3,5) w(3)] .
  ultimately show ?thesis using assms(1,8) w(2) env(2) hybrid_value_roundtrip [OF assms(4)]
    by (auto simp: unwrap_hybrid_def unwrap_key_hybrid_def holds_def b64_correct_def)
qed

lemma hybrid_value_alg:
  assumes "json_doc_correct J" "wrap_key_hybrid E encaps draw ec pq key v = Inr env"
  shows "wrap_alg_of J (hybrid_to_value J env) = Inr Hybrid"
proof -
  have "hw_alg env = ''ECDH-ES+ML-KEM-1024+A256KW''"
    using wrap_hybrid_envelope [OF assms(2)] hybrid_alg by (fastforce simp: wrap_from_secrets_def result_simps split: if_splits)
  then show ?thesis using assms(1) by (simp add: wrap_alg_of_def hybrid_to_value_def get_str_def object_get string_get)
qed

text \<open>
  C22: A file key or a folder's metadata key wrapped for a person's verified keys is recovered by that person's keystore, through
  the JSON form it is stored in, and no private key leaves the keystore.\<close>
theorem wrapped_key_reaches_recipient:
  assumes "b64_correct E" "kw_correct E" "p256_correct E" "json_doc_correct J" "length key = 32"
    and "p256_scalar E (fst draw)" "p256_scalar E scalar" "holds E encaps ks s kem_label scalar pq"
    and "keys = \<lparr> rk_ec = p256_public E scalar, rk_pq = Some pq \<rparr>"
  shows "(\<forall>v. wrap_dek_for E J encaps draw keys key = Inr v \<longrightarrow> unwrap_dek_value E J ks s v kem_label = Some (Inr key)) \<and>
    (\<forall>v. wrap_metadata_key_for E J encaps draw keys key root = Inr v \<longrightarrow>
       unwrap_metadata_key_envelope E J ks s v root kem_label = Some (Inr key))"
  using unwrap_hybrid_recovers [OF assms(1-8)] hybrid_value_alg [OF assms(4), of E encaps draw]
  by (auto simp: wrap_dek_for_def wrap_metadata_key_for_def unwrap_dek_value_def unwrap_metadata_key_envelope_def
      result_simps assms(9))

subsection \<open>No downgrade\<close>

text \<open>
  C23: A key is never wrapped classically. The bundle of a recipient is accepted only with both keys, each matching the fingerprint
  stated for it, whichever of the fields the directory strips; and every wrap that is written names the hybrid algorithm.\<close>
theorem no_classical_write:
  assumes "json_doc_correct J'"
  shows "(\<forall>keys. verify_recipient_wrap_keys E J value = Inr keys \<longrightarrow>
      (\<exists>ek fp. rk_pq keys = Some ek \<and> length ek = 1568 \<and> fingerprint E (rk_ec keys) = Inr fp \<and>
         get_str J value ''kem_pubkey_fingerprint'' = Some fp \<and>
         get_str J value ''kem_pq_pubkey_fingerprint'' = Some (fingerprint_raw E ek))) \<and>
    (\<forall>keys dek v. wrap_dek_for E J' encaps draw keys dek = Inr v \<longrightarrow> wrap_alg_of J' v = Inr Hybrid) \<and>
    (\<forall>keys key root v. wrap_metadata_key_for E J' encaps draw keys key root = Inr v \<longrightarrow> wrap_alg_of J' v = Inr Hybrid)"
proof -
  have "\<exists>ek fp. rk_pq keys = Some ek \<and> length ek = 1568 \<and> fingerprint E (rk_ec keys) = Inr fp \<and>
         get_str J value ''kem_pubkey_fingerprint'' = Some fp \<and>
         get_str J value ''kem_pq_pubkey_fingerprint'' = Some (fingerprint_raw E ek)"
    if "verify_recipient_wrap_keys E J value = Inr keys" for keys
    using that by (auto simp: verify_recipient_wrap_keys_def verify_recipient_kem_pub_def result_simps MLKEM1024_EK_LEN_def
        split: option.splits if_splits)
  moreover have "wrap_alg_of J' v = Inr Hybrid" if "wrap_dek_for E J' encaps draw keys dek = Inr v" for keys dek v
    using that hybrid_value_alg [OF assms, of E encaps draw] by (auto simp: wrap_dek_for_def result_simps split: option.splits)
  moreover have "wrap_alg_of J' v = Inr Hybrid"
    if "wrap_metadata_key_for E J' encaps draw keys key root = Inr v" for keys key root v
    using that hybrid_value_alg [OF assms, of E encaps draw] by (auto simp: wrap_metadata_key_for_def result_simps split: option.splits)
  ultimately show ?thesis by blast
qed

subsection \<open>A concrete recipient\<close>

definition demo_holder :: "unit keystore" where
  "demo_holder = \<lparr> ks_tier = Software, ks_generate = (\<lambda>s l a. (Inl generic, s)),
     ks_meta = (\<lambda>s l. Inr \<lparr> km_label = full l, km_purpose = [], km_algorithm = [], km_storage = [], km_fingerprint = [],
       km_public_key = (if label_purpose l = Kem then p256_public demo_lib (replicate 32 5) else replicate 1568 6) \<rparr>),
     ks_sign = (\<lambda>s l m. Inl generic), ks_ecdh = (\<lambda>s l p. lift_crypto (ecdh_p256 demo_lib (replicate 32 5) p)),
     ks_ml_kem_decapsulate = (\<lambda>s l c. Inr (replicate 32 9)), ks_ml_dsa_sign = (\<lambda>s l m c. Inl generic), ks_list = (\<lambda>s. Inr []),
     ks_delete = (\<lambda>s l. (Inl generic, s)), ks_exists = (\<lambda>s l. Inr True) \<rparr>"

definition demo_kem :: KeyLabel where "demo_kem = \<lparr> label_handle = ''amy-ai'', label_purpose = Kem \<rparr>"

definition demo_encaps :: encapsulator where
  "demo_encaps r pq = Some (replicate 1568 4, replicate 32 9)"

lemma demo_holds: "holds demo_lib demo_encaps demo_holder () demo_kem (replicate 32 5) (replicate 1568 6)"
  by (simp add: holds_def kem_pq_sibling_def label_from_handle_def validate_handle_def demo_kem_def demo_holder_def
      demo_encaps_def is_alnum_def strip_suffix_def strip_prefix_def)

lemma demo_wrap:
  "\<exists>env. wrap_key_hybrid demo_lib demo_encaps (replicate 32 1, []) (p256_public demo_lib (replicate 32 5)) (replicate 1568 6)
     (replicate 32 7) v = Inr env" if "v = [] \<or> length v = 16"
proof -
  have "validate_party_v v = Inr ()" using that by (auto simp: validate_party_v_def)
  then show ?thesis
    by (simp add: wrap_key_hybrid_def encapsulate_def demo_encaps_def ecdh_p256_def
        wrap_from_secrets_def validate_recipient_keys_def content_wrap_kek_def
        hkdf_sha256_def keywrap_wrap_def hybrid_rfp_def MLKEM1024_EK_LEN_def MLKEM1024_CT_LEN_def demo_lib_def)
qed

theorem wrapped_key_reaches_recipient_witness:
  "\<exists>v. wrap_dek_for demo_lib (demo_docs DNull []) demo_encaps (replicate 32 1, [])
       \<lparr> rk_ec = p256_public demo_lib (replicate 32 5), rk_pq = Some (replicate 1568 6) \<rparr> (replicate 32 7) = Inr v \<and>
     unwrap_dek_value demo_lib (demo_docs DNull []) demo_holder () v demo_kem = Some (Inr (replicate 32 7))"
proof -
  let ?keys = "\<lparr> rk_ec = p256_public demo_lib (replicate 32 5), rk_pq = Some (replicate 1568 6) \<rparr>"
  obtain v where v: "wrap_dek_for demo_lib (demo_docs DNull []) demo_encaps (replicate 32 1, []) ?keys (replicate 32 7) = Inr v"
    using demo_wrap [of "[]"] by (auto simp: wrap_dek_for_def)
  have s: "p256_scalar demo_lib (fst (replicate 32 1, [] :: bytes))" "p256_scalar demo_lib (replicate 32 5)"
    by (simp_all add: demo_lib_def)
  from wrapped_key_reaches_recipient [OF demo_lib_correct(5,3) demo_p256_correct demo_docs_correct _ s demo_holds refl,
      of "replicate 32 7" DNull "[]" "[]"] v
  show ?thesis by simp
qed

definition demo_bundle :: demo_json where
  "demo_bundle = DObj [(''kem_pubkey'', DStr (of_utf8 (p256_public demo_lib (replicate 32 5)))),
     (''kem_pubkey_fingerprint'', DStr (demo_hex (demo_hash (p256_public demo_lib (replicate 32 5))))),
     (''kem_pq_pubkey'', DStr (of_utf8 (replicate 1568 6))),
     (''kem_pq_pubkey_fingerprint'', DStr (demo_hex (demo_hash (replicate 1568 6))))]"

lemma demo_bundle_verifies:
  "verify_recipient_wrap_keys demo_lib demo_jsons demo_bundle =
     Inr \<lparr> rk_ec = p256_public demo_lib (replicate 32 5), rk_pq = Some (replicate 1568 6) \<rparr>"
proof -
  have "b64_decode demo_lib (of_utf8 x) = Some x" for x by (simp add: demo_lib_def)
  moreover have "fingerprint demo_lib (p256_public demo_lib (replicate 32 5)) = Inr (demo_hex (demo_hash (p256_public demo_lib (replicate 32 5))))"
    by (simp add: fingerprint_def) (simp add: demo_lib_def)
  moreover have "fingerprint_raw demo_lib x = demo_hex (demo_hash x)" for x
    by (simp add: fingerprint_raw_def) (simp add: demo_lib_def)
  ultimately show ?thesis
    by (simp add: verify_recipient_wrap_keys_def verify_recipient_kem_pub_def get_str_def demo_jsons_def demo_bundle_def
        MLKEM1024_EK_LEN_def)
qed

theorem no_classical_write_witness:
  "(\<exists>ek fp. Some (replicate 1568 6) = Some ek \<and> length ek = 1568 \<and>
     fingerprint demo_lib (p256_public demo_lib (replicate 32 5)) = Inr fp \<and>
     get_str demo_jsons demo_bundle ''kem_pubkey_fingerprint'' = Some fp \<and>
     get_str demo_jsons demo_bundle ''kem_pq_pubkey_fingerprint'' = Some (fingerprint_raw demo_lib ek))"
proof -
  note t = no_classical_write [OF demo_docs_correct [of DNull "[]"], of demo_lib demo_jsons demo_bundle demo_encaps "([], [])",
      THEN conjunct1, rule_format, OF demo_bundle_verifies]
  show ?thesis using t by simp
qed

end
