(* ===== verification/Download.thy ===== *)
theory Download
  imports Session Upload_Parts Wrap_Keys
begin

section \<open>Downloading a file\<close>

text \<open>
  \<^verbatim>\<open>download\<close> of \<^verbatim>\<open>cli/src/commands.rs\<close> and its helpers: the chunks of a file are fetched by several threads,
  opened, and written at their places in a temporary file that gets the requested name only when it is complete. The
  threads of one generation, the refreshed URL between generations and the end of the loop are the steps of a relation;
  the file's identifier is given (a path is resolved elsewhere).
\<close>

subsection \<open>Ranges and knobs\<close>

definition chunk_ranges :: "u32 \<Rightarrow> u64 \<Rightarrow> u64 \<Rightarrow> (u64 \<times> u64) list" where
  "chunk_ranges multipart_chunks chunk_size size_bytes =
     (let on_disk = chunk_size + of_nat CHUNK_OVERHEAD;
          last_byte = (if size_bytes = 0 then 0 else size_bytes - 1)
      in map (\<lambda>i.
           let start = of_nat i * on_disk
           in (start, if i < unat multipart_chunks - 1 then start + on_disk - 1 else last_byte))
         [0..<unat multipart_chunks])"

definition PRESIGNED_STALE_REFRESH_BUDGET :: nat where "PRESIGNED_STALE_REFRESH_BUDGET = 3"

definition presigned_refresh_decision :: "bool \<Rightarrow> nat \<Rightarrow> bool \<times> nat" where
  "presigned_refresh_decision progressed stale_refreshes =
     (if progressed then (True, 0)
      else (stale_refreshes + 1 < PRESIGNED_STALE_REFRESH_BUDGET, stale_refreshes + 1))"

definition CLI_MAX_DOWNLOAD_CONCURRENCY :: int where "CLI_MAX_DOWNLOAD_CONCURRENCY = 8"

definition download_concurrency :: "int option \<Rightarrow> nat" where
  "download_concurrency served =
     nat (max 1 (clamp 1 CLI_MAX_DOWNLOAD_CONCURRENCY (case served of Some n \<Rightarrow> n | None \<Rightarrow> 1)))"

subsection \<open>The temporary file\<close>

text \<open>A path is the list of its components, as \<^verbatim>\<open>std::path\<close> reads it.\<close>

datatype component = RootDir | CurDir | ParentDir | Normal string

type_synonym path = "component list"

definition file_name :: "path \<Rightarrow> string option" where
  "file_name p = (if p = [] then None else case last p of Normal n \<Rightarrow> Some n | _ \<Rightarrow> None)"

definition with_file_name :: "path \<Rightarrow> string \<Rightarrow> path" where
  "with_file_name p n = (if file_name p = None then p else butlast p) @ [Normal n]"

definition download_temp_path :: "path \<Rightarrow> path" where
  "download_temp_path out_path =
     with_file_name out_path ((case file_name out_path of Some n \<Rightarrow> n | None \<Rightarrow> []) @ ''.part'')"

text \<open>
  A positioned write past the end of a file fills the gap with zeros; an empty buffer is not written at all.
\<close>

definition write_plaintext_at :: "bytes \<Rightarrow> bytes \<Rightarrow> nat \<Rightarrow> bytes" where
  "write_plaintext_at file buf offset =
     (if buf = [] then file
      else take offset (file @ replicate (offset - length file) 0) @ buf @ drop (offset + length buf) file)"

subsection \<open>The generations of the download\<close>

text \<open>
  A worker is about to look at the abort flag, about to take the next item of the plan, fetching and opening a chunk,
  writing its plaintext, recording its success, recording an error, or gone. The main thread is about to start a
  generation, waits for its workers, or has the result of the loop.
\<close>

datatype dl_worker =
    Checking
  | Taking
  | Fetching nat "u64 \<times> u64"
  | Writing nat bytes
  | Recording nat nat
  | Failing CliError
  | Gone

datatype dl_phase = Ready | Running | Finished "u64 cli_result"

record ('w, 'j, 's) dl_job =
  j_session :: "('w, 'j, 's) session"
  j_transport :: "'w transport"
  j_dek :: bytes
  j_file_id :: bytes
  j_file_name :: string
  j_chunk_count :: u32
  j_ranges :: "(u64 \<times> u64) list"
  j_stride :: u64
  j_n :: nat

record 'w dl =
  d_phase :: dl_phase
  d_url :: string
  d_pending :: "(nat \<times> u64 \<times> u64) list"
  d_cursor :: nat
  d_abort :: bool
  d_first_err :: "CliError option"
  d_workers :: "dl_worker list"
  d_pool :: "DownloadPool option"
  d_completed :: "bool list"
  d_done :: nat
  d_done_before :: nat
  d_written :: u64
  d_stale :: nat
  d_file :: bytes
  d_http :: "'w http"

definition dl_pending :: "('w, 'j, 's) dl_job \<Rightarrow> 'w dl \<Rightarrow> (nat \<times> u64 \<times> u64) list" where
  "dl_pending job s = filter (\<lambda>(i, _). \<not> d_completed s ! i) (enumerate 0 (j_ranges job))"

definition start_generation :: "('w, 'j, 's) dl_job \<Rightarrow> 'w dl \<Rightarrow> 'w dl" where
  "start_generation job s =
     s\<lparr> d_phase := Running, d_pending := dl_pending job s, d_cursor := 0, d_abort := False, d_first_err := None,
        d_workers := replicate (max 1 (min (j_n job) (length (dl_pending job s)))) Checking,
        d_pool := (if 1 < j_n job then Some [] else None), d_done_before := d_done s \<rparr>"

definition fetch_chunk ::
  "('w, 'j, 's) dl_job \<Rightarrow> string \<Rightarrow> nat \<Rightarrow> u64 \<times> u64 \<Rightarrow> DownloadPool option \<Rightarrow> 'w http \<Rightarrow>
     bytes cli_result \<times> DownloadPool option \<times> 'w http" where
  "fetch_chunk job url index = (\<lambda>(start, stop) pool h.
     let (r, pool', w) =
       (case pool of
          Some p \<Rightarrow> get_presigned_range_pooled (j_transport job) p url (unat start) (unat stop) (net h)
        | None \<Rightarrow> (let (r, w) = get_presigned_range (j_transport job) url (unat start) (unat stop) (net h) in (r, None, w)))
     in (rbind r (\<lambda>envelope.
           lift_crypto (open_chunk (ss_lib (j_session job)) (j_dek job) (j_file_id job) (of_nat index) (j_chunk_count job) envelope)),
         pool', h\<lparr> net := w \<rparr>))"

definition chunk_offset :: "('w, 'j, 's) dl_job \<Rightarrow> nat \<Rightarrow> nat" where
  "chunk_offset job index = unat (of_nat index * j_stride job)"

definition fresh_url :: "('w, 'j, 's) dl_job \<Rightarrow> 'w http \<Rightarrow> string cli_result \<times> 'w http" where
  "fresh_url job h =
     (let (r, h') = api_get (j_session job) (''/v1/files/'' @ j_file_name job @ ''/download-url'') h
      in (rbind r (\<lambda>du. ok_or invalid_data (get_str (ss_json (j_session job)) du ''download_url'')), h'))"

text \<open>What the main thread does once the workers of a generation have returned.\<close>

definition end_generation :: "('w, 'j, 's) dl_job \<Rightarrow> 'w dl \<Rightarrow> 'w dl" where
  "end_generation job s =
     (case d_first_err s of
        None \<Rightarrow> s\<lparr> d_phase := Ready \<rparr>
      | Some e \<Rightarrow>
          (if code e \<noteq> ''presigned_rejected'' then s\<lparr> d_phase := Finished (Inl e) \<rparr>
           else
             let (again, stale) = presigned_refresh_decision (d_done_before s < d_done s) (d_stale s)
             in if \<not> again then s\<lparr> d_phase := Finished (Inl network), d_stale := stale \<rparr>
                else
                  case fresh_url job (d_http s) of
                    (Inl e', h) \<Rightarrow> s\<lparr> d_phase := Finished (Inl e'), d_stale := stale, d_http := h \<rparr>
                  | (Inr url, h) \<Rightarrow> s\<lparr> d_phase := Ready, d_stale := stale, d_http := h, d_url := url \<rparr>))"

definition end_loop :: "('w, 'j, 's) dl_job \<Rightarrow> 'w dl \<Rightarrow> 'w dl" where
  "end_loop job s =
     s\<lparr> d_phase := Finished (if d_done s \<noteq> length (j_ranges job) then Inl invalid_data else Inr (d_written s)) \<rparr>"

definition dl_set :: "nat \<Rightarrow> dl_worker \<Rightarrow> 'w dl \<Rightarrow> 'w dl" where
  "dl_set i x s = s\<lparr> d_workers := (d_workers s)[i := x] \<rparr>"

definition at_worker :: "nat \<Rightarrow> dl_worker \<Rightarrow> 'w dl \<Rightarrow> bool" where
  "at_worker i x s \<longleftrightarrow> d_phase s = Running \<and> i < length (d_workers s) \<and> d_workers s ! i = x"

text \<open>
  A write may fail after a part of the buffer, and a worker may panic while it fetches or writes; both end the same way.
\<close>

inductive dl_step :: "('w, 'j, 's) dl_job \<Rightarrow> 'w dl \<Rightarrow> 'w dl \<Rightarrow> bool" for job :: "('w, 'j, 's) dl_job" where
  generation: "\<lbrakk> d_phase s = Ready; dl_pending job s \<noteq> [] \<rbrakk> \<Longrightarrow> dl_step job s (start_generation job s)"
| complete: "\<lbrakk> d_phase s = Ready; dl_pending job s = [] \<rbrakk> \<Longrightarrow> dl_step job s (end_loop job s)"
| aborted: "\<lbrakk> at_worker i Checking s; d_abort s \<rbrakk> \<Longrightarrow> dl_step job s (dl_set i Gone s)"
| go_on: "\<lbrakk> at_worker i Checking s; \<not> d_abort s \<rbrakk> \<Longrightarrow> dl_step job s (dl_set i Taking s)"
| take_item: "\<lbrakk> at_worker i Taking s; d_cursor s < length (d_pending s); d_pending s ! d_cursor s = (index, extent) \<rbrakk> \<Longrightarrow>
    dl_step job s (dl_set i (Fetching index extent) (s\<lparr> d_cursor := d_cursor s + 1 \<rparr>))"
| no_item: "\<lbrakk> at_worker i Taking s; \<not> d_cursor s < length (d_pending s) \<rbrakk> \<Longrightarrow>
    dl_step job s (dl_set i Gone (s\<lparr> d_cursor := d_cursor s + 1 \<rparr>))"
| fetched: "\<lbrakk> at_worker i (Fetching index extent) s;
      fetch_chunk job (d_url s) index extent (d_pool s) (d_http s) = (Inr plaintext, pool, h) \<rbrakk> \<Longrightarrow>
    dl_step job s (dl_set i (Writing index plaintext) (s\<lparr> d_pool := pool, d_http := h \<rparr>))"
| fetch_failed: "\<lbrakk> at_worker i (Fetching index extent) s;
      fetch_chunk job (d_url s) index extent (d_pool s) (d_http s) = (Inl e, pool, h) \<rbrakk> \<Longrightarrow>
    dl_step job s (dl_set i (Failing e) (s\<lparr> d_pool := pool, d_http := h \<rparr>))"
| fetch_panicked: "at_worker i (Fetching index extent) s \<Longrightarrow> dl_step job s (dl_set i (Failing invalid_data) s)"
| wrote: "at_worker i (Writing index plaintext) s \<Longrightarrow>
    dl_step job s (dl_set i (Recording index (length plaintext))
      (s\<lparr> d_file := write_plaintext_at (d_file s) plaintext (chunk_offset job index) \<rparr>))"
| write_failed: "\<lbrakk> at_worker i (Writing index plaintext) s; e = output_write \<or> e = invalid_data \<rbrakk> \<Longrightarrow>
    dl_step job s (dl_set i (Failing e)
      (s\<lparr> d_file := write_plaintext_at (d_file s) (take k plaintext) (chunk_offset job index) \<rparr>))"
| recorded: "at_worker i (Recording index len) s \<Longrightarrow>
    dl_step job s (dl_set i Checking
      (s\<lparr> d_completed := (d_completed s)[index := True], d_written := d_written s + of_nat len, d_done := d_done s + 1 \<rparr>))"
| failed: "at_worker i (Failing e) s \<Longrightarrow>
    dl_step job s (dl_set i Gone
      (s\<lparr> d_first_err := (case d_first_err s of None \<Rightarrow> Some e | Some e0 \<Rightarrow> Some e0), d_abort := True \<rparr>))"
| join: "\<lbrakk> d_phase s = Running; list_all (\<lambda>x. x = Gone) (d_workers s) \<rbrakk> \<Longrightarrow> dl_step job s (end_generation job s)"

definition dl_start :: "('w, 'j, 's) dl_job \<Rightarrow> string \<Rightarrow> 'w http \<Rightarrow> 'w dl" where
  "dl_start job download_url h =
     \<lparr> d_phase = Ready, d_url = download_url, d_pending = [], d_cursor = 0, d_abort = False, d_first_err = None, d_workers = [],
       d_pool = None, d_completed = replicate (length (j_ranges job)) False, d_done = 0, d_done_before = 0, d_written = 0,
       d_stale = 0, d_file = [], d_http = h \<rparr>"

text \<open>
  What the response with the URL says of the file: the URL, and the job when it carries the metadata of the chunks. Conversions
  to unsigned integers truncate.
\<close>

definition dl_plan ::
  "('w, 'j, 's) session \<Rightarrow> 'w transport \<Rightarrow> bytes \<Rightarrow> bytes \<Rightarrow> string \<Rightarrow> 'j \<Rightarrow> (string \<times> ('w, 'j, 's) dl_job option) cli_result" where
  "dl_plan ss S dek file_id name du =
     rbind (ok_or invalid_data (get_str (ss_json ss) du ''download_url'')) (\<lambda>download_url.
     rbind (ok_or invalid_data (get_i64 (ss_json ss) du ''size_bytes'')) (\<lambda>size.
     Inr (download_url,
       case (get_i64 (ss_json ss) du ''multipart_chunks'', get_i64 (ss_json ss) du ''chunk_size'') of
         (Some chunks, Some csize) \<Rightarrow>
           (let chunk_count = of_int (max 0 chunks); stride = of_int (max 0 csize) in
            Some \<lparr> j_session = ss, j_transport = S, j_dek = dek, j_file_id = file_id, j_file_name = name,
                   j_chunk_count = chunk_count, j_ranges = chunk_ranges chunk_count stride (of_int (max 0 size)),
                   j_stride = stride, j_n = download_concurrency (get_i64 (ss_json ss) du ''concurrency'') \<rparr>)
       | _ \<Rightarrow> None)))"

text \<open>
  The files a command sees, and the outcomes of writing to the temporary file and renaming it. The guard removes the temporary
  file on every way out but a successful renaming.
\<close>

type_synonym fs = "path \<Rightarrow> bytes option"

definition download_to ::
  "('w, 'j, 's) dl_job option \<Rightarrow> string \<Rightarrow> path \<Rightarrow> fs \<Rightarrow> 'w http \<Rightarrow> u64 cli_result \<times> fs \<times> 'w http \<Rightarrow> bool" where
  "download_to plan download_url out_path files h outcome \<longleftrightarrow>
     (let dropped = files(download_temp_path out_path := None) in
      outcome = (Inl output_write, files, h) \<or>
      (case plan of
         None \<Rightarrow> outcome = (Inl invalid_data, dropped, h)
       | Some job \<Rightarrow>
           \<exists>s r. (dl_step job)\<^sup>*\<^sup>* (dl_start job download_url h) s \<and> d_phase s = Finished r \<and>
             (case r of
                Inl e \<Rightarrow> outcome = (Inl e, dropped, d_http s)
              | Inr n \<Rightarrow>
                  outcome = (Inr n, dropped(out_path := Some (d_file s)), d_http s) \<or>
                  outcome = (Inl output_write, dropped, d_http s))))"

definition dl_key :: "('w, 'j, 's) session \<Rightarrow> string \<Rightarrow> 'w http \<Rightarrow> bytes cli_result option \<times> 'w http" where
  "dl_key ss name h =
     (let (wd, h') = api_get ss (''/v1/files/'' @ name @ ''/wrapped-dek'') h in
      (case rbind wd (\<lambda>wd. ok_or invalid_data (j_get (ss_json ss) wd ''wrapped_dek'')) of
         Inl e \<Rightarrow> Some (Inl e)
       | Inr wrapped_dek \<Rightarrow>
           unwrap_dek_value (ss_lib ss) (ss_json ss) (ss_keystore ss) (ss_keys ss) wrapped_dek (ss_kem ss), h'))"

definition dl_target ::
  "('w, 'j, 's) session \<Rightarrow> 'w transport \<Rightarrow> bytes \<Rightarrow> bytes \<Rightarrow> string \<Rightarrow> 'w http \<Rightarrow>
     (string \<times> ('w, 'j, 's) dl_job option) cli_result \<times> 'w http" where
  "dl_target ss S dek file_id name h =
     (let (du, h') = api_get ss (''/v1/files/'' @ name @ ''/download-url'') h in (rbind du (dl_plan ss S dek file_id name), h'))"

definition download ::
  "('w, 'j, 's) session \<Rightarrow> 'w transport \<Rightarrow> bytes \<Rightarrow> string \<Rightarrow> path \<Rightarrow> fs \<Rightarrow> 'w http \<Rightarrow> u64 cli_result \<times> fs \<times> 'w http \<Rightarrow> bool" where
  "download ss S file_id name out_path files h outcome \<longleftrightarrow>
     (case dl_key ss name h of
        (None, _) \<Rightarrow> False
      | (Some (Inl e), h1) \<Rightarrow> outcome = (Inl e, files, h1)
      | (Some (Inr dek), h1) \<Rightarrow>
          (case dl_target ss S dek file_id name h1 of
             (Inl e, h2) \<Rightarrow> outcome = (Inl e, files, h2)
           | (Inr (download_url, plan), h2) \<Rightarrow> download_to plan download_url out_path files h2 outcome))"

subsection \<open>Who works on which chunk\<close>

text \<open>
  \<open>dl_owned\<close> is the chunks the workers of a generation hold or have still to take; unless one of them fails these are, each
  once, the chunks that are not completed.
\<close>

fun dl_busy :: "dl_worker \<Rightarrow> nat multiset" where
  "dl_busy (Fetching i _) = {#i#}"
| "dl_busy (Writing i _) = {#i#}"
| "dl_busy (Recording i _) = {#i#}"
| "dl_busy _ = {#}"

definition dl_owned :: "'w dl \<Rightarrow> nat multiset" where
  "dl_owned s = sum_list (map dl_busy (d_workers s)) + mset (map fst (drop (d_cursor s) (d_pending s)))"

definition dl_todo :: "'w dl \<Rightarrow> nat \<Rightarrow> nat" where
  "dl_todo s i = (if i < length (d_completed s) \<and> \<not> d_completed s ! i then 1 else 0)"

definition dl_failing :: "'w dl \<Rightarrow> bool" where
  "dl_failing s \<longleftrightarrow> d_first_err s \<noteq> None \<or> (\<exists>e. Failing e \<in> set (d_workers s))"

definition dl_ok :: "('w, 'j, 's) dl_job \<Rightarrow> 'w dl \<Rightarrow> bool" where
  "dl_ok job s \<longleftrightarrow>
     length (d_completed s) = length (j_ranges job) \<and> d_done s = length (filter id (d_completed s)) \<and>
     (d_phase s = Running \<longrightarrow>
        d_workers s \<noteq> [] \<and> (d_abort s \<longrightarrow> d_first_err s \<noteq> None) \<and>
        (Gone \<in> set (d_workers s) \<and> \<not> d_abort s \<longrightarrow> length (d_pending s) \<le> d_cursor s) \<and>
        (\<forall>i. count (dl_owned s) i \<le> dl_todo s i) \<and> (dl_failing s \<or> (\<forall>i. count (dl_owned s) i = dl_todo s i)))"

lemma dl_set_sel [simp]:
  "d_phase (dl_set i x s) = d_phase s" "d_url (dl_set i x s) = d_url s" "d_pending (dl_set i x s) = d_pending s"
  "d_cursor (dl_set i x s) = d_cursor s" "d_abort (dl_set i x s) = d_abort s" "d_first_err (dl_set i x s) = d_first_err s"
  "d_workers (dl_set i x s) = (d_workers s)[i := x]" "d_pool (dl_set i x s) = d_pool s"
  "d_completed (dl_set i x s) = d_completed s" "d_done (dl_set i x s) = d_done s" "d_done_before (dl_set i x s) = d_done_before s"
  "d_written (dl_set i x s) = d_written s" "d_stale (dl_set i x s) = d_stale s" "d_file (dl_set i x s) = d_file s"
  "d_http (dl_set i x s) = d_http s"
  by (simp_all add: dl_set_def)

lemma pending_indices:
  "map fst (filter (\<lambda>(i, _). P i) (enumerate n xs)) = filter P [n..<n + length xs]"
proof (induction xs arbitrary: n)
  case (Cons x xs)
  have "[n..<n + length (x # xs)] = n # [Suc n..<Suc n + length xs]" by (simp add: upt_rec)
  then show ?case using Cons [of "Suc n"] by simp
qed simp

lemma dl_pending_fst: "map fst (dl_pending job s) = filter (\<lambda>i. \<not> d_completed s ! i) [0..<length (j_ranges job)]"
  using pending_indices [of "\<lambda>i. \<not> d_completed s ! i" 0] by (simp add: dl_pending_def)

lemma count_filter_upt: "count (mset (filter P [0..<n])) i = (if i < n \<and> P i then 1 else 0)"
proof -
  have "count (mset (filter P [0..<n])) i = (if i \<in> set (filter P [0..<n]) then 1 else 0)"
    using distinct_count_atmost_1 [of "filter P [0..<n]"] by simp
  then show ?thesis by simp
qed

lemma smaller_part: "a + x = b + y \<Longrightarrow> y \<subseteq># x \<Longrightarrow> a \<subseteq># b" for a b x y :: "'a multiset"
proof -
  assume eq: "a + x = b + y" and "y \<subseteq># x"
  then obtain c where "x = y + c" by (blast dest: mset_subset_eq_exists_conv [THEN iffD1])
  with eq have "b = a + c" by (simp add: add.assoc add.commute add.left_commute)
  then show ?thesis by simp
qed

lemma no_busy [simp]: "sum_list (replicate n {#}) = {#}"
  by (induction n) simp_all

lemma owned_move:
  assumes "at_worker i x s" "d_workers t = (d_workers s)[i := y]" "d_pending t = d_pending s"
  shows "dl_owned t + (dl_busy x + mset (map fst (drop (d_cursor s) (d_pending s)))) =
    dl_owned s + (dl_busy y + mset (map fst (drop (d_cursor t) (d_pending s))))"
  using sum_list_set [of i "d_workers s" dl_busy y] assms by (simp add: dl_owned_def at_worker_def ac_simps)

lemma failing_move:
  assumes "dl_failing s" "at_worker i x s" "\<And>e. x \<noteq> Failing e" "d_workers t = (d_workers s)[i := y]" "d_first_err t = d_first_err s"
  shows "dl_failing t"
proof (cases "d_first_err s")
  case None
  then obtain e k where k: "k < length (d_workers s)" "d_workers s ! k = Failing e"
    using assms(1) by (auto simp: dl_failing_def in_set_conv_nth)
  with assms(2,3) have "k \<noteq> i" by (auto simp: at_worker_def)
  with k assms(4) have "d_workers t ! k = Failing e" "k < length (d_workers t)" by simp_all
  then have "Failing e \<in> set (d_workers t)" by (metis nth_mem)
  then show ?thesis by (auto simp: dl_failing_def)
qed (use assms(5) in \<open>simp add: dl_failing_def\<close>)

lemma dl_ok_move:
  assumes ok: "dl_ok job s" and at: "at_worker i x s"
    and t: "d_phase t = Running" "d_workers t = (d_workers s)[i := y]" "d_pending t = d_pending s"
      "d_completed t = d_completed s" "d_done t = d_done s"
    and ab: "d_abort t \<Longrightarrow> d_first_err t \<noteq> None" "d_abort s \<Longrightarrow> d_abort t" "d_cursor s \<le> d_cursor t"
      "\<lbrakk> y = Gone; \<not> d_abort t \<rbrakk> \<Longrightarrow> length (d_pending s) \<le> d_cursor t"
    and less: "dl_busy y + mset (map fst (drop (d_cursor t) (d_pending s)))
      \<subseteq># dl_busy x + mset (map fst (drop (d_cursor s) (d_pending s)))"
    and equal: "\<not> dl_failing t \<Longrightarrow> \<not> dl_failing s \<and> dl_busy y + mset (map fst (drop (d_cursor t) (d_pending s)))
      = dl_busy x + mset (map fst (drop (d_cursor s) (d_pending s)))"
  shows "dl_ok job t"
proof -
  note owned = owned_move [OF at t(2,3)]
  have run: "d_phase s = Running" using at by (simp add: at_worker_def)
  have todo: "dl_todo t = dl_todo s" by (simp add: dl_todo_def t fun_eq_iff)
  have "dl_owned t \<subseteq># dl_owned s"
    using owned less by (rule smaller_part)
  then have le: "count (dl_owned t) k \<le> dl_todo t k" for k
    using ok run by (auto simp: dl_ok_def todo dest!: mset_subset_eq_count [of _ _ k] intro: le_trans)
  have eq: "count (dl_owned t) k = dl_todo t k" if "\<not> dl_failing t" for k
  proof -
    from equal [OF that] owned have "dl_owned t = dl_owned s" by simp
    with ok run equal [OF that] show ?thesis by (simp add: dl_ok_def todo)
  qed
  have "Gone \<in> set (d_workers t) \<Longrightarrow> \<not> d_abort t \<Longrightarrow> length (d_pending t) \<le> d_cursor t"
    using ok run ab(2,3,4) by (auto simp: dl_ok_def t dest!: set_updateD intro: le_trans)
  then show ?thesis using ok run le eq ab(1) by (auto simp: dl_ok_def t)
qed

lemma count_completed: "\<lbrakk> i < length xs; \<not> xs ! i \<rbrakk> \<Longrightarrow> length (filter id (xs[i := True])) = Suc (length (filter id xs))"
  by (induction xs arbitrary: i) (auto split: nat.splits)

lemma recorded_todo:
  assumes "dl_ok job s" "at_worker i (Recording index len) s"
  shows "index < length (d_completed s) \<and> \<not> d_completed s ! index"
proof -
  have "dl_owned s = add_mset index (dl_owned (dl_set i Checking s))"
    using owned_move [OF assms(2), of "dl_set i Checking s" Checking] by simp
  then have "0 < count (dl_owned s) index" by simp
  moreover have "count (dl_owned s) index \<le> dl_todo s index" using assms by (simp add: dl_ok_def at_worker_def)
  ultimately have "0 < dl_todo s index" by linarith
  then show ?thesis by (auto simp: dl_todo_def split: if_splits)
qed

lemma dl_ok_recorded:
  assumes ok: "dl_ok job s" and at: "at_worker i (Recording index len) s"
  shows "dl_ok job (dl_set i Checking
      (s\<lparr> d_completed := (d_completed s)[index := True], d_written := d_written s + of_nat len, d_done := d_done s + 1 \<rparr>))"
    (is "dl_ok job ?t")
proof -
  have run: "d_phase s = Running" using at by (simp add: at_worker_def)
  have le: "count (dl_owned s) k \<le> dl_todo s k" and eq: "\<not> dl_failing s \<Longrightarrow> count (dl_owned s) k = dl_todo s k" for k
    using ok run by (auto simp only: dl_ok_def)
  have owned: "dl_owned s = add_mset index (dl_owned ?t)" using owned_move [OF at, of ?t Checking] by simp
  then have own: "count (dl_owned s) k = (if k = index then Suc (count (dl_owned ?t) k) else count (dl_owned ?t) k)" for k
    by simp
  note index = recorded_todo [OF ok at]
  then have one: "dl_todo s index = 1" by (simp add: dl_todo_def)
  have todo: "dl_todo ?t k = (if k = index then 0 else dl_todo s k)" for k using index by (auto simp: dl_todo_def nth_list_update)
  have "count (dl_owned ?t) k \<le> dl_todo ?t k" for k
    unfolding todo using le [of k] own [of k] one by (simp split: if_splits)
  moreover have "count (dl_owned ?t) k = dl_todo ?t k" if "\<not> dl_failing s" for k
    unfolding todo using eq [OF that, of k] own [of k] one by (simp split: if_splits)
  moreover have "dl_failing ?t" if "dl_failing s" by (rule failing_move [OF that at]) simp_all
  moreover have "Gone \<in> set ((d_workers s)[i := Checking]) \<Longrightarrow> Gone \<in> set (d_workers s)" by (auto dest: set_updateD)
  moreover have "d_done ?t = length (filter id (d_completed ?t))" using ok index by (simp add: dl_ok_def count_completed)
  ultimately show ?thesis using ok run unfolding dl_ok_def by (simp) blast
qed

lemma dl_ok_start: "dl_ok job s \<Longrightarrow> dl_ok job (start_generation job s)"
proof -
  assume ok: "dl_ok job s"
  have "count (dl_owned (start_generation job s)) i = dl_todo (start_generation job s) i" for i
    using ok by (simp add: dl_owned_def start_generation_def sum_list_replicate dl_pending_fst count_filter_upt dl_todo_def
        dl_ok_def flip: mset_map)
  then show ?thesis using ok by (auto simp: dl_ok_def start_generation_def)
qed

lemma dl_ok_keep:
  assumes ok: "dl_ok job s" and at: "at_worker i x s" and x: "\<And>e. x \<noteq> Failing e"
    and t: "d_phase t = d_phase s" "d_workers t = (d_workers s)[i := y]" "d_pending t = d_pending s" "d_completed t = d_completed s"
      "d_done t = d_done s" "d_cursor t = d_cursor s" "d_abort t = d_abort s" "d_first_err t = d_first_err s"
    and y: "dl_busy y = dl_busy x \<or> (\<exists>e. y = Failing e)" "y \<noteq> Gone"
  shows "dl_ok job t"
proof (rule dl_ok_move [OF ok at _ t(2,3,4,5)])
  show run: "d_phase t = Running" using at t(1) by (simp add: at_worker_def)
  show "d_abort t \<Longrightarrow> d_first_err t \<noteq> None" using ok run t by (simp add: dl_ok_def)
  show "dl_busy y + mset (map fst (drop (d_cursor t) (d_pending s))) \<subseteq># dl_busy x + mset (map fst (drop (d_cursor s) (d_pending s)))"
    using y t by auto
  assume calm: "\<not> dl_failing t"
  have "y \<in> set (d_workers t)" using at t(2) by (auto simp: at_worker_def intro: set_update_memI)
  with calm y have "dl_busy y = dl_busy x" by (auto simp: dl_failing_def)
  with failing_move [OF _ at x t(2,8)] calm t
  show "\<not> dl_failing s \<and> dl_busy y + mset (map fst (drop (d_cursor t) (d_pending s))) = dl_busy x + mset (map fst (drop (d_cursor s) (d_pending s)))"
    by auto
qed (use y t in auto)

lemma dl_ok_end: "dl_ok job s \<Longrightarrow> dl_ok job (end_generation job s)"
  by (auto simp: dl_ok_def end_generation_def presigned_refresh_decision_def Let_def split: option.splits prod.splits sum.splits)

lemma dl_ok_end_loop: "dl_ok job s \<Longrightarrow> dl_ok job (end_loop job s)"
  by (simp add: dl_ok_def end_loop_def)

lemma dl_ok_begin: "dl_ok job (dl_start job url h)"
  by (simp add: dl_ok_def dl_start_def)

lemma dl_ok_gone:
  assumes ok: "dl_ok job s" and at: "at_worker i x s" and x: "dl_busy x = {#}" "\<And>e. x \<noteq> Failing e"
    and t: "d_phase t = d_phase s" "d_workers t = (d_workers s)[i := Gone]" "d_pending t = d_pending s" "d_completed t = d_completed s"
      "d_done t = d_done s" "d_cursor s \<le> d_cursor t" "d_abort t = d_abort s" "d_first_err t = d_first_err s"
    and last_one: "d_abort s \<and> d_cursor t = d_cursor s \<or> length (d_pending s) \<le> d_cursor s"
  shows "dl_ok job t"
proof (rule dl_ok_move [OF ok at _ t(2,3,4,5)])
  show run: "d_phase t = Running" using at t(1) by (simp add: at_worker_def)
  show "d_abort t \<Longrightarrow> d_first_err t \<noteq> None" using ok run t by (simp add: dl_ok_def)
  show "\<not> dl_failing t \<Longrightarrow> \<not> dl_failing s \<and> dl_busy Gone + mset (map fst (drop (d_cursor t) (d_pending s)))
      = dl_busy x + mset (map fst (drop (d_cursor s) (d_pending s)))"
    using failing_move [OF _ at x(2) t(2,8)] last_one t(6) x(1) by auto
qed (use last_one t x in auto)

lemma dl_ok_failed:
  assumes ok: "dl_ok job s" and at: "at_worker i (Failing e) s"
  shows "dl_ok job (dl_set i Gone
      (s\<lparr> d_first_err := (case d_first_err s of None \<Rightarrow> Some e | Some e0 \<Rightarrow> Some e0), d_abort := True \<rparr>))" (is "dl_ok job ?t")
proof -
  have "d_first_err ?t \<noteq> None" by (auto split: option.splits)
  then show ?thesis using at
    by (intro dl_ok_move [OF ok at, of ?t Gone]) (auto simp: at_worker_def dl_failing_def)
qed

lemma dl_ok_taken:
  assumes ok: "dl_ok job s" and at: "at_worker i Taking s" and c: "d_cursor s < length (d_pending s)"
    and item: "d_pending s ! d_cursor s = (index, extent)"
  shows "dl_ok job (dl_set i (Fetching index extent) (s\<lparr> d_cursor := d_cursor s + 1 \<rparr>))" (is "dl_ok job ?t")
proof (rule dl_ok_move [OF ok at, of ?t "Fetching index extent"])
  have "drop (d_cursor s) (d_pending s) = (index, extent) # drop (d_cursor ?t) (d_pending s)"
    using Cons_nth_drop_Suc [OF c] item by simp
  then have eq: "dl_busy (Fetching index extent) + mset (map fst (drop (d_cursor ?t) (d_pending s)))
      = dl_busy Taking + mset (map fst (drop (d_cursor s) (d_pending s)))" by simp
  then show "dl_busy (Fetching index extent) + mset (map fst (drop (d_cursor ?t) (d_pending s)))
      \<subseteq># dl_busy Taking + mset (map fst (drop (d_cursor s) (d_pending s)))" by simp
  show "\<not> dl_failing ?t \<Longrightarrow> \<not> dl_failing s \<and> dl_busy (Fetching index extent) + mset (map fst (drop (d_cursor ?t) (d_pending s)))
      = dl_busy Taking + mset (map fst (drop (d_cursor s) (d_pending s)))"
    using eq failing_move [OF _ at, of ?t] by auto
qed (use ok at in \<open>auto simp: dl_ok_def at_worker_def\<close>)

lemma dl_ok_step: "dl_step job s t \<Longrightarrow> dl_ok job s \<Longrightarrow> dl_ok job t"
proof (induction rule: dl_step.induct)
  case (aborted i s)
  show ?case by (rule dl_ok_gone [where s = s and x = Checking]) (use aborted in simp_all)
next
  case (no_item i s)
  show ?case by (rule dl_ok_gone [where s = s and x = Taking]) (use no_item in simp_all)
next
  case (go_on i s)
  show ?case by (rule dl_ok_keep [where s = s and x = Checking and y = Taking]) (use go_on in simp_all)
next
  case (fetched i index extent s plaintext pool h)
  show ?case by (rule dl_ok_keep [where s = s and x = "Fetching index extent" and y = "Writing index plaintext"]) (use fetched in simp_all)
next
  case (fetch_failed i index extent s e pool h)
  show ?case by (rule dl_ok_keep [where s = s and x = "Fetching index extent" and y = "Failing e"]) (use fetch_failed in simp_all)
next
  case (fetch_panicked i index extent s)
  show ?case by (rule dl_ok_keep [where s = s and x = "Fetching index extent" and y = "Failing invalid_data"]) (use fetch_panicked in simp_all)
next
  case (wrote i index plaintext s)
  show ?case by (rule dl_ok_keep [where s = s and x = "Writing index plaintext" and y = "Recording index (length plaintext)"]) (use wrote in simp_all)
next
  case (write_failed i index plaintext s e k)
  show ?case by (rule dl_ok_keep [where s = s and x = "Writing index plaintext" and y = "Failing e"]) (use write_failed in simp_all)
qed (blast intro: dl_ok_start dl_ok_taken dl_ok_recorded dl_ok_failed dl_ok_end dl_ok_end_loop)+

lemma dl_ok_reachable: "(dl_step job)\<^sup>*\<^sup>* (dl_start job url h) s \<Longrightarrow> dl_ok job s"
  by (induction rule: rtranclp_induct) (blast intro: dl_ok_begin dl_ok_step)+

lemma all_completed: "dl_ok job s \<Longrightarrow> d_done s = length (j_ranges job) \<longleftrightarrow> (\<forall>i < length (j_ranges job). d_completed s ! i)"
proof -
  assume ok: "dl_ok job s"
  have "length (filter id xs) = length xs \<longleftrightarrow> (\<forall>i < length xs. xs ! i)" for xs :: "bool list"
  proof -
    have "length (filter id xs) = length xs \<longleftrightarrow> (\<forall>x \<in> set xs. x)"
    proof (induction xs)
      case (Cons x xs)
      moreover have "length (filter id xs) \<noteq> Suc (length xs)" by (metis Suc_n_not_le_n length_filter_le)
      ultimately show ?case by (cases x) (auto simp: id_def)
    qed simp
    then show ?thesis by (simp only: all_set_conv_all_nth)
  qed
  from this [of "d_completed s"] ok show ?thesis by (simp add: dl_ok_def)
qed

lemma dl_pending_empty:
  "dl_pending job s = [] \<longleftrightarrow> (\<forall>i < length (j_ranges job). d_completed s ! i)"
proof -
  have "dl_pending job s = [] \<longleftrightarrow> map fst (dl_pending job s) = []" by simp
  then show ?thesis unfolding dl_pending_fst by (auto simp: filter_empty_conv)
qed

lemma gone_idle: "list_all (\<lambda>x. x = Gone) xs \<Longrightarrow> sum_list (map dl_busy xs) = {#}"
  by (induction xs) auto

text \<open>A generation that ends without an error has completed every chunk.\<close>

lemma quiet_generation:
  assumes ok: "dl_ok job s" and run: "d_phase s = Running" and gone: "list_all (\<lambda>x. x = Gone) (d_workers s)"
    and quiet: "d_first_err s = None"
  shows "d_done s = length (j_ranges job)"
proof -
  have ws: "d_workers s \<noteq> []" "\<not> d_abort s" using ok run quiet by (auto simp: dl_ok_def)
  then have all: "set (d_workers s) = {Gone}" using gone by (cases "d_workers s") (auto simp: list_all_iff)
  then have cursor: "length (d_pending s) \<le> d_cursor s" using ok run ws by (auto simp: dl_ok_def)
  have "sum_list (map dl_busy (d_workers s)) = {#}" using gone by (rule gone_idle)
  then have "dl_owned s = {#}" using cursor by (simp add: dl_owned_def)
  moreover have "\<not> dl_failing s" using all quiet by (auto simp: dl_failing_def)
  ultimately have "dl_todo s i = 0" for i using ok run by (auto simp: dl_ok_def)
  moreover have "length (d_completed s) = length (j_ranges job)" using ok by (simp add: dl_ok_def)
  ultimately have "\<forall>i < length (j_ranges job). d_completed s ! i" by (metis dl_todo_def zero_neq_one)
  then show ?thesis using all_completed [OF ok] by blast
qed

subsection \<open>The download ends\<close>

fun dl_worker_work :: "dl_worker \<Rightarrow> nat" where
  "dl_worker_work Gone = 0"
| "dl_worker_work (Failing _) = 1"
| "dl_worker_work Taking = 1"
| "dl_worker_work Checking = 2"
| "dl_worker_work (Recording _ _) = 3"
| "dl_worker_work (Writing _ _) = 4"
| "dl_worker_work (Fetching _ _) = 5"

text \<open>
  The work left to a generation is at most \<open>7 * n\<close> for \<open>n\<close> chunks. A generation that is followed by another has completed
  a chunk or used up one of the refreshes, which are restored by progress: the rank of generations decreases.
\<close>

definition dl_rank :: "('w, 'j, 's) dl_job \<Rightarrow> nat \<Rightarrow> nat \<Rightarrow> nat" where
  "dl_rank job ready stale = 4 * (length (j_ranges job) - ready) + (3 - stale)"

definition dl_work :: "('w, 'j, 's) dl_job \<Rightarrow> 'w dl \<Rightarrow> nat" where
  "dl_work job s =
     (let turn = 7 * length (j_ranges job) + 2 in
      case d_phase s of
        Finished _ \<Rightarrow> 0
      | Ready \<Rightarrow> (dl_rank job (d_done s) (d_stale s) + 1) * turn
      | Running \<Rightarrow> dl_rank job (d_done_before s) (d_stale s) * turn + 1
          + sum_list (map dl_worker_work (d_workers s)) + 5 * (length (d_pending s) - d_cursor s))"

definition dl_live :: "('w, 'j, 's) dl_job \<Rightarrow> 'w dl \<Rightarrow> bool" where
  "dl_live job s \<longleftrightarrow> dl_ok job s \<and> (d_phase s = Running \<longrightarrow> d_done_before s < length (j_ranges job) \<and> d_done_before s \<le> d_done s)
     \<and> (d_phase s = Ready \<or> d_phase s = Running \<longrightarrow> d_stale s < 3)"

lemma dl_done_le: "dl_ok job s \<Longrightarrow> d_done s \<le> length (j_ranges job)"
  using length_filter_le [of id "d_completed s"] by (simp add: dl_ok_def)

lemma dl_pending_length: "length (dl_pending job s) \<le> length (j_ranges job)"
  using length_filter_le [of _ "enumerate 0 (j_ranges job)"] unfolding dl_pending_def by (metis length_enumerate)

lemma dl_work_start:
  assumes "d_phase s = Ready" "dl_pending job s \<noteq> []"
  shows "dl_work job (start_generation job s) < dl_work job s"
proof -
  let ?p = "length (dl_pending job s)"
  have "max 1 (min (j_n job) ?p) \<le> ?p" using assms(2) by (cases ?p) auto
  then have "2 * max 1 (min (j_n job) ?p) + 5 * ?p \<le> 7 * length (j_ranges job)" using dl_pending_length [of job s] by linarith
  then show ?thesis using assms(1) by (simp add: dl_work_def start_generation_def sum_list_replicate Let_def)
qed

lemma dl_work_set:
  assumes "at_worker i x s" "d_phase s' = d_phase s" "d_workers s' = d_workers s" "d_pending s' = d_pending s"
    "d_done_before s' = d_done_before s" "d_stale s' = d_stale s"
    "dl_worker_work y + 5 * (length (d_pending s) - d_cursor s') < dl_worker_work x + 5 * (length (d_pending s) - d_cursor s)"
  shows "dl_work job (dl_set i y s') < dl_work job s"
  using sum_list_set [of i "d_workers s" dl_worker_work y] assms
  by (simp add: dl_work_def at_worker_def Let_def)

lemma dl_work_end:
  assumes live: "dl_live job s" and run: "d_phase s = Running" and gone: "list_all (\<lambda>x. x = Gone) (d_workers s)"
  shows "dl_work job (end_generation job s) < dl_work job s"
proof (cases "d_phase (end_generation job s) = Ready")
  case True
  let ?t = "end_generation job s"
  have b: "d_done_before s < length (j_ranges job)" "d_done_before s \<le> d_done s" "d_stale s < 3" "d_done s \<le> length (j_ranges job)"
    using live run dl_done_le by (auto simp: dl_live_def)
  have same: "d_done ?t = d_done s" "d_first_err s = None \<Longrightarrow> d_stale ?t = d_stale s"
    by (auto simp: end_generation_def Let_def split: option.splits prod.splits sum.splits)
  have "dl_rank job (d_done ?t) (d_stale ?t) < dl_rank job (d_done_before s) (d_stale s)"
  proof (cases "d_first_err s")
    case None
    have "dl_ok job s" using live by (simp add: dl_live_def)
    from quiet_generation [OF this run gone None] b same(2) [OF None] show ?thesis by (simp add: dl_rank_def same(1))
  next
    case (Some e)
    then have "presigned_refresh_decision (d_done_before s < d_done s) (d_stale s) = (True, d_stale ?t)" using True
      by (auto simp: end_generation_def Let_def split: prod.splits sum.splits if_splits)
    with b show ?thesis
      by (auto simp: dl_rank_def same(1) presigned_refresh_decision_def PRESIGNED_STALE_REFRESH_BUDGET_def split: if_splits)
  qed
  then have "dl_rank job (d_done ?t) (d_stale ?t) + 1 \<le> dl_rank job (d_done_before s) (d_stale s)" by simp
  from mult_le_mono1 [OF this, of "7 * length (j_ranges job) + 2"] show ?thesis using True run by (simp add: dl_work_def Let_def)
next
  case False
  then have "dl_work job (end_generation job s) = 0"
    by (auto simp: dl_work_def end_generation_def Let_def split: option.splits prod.splits sum.splits if_splits)
  then show ?thesis using run by (simp add: dl_work_def Let_def)
qed

lemma dl_work_step: "dl_step job s t \<Longrightarrow> dl_live job s \<Longrightarrow> dl_work job t < dl_work job s"
proof (induction rule: dl_step.induct)
  case (generation s)
  then show ?case using dl_work_start by blast
next
  case (join s)
  then show ?case using dl_work_end by blast
next
  case (complete s)
  then show ?case by (simp add: dl_work_def end_loop_def Let_def)
qed (erule dl_work_set; simp)+

lemma dl_live_step: "dl_step job s t \<Longrightarrow> dl_live job s \<Longrightarrow> dl_live job t"
proof -
  assume step: "dl_step job s t" and live: "dl_live job s"
  then have ok: "dl_ok job s" "dl_ok job t" using dl_ok_step by (auto simp: dl_live_def)
  show "dl_live job t" using step live ok
  proof (cases rule: dl_step.cases)
    case generation
    then have "d_done s \<noteq> length (j_ranges job)" using dl_pending_empty all_completed [OF ok(1)] by blast
    then show ?thesis using generation live ok dl_done_le [OF ok(1)] by (auto simp: dl_live_def start_generation_def)
  next
    case join
    then show ?thesis using live ok
      by (auto simp: dl_live_def end_generation_def Let_def presigned_refresh_decision_def PRESIGNED_STALE_REFRESH_BUDGET_def
          split: option.splits prod.splits sum.splits if_splits)
  qed (auto simp: dl_live_def end_loop_def at_worker_def)
qed

lemma dl_live_begin: "dl_live job (dl_start job url h)"
  using dl_ok_begin by (simp add: dl_live_def) (simp add: dl_start_def)

lemma dl_run_length: "(dl_step job ^^ n) s t \<Longrightarrow> dl_live job s \<Longrightarrow> dl_live job t \<and> n + dl_work job t \<le> dl_work job s"
proof (induction n arbitrary: t)
  case (Suc n)
  then obtain u where "(dl_step job ^^ n) s u" "dl_step job u t" by auto
  with Suc dl_live_step [of job u t] dl_work_step [of job u t] show ?case by fastforce
qed simp

lemma dl_progress: "d_phase s = Finished r \<or> (\<exists>t. dl_step job s t)" if "\<And>r'. d_phase s = Finished r' \<Longrightarrow> r' = r"
proof (cases "d_phase s")
  case Ready
  then show ?thesis using dl_step.generation [of s job] dl_step.complete [of s job] by blast
next
  case Running
  show ?thesis
  proof (cases "list_all (\<lambda>x. x = Gone) (d_workers s)")
    case False
    then obtain i where "i < length (d_workers s)" "d_workers s ! i \<noteq> Gone" by (auto simp: list_all_length)
    with Running have at: "at_worker i (d_workers s ! i) s" "d_workers s ! i \<noteq> Gone" by (simp_all add: at_worker_def)
    obtain index extent where item: "d_pending s ! d_cursor s = (index, extent)" by (rule prod.exhaust)
    show ?thesis
      using at dl_step.take_item [OF _ _ item, of i job] dl_step.no_item [of i s job] dl_step.fetch_panicked [of i _ _ s job]
        dl_step.wrote [of i _ _ s job] dl_step.recorded [of i _ _ s job] dl_step.failed [of i _ s job]
        dl_step.aborted [of i s job] dl_step.go_on [of i s job]
      by (cases "d_workers s ! i") (simp only: | blast)+
  qed (use Running dl_step.join in blast)
qed (use that in blast)

end
