(* ===== verification/Download_File.thy ===== *)
theory Download_File
  imports Download
begin

section \<open>What a download leaves behind\<close>

text \<open>
  The properties of \<open>Download\<close>: the loop ends, the ranges are the stored chunks, the file that a successful download leaves is
  the file that was sealed, under its name only when it is whole, and what the unauthenticated numbers of the server can do.
\<close>

text \<open>
  C18: A download's threads neither deadlock nor run on: from every state they can reach, either a step is possible or the loop has
  its result, and for \<open>n\<close> chunks no run has more than \<open>(4 * n + 4) * (7 * n + 2)\<close> steps, however often storage rejects
  the URL and the server hands out another.\<close>
theorem download_never_hangs:
  assumes "(dl_step job ^^ n) (dl_start job url h) s"
  shows "((\<exists>t. dl_step job s t) \<or> (\<exists>r. d_phase s = Finished r))
    \<and> n \<le> (4 * length (j_ranges job) + 4) * (7 * length (j_ranges job) + 2)"
proof -
  have "n \<le> dl_work job (dl_start job url h)" using dl_run_length [OF assms dl_live_begin] by linarith
  also have "\<dots> = (4 * length (j_ranges job) + 4) * (7 * length (j_ranges job) + 2)"
    by (simp add: dl_work_def dl_start_def dl_rank_def Let_def)
  finally show ?thesis using dl_progress [of s _ job] by (cases "d_phase s") blast+
qed


subsection \<open>What ends up in the file\<close>

definition placed :: "bytes \<Rightarrow> nat \<Rightarrow> bytes \<Rightarrow> bool" where
  "placed f offset p \<longleftrightarrow> (\<forall>k < length p. offset + k < length f \<and> f ! (offset + k) = p ! k)"

lemma write_length: "length (write_plaintext_at f q offset) = (if q = [] then length f else max (length f) (offset + length q))"
  by (auto simp: write_plaintext_at_def)

lemma write_nth:
  assumes "j < length (write_plaintext_at f q offset)"
  shows "write_plaintext_at f q offset ! j =
    (if offset \<le> j \<and> j < offset + length q then q ! (j - offset) else if j < length f then f ! j else 0)"
  using assms by (auto simp: write_plaintext_at_def nth_append min_def)

lemma placed_apart:
  "\<lbrakk> placed f offset p; offset' + length q \<le> offset \<or> offset + length p \<le> offset' \<rbrakk> \<Longrightarrow>
     placed (write_plaintext_at f q offset') offset p"
  by (auto simp: placed_def write_length write_nth)

lemma placed_again: "placed f offset p \<Longrightarrow> placed (write_plaintext_at f (take k p) offset) offset p"
  by (auto simp: placed_def write_length write_nth)

lemma placed_here: "placed (write_plaintext_at f p offset) offset p"
  by (auto simp: placed_def write_length write_nth)

text \<open>
  \<open>tiles\<close>: whatever opens as chunk \<open>i\<close> is \<open>chunk i\<close>, and the places of the chunks that open are in order, do not overlap and
  lie within \<open>limit\<close> bytes.
\<close>

definition opens :: "('w, 'j, 's) dl_job \<Rightarrow> nat \<Rightarrow> bytes \<Rightarrow> bool" where
  "opens job i p \<longleftrightarrow>
     (\<exists>envelope. open_chunk (ss_lib (j_session job)) (j_dek job) (j_file_id job) (of_nat i) (j_chunk_count job) envelope = Inr p)"

definition tiles :: "('w, 'j, 's) dl_job \<Rightarrow> (nat \<Rightarrow> bytes) \<Rightarrow> nat \<Rightarrow> bool" where
  "tiles job chunk limit \<longleftrightarrow>
     (\<forall>i < length (j_ranges job). \<forall>p. opens job i p \<longrightarrow>
        p = chunk i \<and> chunk_offset job i + length p \<le> limit \<and>
        (\<forall>j < i. \<forall>q. opens job j q \<longrightarrow> chunk_offset job j + length q \<le> chunk_offset job i))"

fun dl_worker_sound :: "('w, 'j, 's) dl_job \<Rightarrow> (nat \<Rightarrow> bytes) \<Rightarrow> bytes \<Rightarrow> dl_worker \<Rightarrow> bool" where
  "dl_worker_sound job chunk f (Fetching i _) \<longleftrightarrow> i < length (j_ranges job)"
| "dl_worker_sound job chunk f (Writing i p) \<longleftrightarrow> i < length (j_ranges job) \<and> opens job i p"
| "dl_worker_sound job chunk f (Recording i len) \<longleftrightarrow>
     i < length (j_ranges job) \<and> opens job i (chunk i) \<and> len = length (chunk i) \<and> placed f (chunk_offset job i) (chunk i)"
| "dl_worker_sound job chunk f _ \<longleftrightarrow> True"

definition dl_sound :: "('w, 'j, 's) dl_job \<Rightarrow> (nat \<Rightarrow> bytes) \<Rightarrow> nat \<Rightarrow> 'w dl \<Rightarrow> bool" where
  "dl_sound job chunk limit s \<longleftrightarrow>
     length (d_file s) \<le> limit \<and> (\<forall>x \<in> set (d_workers s). dl_worker_sound job chunk (d_file s) x) \<and>
     (\<forall>x \<in> set (d_pending s). fst x < length (j_ranges job)) \<and>
     (\<forall>i < length (d_completed s). d_completed s ! i \<longrightarrow>
        opens job i (chunk i) \<and> placed (d_file s) (chunk_offset job i) (chunk i)) \<and>
     d_written s = of_nat (sum (\<lambda>i. length (chunk i)) {i. i < length (d_completed s) \<and> d_completed s ! i})"

lemma fetch_chunk_opens:
  "fetch_chunk job url index extent pool h = (Inr p, pool', h') \<Longrightarrow> opens job index p"
  by (auto simp: fetch_chunk_def opens_def result_simps Let_def split: prod.splits option.splits sum.splits)

lemma tiles_chunk: "\<lbrakk> tiles job chunk limit; i < length (j_ranges job); opens job i p \<rbrakk> \<Longrightarrow> p = chunk i \<and> chunk_offset job i + length p \<le> limit"
  unfolding tiles_def by blast

lemma tiles_apart:
  "\<lbrakk> tiles job chunk limit; i < length (j_ranges job); opens job i p; j < i; opens job j q \<rbrakk> \<Longrightarrow>
     chunk_offset job j + length q \<le> chunk_offset job i"
  unfolding tiles_def by blast

text \<open>A write of a chunk, or of a part of it, keeps every chunk that is in place.\<close>

lemma placed_kept:
  assumes "tiles job chunk limit" "i < length (j_ranges job)" "opens job i (chunk i)"
    and "j < length (j_ranges job)" "opens job j (chunk j)" "placed f (chunk_offset job j) (chunk j)"
  shows "placed (write_plaintext_at f (take k (chunk i)) (chunk_offset job i)) (chunk_offset job j) (chunk j)"
proof (cases i j rule: linorder_cases)
  case less
  then have "chunk_offset job i + length (take k (chunk i)) \<le> chunk_offset job j"
    using tiles_apart [OF assms(1,4,5) _ assms(3)] by simp
  then show ?thesis using placed_apart [OF assms(6)] by blast
next
  case equal
  then show ?thesis using placed_again [OF assms(6)] by simp
next
  case greater
  then have "chunk_offset job j + length (chunk j) \<le> chunk_offset job i" by (rule tiles_apart [OF assms(1,2,3) _ assms(5)])
  then show ?thesis using placed_apart [OF assms(6)] by blast
qed

lemma sound_kept:
  assumes "tiles job chunk limit" "i < length (j_ranges job)" "opens job i (chunk i)" "dl_worker_sound job chunk f x"
  shows "dl_worker_sound job chunk (write_plaintext_at f (take k (chunk i)) (chunk_offset job i)) x"
  using assms placed_kept [OF assms(1,2,3)] by (cases x) auto

lemma length_kept:
  "\<lbrakk> tiles job chunk limit; i < length (j_ranges job); opens job i (chunk i); length f \<le> limit \<rbrakk> \<Longrightarrow>
     length (write_plaintext_at f (take k (chunk i)) (chunk_offset job i)) \<le> limit"
  using tiles_chunk [of job chunk limit i "chunk i"] by (auto simp: write_length)

lemma dl_sound_write:
  assumes "tiles job chunk limit" "length (d_completed s) = length (j_ranges job)" "dl_sound job chunk limit s"
    and "i < length (j_ranges job)" "opens job i (chunk i)"
  shows "dl_sound job chunk limit (s\<lparr> d_file := write_plaintext_at (d_file s) (take k (chunk i)) (chunk_offset job i) \<rparr>)"
  using assms(2,3) sound_kept [OF assms(1,4,5)] length_kept [OF assms(1,4,5)] placed_kept [OF assms(1,4,5)]
  by (simp add: dl_sound_def)

lemma dl_sound_set:
  "\<lbrakk> dl_sound job chunk limit s; dl_worker_sound job chunk (d_file s) x \<rbrakk> \<Longrightarrow> dl_sound job chunk limit (dl_set i x s)"
  by (auto simp: dl_sound_def dest!: set_updateD)

lemma dl_sound_at: "\<lbrakk> dl_sound job chunk limit s; at_worker i x s \<rbrakk> \<Longrightarrow> dl_worker_sound job chunk (d_file s) x"
  by (auto simp: dl_sound_def at_worker_def)

lemma dl_sound_recorded:
  assumes ok: "dl_ok job s" and at: "at_worker i (Recording index len) s" and sound: "dl_sound job chunk limit s"
  shows "dl_sound job chunk limit (dl_set i Checking
      (s\<lparr> d_completed := (d_completed s)[index := True], d_written := d_written s + of_nat len, d_done := d_done s + 1 \<rparr>))"
proof -
  let ?c = "d_completed s"
  note index = recorded_todo [OF ok at]
  have w: "opens job index (chunk index)" "len = length (chunk index)" "placed (d_file s) (chunk_offset job index) (chunk index)"
    using dl_sound_at [OF sound at] by simp_all
  have "{i. i < length ?c \<and> ?c[index := True] ! i} = insert index {i. i < length ?c \<and> ?c ! i}"
    using index by (auto simp: nth_list_update)
  moreover have "index \<notin> {i. i < length ?c \<and> ?c ! i}" using index by simp
  ultimately have "sum (\<lambda>i. length (chunk i)) {i. i < length ?c \<and> ?c[index := True] ! i}
      = len + sum (\<lambda>i. length (chunk i)) {i. i < length ?c \<and> ?c ! i}" using w(2) by simp
  then show ?thesis using sound w(1,3) index
    by (intro dl_sound_set) (auto simp: dl_sound_def nth_list_update)
qed

lemma dl_sound_start: "dl_sound job chunk limit s \<Longrightarrow> dl_sound job chunk limit (start_generation job s)"
proof -
  assume "dl_sound job chunk limit s"
  moreover have "fst x < length (j_ranges job)" if "x \<in> set (dl_pending job s)" for x
    using that by (auto simp: dl_pending_def in_set_enumerate_eq)
  ultimately show ?thesis by (auto simp: dl_sound_def start_generation_def)
qed

lemma end_generation_sel [simp]:
  "d_file (end_generation job s) = d_file s" "d_workers (end_generation job s) = d_workers s"
  "d_pending (end_generation job s) = d_pending s" "d_completed (end_generation job s) = d_completed s"
  "d_written (end_generation job s) = d_written s"
  by (simp_all add: end_generation_def Let_def split: option.splits prod.splits sum.splits)

lemma dl_sound_step:
  assumes "tiles job chunk limit"
  shows "dl_step job s t \<Longrightarrow> dl_ok job s \<Longrightarrow> dl_sound job chunk limit s \<Longrightarrow> dl_sound job chunk limit t"
proof (induction rule: dl_step.induct)
  case (take_item i s index extent)
  then have "(index, extent) \<in> set (d_pending s)" by (metis nth_mem)
  with take_item show ?case by (intro dl_sound_set) (auto simp: dl_sound_def)
next
  case (fetched i index extent s plaintext pool h)
  then have "opens job index plaintext" "index < length (j_ranges job)"
    using fetch_chunk_opens dl_sound_at [OF fetched(4,1)] by (blast, simp)
  with fetched show ?case by (intro dl_sound_set) (auto simp: dl_sound_def)
next
  case (wrote i index plaintext s)
  then have w: "index < length (j_ranges job)" "opens job index (chunk index)" "plaintext = chunk index"
    using dl_sound_at [OF wrote(3,1)] tiles_chunk [OF assms] by auto
  have "length (d_completed s) = length (j_ranges job)" using wrote(2) by (simp add: dl_ok_def)
  from dl_sound_write [OF assms this wrote(3) w(1,2), of "length (chunk index)"] w show ?case
    by (intro dl_sound_set) (simp_all add: placed_here)
next
  case (write_failed i index plaintext s e k)
  then have w: "index < length (j_ranges job)" "opens job index (chunk index)" "plaintext = chunk index"
    using dl_sound_at [OF write_failed(4,1)] tiles_chunk [OF assms] by auto
  have "length (d_completed s) = length (j_ranges job)" using write_failed(3) by (simp add: dl_ok_def)
  from dl_sound_write [OF assms this write_failed(4) w(1,2)] w show ?case by (intro dl_sound_set) simp_all
next
  case (recorded i index len s)
  then show ?case by (blast intro: dl_sound_recorded)
next
  case (generation s)
  then show ?case by (blast intro: dl_sound_start)
next
  case (join s)
  then show ?case by (simp add: dl_sound_def)
next
  case (complete s)
  then show ?case by (simp add: dl_sound_def end_loop_def)
qed (auto simp: dl_sound_def dest!: set_updateD)

lemma dl_sound_reachable:
  assumes "tiles job chunk limit" "(dl_step job)\<^sup>*\<^sup>* (dl_start job url h) s"
  shows "dl_sound job chunk limit s"
  using assms(2)
proof (induction rule: rtranclp_induct)
  case base
  show ?case by (auto simp: dl_sound_def dl_start_def intro!: sum.neutral)
next
  case (step s t)
  then show ?case using dl_sound_step [OF assms(1)] dl_ok_reachable by blast
qed

lemma finished_complete:
  assumes "(dl_step job)\<^sup>*\<^sup>* (dl_start job url h) s" "d_phase s = Finished (Inr n)"
  shows "n = d_written s \<and> (\<forall>i < length (j_ranges job). d_completed s ! i)"
proof -
  have "d_phase s = Finished (Inr n) \<longrightarrow> n = d_written s \<and> d_done s = length (j_ranges job)"
    using assms(1)
  proof (induction rule: rtranclp_induct)
    case (step s t)
    from step(2) show ?case
      by cases (auto simp: start_generation_def end_loop_def at_worker_def end_generation_def Let_def
          split: option.splits prod.splits sum.splits if_splits)
  qed (simp add: dl_start_def)
  then show ?thesis using assms(2) all_completed [OF dl_ok_reachable [OF assms(1)]] by blast
qed

text \<open>
  When the loop succeeds, every chunk of the plan has been opened and stands at its place, and nothing stands behind the last.
\<close>

lemma finished_places:
  assumes "tiles job chunk limit" "(dl_step job)\<^sup>*\<^sup>* (dl_start job url h) s" "d_phase s = Finished (Inr n)"
  shows "n = of_nat (sum (\<lambda>i. length (chunk i)) {..<length (j_ranges job)}) \<and> length (d_file s) \<le> limit \<and>
    (\<forall>i < length (j_ranges job). opens job i (chunk i) \<and> placed (d_file s) (chunk_offset job i) (chunk i))"
proof -
  note sound = dl_sound_reachable [OF assms(1,2)] and fin = finished_complete [OF assms(2,3)]
  have len: "length (d_completed s) = length (j_ranges job)" using dl_ok_reachable [OF assms(2)] by (simp add: dl_ok_def)
  then have "{i. i < length (d_completed s) \<and> d_completed s ! i} = {..<length (j_ranges job)}" using fin by auto
  then show ?thesis using sound fin len by (simp add: dl_sound_def)
qed

subsection \<open>A download is the file\<close>

text \<open>
  The chunks of a file as its writer cuts them, and the authenticity of the cipher: what it opens under the file's key was
  sealed by the writer with the same associated data.
\<close>

definition file_chunks :: "nat \<Rightarrow> bytes \<Rightarrow> bytes list" where
  "file_chunks cs f = map (\<lambda>i. take cs (drop (i * cs) f)) [0..<chunk_count_of cs (length f)]"

definition sealed_only :: "crypto_lib \<Rightarrow> bytes \<Rightarrow> bytes \<Rightarrow> bytes list \<Rightarrow> bool" where
  "sealed_only E dek file_id chunks \<longleftrightarrow>
     (\<forall>iv c aad p. gcm_decrypt E dek iv c aad = Some p \<longrightarrow>
        (\<exists>j < length chunks. p = chunks ! j \<and>
           aad = multipart_aad file_id (of_nat j) (of_nat j = (of_nat (length chunks) :: u32) - 1)))"

lemma opens_written:
  assumes "sealed_only (ss_lib (j_session job)) (j_dek job) (j_file_id job) chunks" "length chunks < 4294967296"
    and "opens job i p" "i < 4294967296"
  shows "i < length chunks \<and> p = chunks ! i \<and> (of_nat i = j_chunk_count job - 1 \<longleftrightarrow> i = length chunks - 1)"
proof -
  obtain envelope where "open_chunk (ss_lib (j_session job)) (j_dek job) (j_file_id job) (of_nat i) (j_chunk_count job) envelope = Inr p"
    using assms(3) by (auto simp: opens_def)
  from open_chunk_decrypts [OF this] assms(1) obtain j where j: "j < length chunks" "p = chunks ! j"
      "multipart_aad (j_file_id job) (of_nat i) (of_nat i = j_chunk_count job - 1)
        = multipart_aad (j_file_id job) (of_nat j) (of_nat j = (of_nat (length chunks) :: u32) - 1)"
    unfolding sealed_only_def by blast
  note idx = j(3) [unfolded multipart_aad_inj [OF refl], THEN conjunct2]
  have "i = j" by (rule of_nat_u32_inj [OF _ _ idx [THEN conjunct1]]) (use j(1) assms(2,4) in linarith)+
  with idx [THEN conjunct2] j(1,2) show ?thesis by (simp only: last_u32 [OF j(1) assms(2)] simp_thms)
qed

lemma chunk_count_bound: "\<lbrakk> 0 < cs; i < chunk_count_of cs n \<rbrakk> \<Longrightarrow> i * cs \<le> n"
proof -
  assume cs: "0 < cs" and i: "i < chunk_count_of cs n"
  show "i * cs \<le> n"
  proof (cases "i = 0")
    case False
    with i have "i + 1 \<le> (n + (cs - 1)) div cs" by (simp add: chunk_count_of_def)
    then have "(i + 1) * cs \<le> n + (cs - 1)" by (rule less_eq_div_iff_mult_less_eq [OF cs, THEN iffD1])
    then show ?thesis using cs by simp
  qed simp
qed

lemma chunk_count_covers: "\<lbrakk> 0 < cs; k < n \<rbrakk> \<Longrightarrow> k div cs < chunk_count_of cs n"
proof -
  assume cs: "0 < cs" and k: "k < n"
  have "Suc (k div cs) = (k + cs) div cs" using cs by (simp add: div_add_self2)
  also have "\<dots> \<le> (n + (cs - 1)) div cs" using k by (intro div_le_mono) simp
  finally show ?thesis by (simp add: chunk_count_of_def)
qed

lemma chunk_offset_exact: "i * unat (j_stride job) < 2 ^ 64 \<Longrightarrow> chunk_offset job i = i * unat (j_stride job)"
proof -
  assume "i * unat (j_stride job) < 2 ^ 64"
  moreover have "of_nat i * j_stride job = of_nat (i * unat (j_stride job))" by simp
  ultimately show ?thesis unfolding chunk_offset_def by (simp only: unat_of_nat) simp
qed

lemma file_chunks_length [simp]: "length (file_chunks cs f) = chunk_count_of cs (length f)"
  by (simp add: file_chunks_def)

lemma file_chunks_nth [simp]: "i < chunk_count_of cs (length f) \<Longrightarrow> file_chunks cs f ! i = take cs (drop (i * cs) f)"
  by (simp add: file_chunks_def)

text \<open>The files in question: cut into chunks of \<open>cs\<close> bytes, with 64-bit lengths and 32-bit chunk numbers.\<close>

definition downloads :: "('w, 'j, 's) dl_job \<Rightarrow> nat \<Rightarrow> bytes \<Rightarrow> bool" where
  "downloads job cs f \<longleftrightarrow>
     sealed_only (ss_lib (j_session job)) (j_dek job) (j_file_id job) (file_chunks cs f) \<and> 0 < cs \<and>
     chunk_count_of cs (length f) < 2 ^ 32 \<and> chunk_count_of cs (length f) * unat (j_stride job) < 2 ^ 64 \<and>
     length (j_ranges job) = unat (j_chunk_count job) \<and> 0 < j_chunk_count job"

lemma downloads_opens:
  assumes "downloads job cs f" "i < length (j_ranges job)" "opens job i p"
  shows "i < chunk_count_of cs (length f) \<and> p = take cs (drop (i * cs) f) \<and> chunk_offset job i = i * unat (j_stride job) \<and>
    (i = length (j_ranges job) - 1 \<longleftrightarrow> i = chunk_count_of cs (length f) - 1)"
proof -
  let ?n = "chunk_count_of cs (length f)"
  have d: "sealed_only (ss_lib (j_session job)) (j_dek job) (j_file_id job) (file_chunks cs f)" "length (file_chunks cs f) < 4294967296"
      "?n * unat (j_stride job) < 2 ^ 64" "length (j_ranges job) = unat (j_chunk_count job)" "0 < j_chunk_count job"
    using assms(1) by (simp_all add: downloads_def)
  have small: "length (j_ranges job) < 4294967296" using unsigned_less [of "j_chunk_count job"] d(4) by simp
  then have "i < 4294967296" using assms(2) by linarith
  note o = opens_written [OF d(1,2) assms(3) this]
  have "(of_nat i :: u32) = of_nat (length (j_ranges job)) - 1 \<longleftrightarrow> i = length (j_ranges job) - 1" by (rule last_u32 [OF assms(2) small])
  then have "of_nat i = j_chunk_count job - 1 \<longleftrightarrow> i = length (j_ranges job) - 1" by (simp add: d(4))
  moreover have "i * unat (j_stride job) \<le> ?n * unat (j_stride job)" using o by simp
  then have "chunk_offset job i = i * unat (j_stride job)" using d(3) by (intro chunk_offset_exact) linarith
  ultimately show ?thesis using o by simp
qed

lemma downloads_tile:
  assumes "downloads job cs f" "cs \<le> unat (j_stride job)"
    and "\<And>i. i < chunk_count_of cs (length f) \<Longrightarrow> i * unat (j_stride job) + length (take cs (drop (i * cs) f)) \<le> limit"
  shows "tiles job (\<lambda>i. take cs (drop (i * cs) f)) limit"
  unfolding tiles_def
proof (intro allI impI conjI)
  fix i p assume i: "i < length (j_ranges job)" "opens job i p"
  note o = downloads_opens [OF assms(1) i]
  show "p = take cs (drop (i * cs) f)" using o by blast
  show "chunk_offset job i + length p \<le> limit" using assms(3) [of i] o by simp
  fix j q assume j: "j < i" "opens job j q"
  with i have "j < length (j_ranges job)" by linarith
  from downloads_opens [OF assms(1) this j(2)] have "chunk_offset job j = j * unat (j_stride job)" "length q \<le> cs" by simp_all
  moreover have "Suc j * unat (j_stride job) \<le> i * unat (j_stride job)" using j(1) by (intro mult_le_mono1) simp
  ultimately show "chunk_offset job j + length q \<le> chunk_offset job i" using o assms(2) by simp
qed

lemma finished_count:
  assumes "downloads job cs f" "\<forall>i < length (j_ranges job). opens job i (take cs (drop (i * cs) f))"
  shows "length (j_ranges job) = chunk_count_of cs (length f)"
proof -
  have "0 < length (j_ranges job)" using assms(1) by (auto simp: downloads_def unat_gt_0)
  then have i: "length (j_ranges job) - 1 < length (j_ranges job)" by simp
  from downloads_opens [OF assms(1) i] assms(2) i have "length (j_ranges job) - 1 = chunk_count_of cs (length f) - 1" by blast
  moreover have "0 < chunk_count_of cs (length f)" by (simp add: chunk_count_of_def)
  ultimately show ?thesis using \<open>0 < length (j_ranges job)\<close> by linarith
qed

lemma sum_chunks: "0 < cs \<Longrightarrow> sum (\<lambda>i. length (take cs (drop (i * cs) f))) {..<chunk_count_of cs (length f)} = length f"
proof -
  assume cs: "0 < cs"
  have "sum (\<lambda>i. length (take cs (drop (i * cs) f))) {..<m} = min (m * cs) (length f)" for m
    by (induction m) (auto simp: min_def)
  moreover have "length f \<le> chunk_count_of cs (length f) * cs"
  proof (cases "length f")
    case (Suc k)
    then have "Suc (k div cs) \<le> chunk_count_of cs (length f)" using chunk_count_covers [OF cs, of k "length f"] by simp
    then have "Suc (k div cs) * cs \<le> chunk_count_of cs (length f) * cs" by (rule mult_le_mono1)
    moreover have "k < Suc (k div cs) * cs" using cs dividend_less_div_times [of cs k] by simp
    ultimately show ?thesis using Suc by linarith
  qed simp
  ultimately show ?thesis by simp
qed

lemma finished_is_file:
  assumes "(dl_step job)\<^sup>*\<^sup>* (dl_start job url h) s" "d_phase s = Finished (Inr n)"
    and "downloads job cs f" "unat (j_stride job) = cs"
  shows "d_file s = f \<and> n = of_nat (length f)"
proof -
  have cs: "0 < cs" using assms(3) by (simp add: downloads_def)
  have "i * unat (j_stride job) + length (take cs (drop (i * cs) f)) \<le> length f" if "i < chunk_count_of cs (length f)" for i
    using chunk_count_bound [OF cs that] assms(4) by (simp add: min_def) linarith
  from downloads_tile [OF assms(3) _ this] have t: "tiles job (\<lambda>i. take cs (drop (i * cs) f)) (length f)" using assms(4) by simp
  note fin = finished_places [OF t assms(1,2)]
  have count: "length (j_ranges job) = chunk_count_of cs (length f)" using fin by (intro finished_count [OF assms(3)]) blast
  have cell: "k < length (d_file s) \<and> d_file s ! k = f ! k" if k: "k < length f" for k
  proof -
    let ?i = "k div cs" and ?r = "k mod cs"
    have i: "?i < length (j_ranges job)" using chunk_count_covers [OF cs k] count by simp
    then have o: "opens job ?i (take cs (drop (?i * cs) f))" "placed (d_file s) (chunk_offset job ?i) (take cs (drop (?i * cs) f))"
      using fin by blast+
    then have "placed (d_file s) (?i * cs) (take cs (drop (?i * cs) f))"
      using downloads_opens [OF assms(3) i o(1)] assms(4) by simp
    moreover have "?r < length (take cs (drop (?i * cs) f))" using k cs by (simp add: minus_mod_eq_div_mult [symmetric])
    ultimately show ?thesis using k by (auto simp: placed_def dest!: spec [of _ ?r])
  qed
  then have "length f \<le> length (d_file s)" by (metis leI nat_neq_iff)
  then have "d_file s = f" using fin cell by (intro nth_equalityI) auto
  moreover have "n = of_nat (length f)" using fin unfolding count sum_chunks [OF cs] by blast
  ultimately show ?thesis by blast
qed



lemma temp_path_apart: "download_temp_path p \<noteq> p"
proof (cases "file_name p")
  case None
  then show ?thesis by (simp add: download_temp_path_def with_file_name_def)
next
  case (Some n)
  then have "last p = Normal n" by (auto simp: file_name_def split: if_splits component.splits)
  moreover have "last (download_temp_path p) = Normal (n @ ''.part'')" using Some by (simp add: download_temp_path_def with_file_name_def)
  ultimately show ?thesis by auto
qed

lemma download_to_cases:
  assumes "download_to plan url out_path files h (r, files', h')"
  shows "(\<exists>e. r = Inl e \<and> (files' = files \<or> files' = files(download_temp_path out_path := None))) \<or>
    (\<exists>job s n. plan = Some job \<and> (dl_step job)\<^sup>*\<^sup>* (dl_start job url h) s \<and> d_phase s = Finished (Inr n) \<and> r = Inr n \<and>
       files' = files(download_temp_path out_path := None, out_path := Some (d_file s)))"
proof (cases plan)
  case (Some job)
  then consider "r = Inl output_write" "files' = files" | s res where "(dl_step job)\<^sup>*\<^sup>* (dl_start job url h) s" "d_phase s = Finished res"
      "case res of Inl e \<Rightarrow> (r, files', h') = (Inl e, files(download_temp_path out_path := None), d_http s)
       | Inr n \<Rightarrow> (r, files', h') = (Inr n, files(download_temp_path out_path := None, out_path := Some (d_file s)), d_http s) \<or>
           (r, files', h') = (Inl output_write, files(download_temp_path out_path := None), d_http s)"
    using assms by (auto simp: download_to_def Let_def)
  then show ?thesis
  proof cases
    case 2
    then show ?thesis using Some by (cases res) auto
  qed blast
qed (use assms in \<open>auto simp: download_to_def Let_def\<close>)

lemma download_cases:
  assumes "download ss S file_id name out_path files h (r, files', h')"
  shows "(\<exists>e. r = Inl e \<and> files' = files) \<or>
    (\<exists>dek du url plan h2. dl_plan ss S dek file_id name du = Inr (url, plan) \<and> download_to plan url out_path files h2 (r, files', h'))"
proof -
  have target: "\<exists>du. dl_plan ss S dek file_id name du = Inr x" if "dl_target ss S dek file_id name h1 = (Inr x, h2)" for dek h1 x h2
    using that by (auto simp: dl_target_def result_simps split: prod.splits)
  obtain key h1 where key: "dl_key ss name h = (key, h1)" by (rule prod.exhaust)
  then consider e where "key = Some (Inl e)" "r = Inl e" "files' = files" | dek where "key = Some (Inr dek)"
    using assms by (cases key) (auto simp: download_def split: sum.splits)
  then show ?thesis
  proof cases
    case (2 dek)
    obtain res h2 where res: "dl_target ss S dek file_id name h1 = (res, h2)" by (rule prod.exhaust)
    show ?thesis
    proof (cases res)
      case (Inr x)
      obtain url plan where x: "x = (url, plan)" by (rule prod.exhaust)
      have "download_to plan url out_path files h2 (r, files', h')" using assms key 2 res Inr x by (simp add: download_def)
      with target [of dek h1 x h2] res Inr x show ?thesis by blast
    qed (use assms key 2 res in \<open>simp add: download_def\<close>)
  qed blast
qed


subsection \<open>The ranges\<close>

lemma unat_small: "n < 2 ^ 64 \<Longrightarrow> unat (of_nat n :: u64) = n"
  by (simp add: unat_of_nat)

lemma chunk_ranges_nth:
  assumes "i < n" "n < 2 ^ 32" "0 < sz" "sz < 2 ^ 64" "Suc i < n \<Longrightarrow> Suc i * (cs + 34) < 2 ^ 64" "i * (cs + 34) < 2 ^ 64"
  shows "map_prod unat unat (chunk_ranges (of_nat n) (of_nat cs) (of_nat sz) ! i) =
    (i * (cs + 34), if Suc i < n then Suc i * (cs + 34) - 1 else sz - 1)"
proof -
  have n: "unat (of_nat n :: u32) = n" using assms(2) by (simp add: unat_of_nat)
  have on_disk: "of_nat i * (of_nat cs + of_nat CHUNK_OVERHEAD) = (of_nat (i * (cs + 34)) :: u64)"
    by (simp add: CHUNK_OVERHEAD_def)
  have "of_nat (i * (cs + 34)) + (of_nat cs + of_nat CHUNK_OVERHEAD) - 1 = (of_nat (Suc i * (cs + 34) - 1) :: u64)"
    by (simp add: CHUNK_OVERHEAD_def of_nat_diff algebra_simps)
  moreover have "of_nat sz - 1 = (of_nat (sz - 1) :: u64)" using assms(3) by (simp add: of_nat_diff)
  moreover have "(of_nat sz :: u64) \<noteq> 0" using unat_small [OF assms(4)] assms(3) by (metis less_irrefl unat_0)
  ultimately show ?thesis using assms(1,4,5,6)
    by (auto simp: chunk_ranges_def Let_def n on_disk unat_small simp del: of_nat_mult of_nat_add)
qed

lemma chunk_in_object:
  assumes "i < length es" "\<forall>k < length es - 1. length (es ! k) = d"
  shows "\<exists>before after. concat es = before @ es ! i @ after \<and> length before = i * d \<and> (Suc i < length es \<or> after = [])"
proof (intro exI conjI)
  show "length (concat (take i es)) = i * d" using assms
  proof (induction i)
    case (Suc i)
    then have "length (concat (take i es)) = i * d" by simp
    moreover have "take (Suc i) es = take i es @ [es ! i]" using Suc.prems(1) by (simp add: take_Suc_conv_app_nth)
    moreover have "length (es ! i) = d" using Suc.prems by simp
    ultimately show ?case by simp
  qed simp
  show "concat es = concat (take i es) @ es ! i @ concat (drop (Suc i) es)"
    using id_take_nth_drop [OF assms(1)] by (metis concat.simps(2) concat_append)
qed (cases "Suc i < length es"; simp)

text \<open>
  C19: The ranges a download asks for are the stored chunks: cut out of the object that the parts of an upload make, they are the
  sealed chunks in their order. No product or sum of the 64-bit arithmetic wraps for an object of less than \<open>2 ^ 64\<close> bytes.\<close>
theorem ranges_cut_the_object:
  assumes "\<forall>k < length es - 1. length (es ! k) = cs + 34" "es \<noteq> []" "last es \<noteq> []"
    and "length es < 2 ^ 32" "length (concat es) < 2 ^ 64"
  shows "map (\<lambda>(start, stop). take (unat stop + 1 - unat start) (drop (unat start) (concat es)))
      (chunk_ranges (of_nat (length es)) (of_nat cs) (of_nat (length (concat es)))) = es"
proof (rule nth_equalityI)
  let ?r = "chunk_ranges (of_nat (length es)) (of_nat cs) (of_nat (length (concat es)))"
  have "unat (of_nat (length es) :: u32) = length es" using assms(4) by (simp add: unat_of_nat)
  then have len: "length ?r = length es" by (simp add: chunk_ranges_def Let_def)
  then show "length (map (\<lambda>(start, stop). take (unat stop + 1 - unat start) (drop (unat start) (concat es))) ?r) = length es" by simp
  fix i assume "i < length (map (\<lambda>(start, stop). take (unat stop + 1 - unat start) (drop (unat start) (concat es))) ?r)"
  with len have i: "i < length es" by simp
  obtain before after where obj: "concat es = before @ es ! i @ after" "length before = i * (cs + 34)" "Suc i < length es \<or> after = []"
    using chunk_in_object [OF i assms(1)] by blast
  have pos: "0 < length (concat es)" using assms(2,3) by (auto simp: last_in_set)
  have full: "length (es ! i) = cs + 34" if "Suc i < length es" using assms(1) that by simp
  have "Suc i * (cs + 34) < 2 ^ 64" if "Suc i < length es" using obj full [OF that] assms(5) by simp
  moreover have "i * (cs + 34) < 2 ^ 64" using obj assms(5) by simp
  ultimately have r: "map_prod unat unat (?r ! i) =
      (i * (cs + 34), if Suc i < length es then Suc i * (cs + 34) - 1 else length (concat es) - 1)"
    by (intro chunk_ranges_nth [OF i assms(4) pos assms(5)]) simp_all
  obtain start stop where ss: "?r ! i = (start, stop)" by (rule prod.exhaust)
  have "unat stop + 1 - unat start = length (es ! i)"
    using r ss obj full pos by (cases "Suc i < length es") auto
  moreover have "drop (unat start) (concat es) = es ! i @ after" using r ss obj by simp
  ultimately show "map (\<lambda>(start, stop). take (unat stop + 1 - unat start) (drop (unat start) (concat es))) ?r ! i = es ! i"
    using i len ss by simp
qed

text \<open>
  C36: The number of chunks is authenticated by the chunks it names, so by none at all when it is zero: for a server that answers with
  no chunks, every download of any file succeeds with an empty file.\<close>
theorem zero_chunks_give_empty_file:
  assumes "dl_plan ss S dek file_id name du = Inr (url, Some job)"
    and "get_i64 (ss_json ss) du ''multipart_chunks'' = Some chunks" "chunks \<le> 0"
  shows "download_to (Some job) url out_path files h (Inr 0, files(download_temp_path out_path := None, out_path := Some []), h)"
proof -
  obtain csize where c: "get_i64 (ss_json ss) du ''chunk_size'' = Some csize"
    using assms(1,2) by (cases "get_i64 (ss_json ss) du ''chunk_size''") (auto simp: dl_plan_def result_simps)
  have "max 0 chunks = 0" using assms(3) by simp
  then have r: "j_ranges job = []" using assms(1,2) c by (auto simp: dl_plan_def result_simps Let_def chunk_ranges_def)
  let ?s = "end_loop job (dl_start job url h)"
  have "dl_step job (dl_start job url h) ?s"
    by (rule dl_step.complete) (simp_all add: dl_start_def dl_pending_def r)
  then have "(dl_step job)\<^sup>*\<^sup>* (dl_start job url h) ?s" by blast
  moreover have "d_phase ?s = Finished (Inr 0)" "d_file ?s = []" "d_http ?s = h" by (simp_all add: end_loop_def dl_start_def r)
  ultimately show ?thesis unfolding download_to_def Let_def
    by (intro disjI2) (simp, intro exI [of _ ?s] exI [of _ "Inr 0"], simp)
qed

subsection \<open>One worker\<close>

text \<open>With one worker and answers for all chunks the loop does succeed.\<close>

fun fetch_all ::
  "('w, 'j, 's) dl_job \<Rightarrow> string \<Rightarrow> (nat \<times> u64 \<times> u64) list \<Rightarrow> 'w http \<Rightarrow> bool \<times> 'w http" where
  "fetch_all job url [] h = (True, h)"
| "fetch_all job url ((index, extent) # rest) h =
     (case fetch_chunk job url index extent None h of
        (Inl e, _, h') \<Rightarrow> (False, h')
      | (Inr p, _, h') \<Rightarrow> fetch_all job url rest h')"

lemma fetch_chunk_unpooled: "fetch_chunk job url index extent None h = (r, pool, h') \<Longrightarrow> pool = None"
  by (auto simp: fetch_chunk_def Let_def split: prod.splits)

lemma worker_runs:
  assumes "fetch_all job (d_url s) (drop (d_cursor s) (d_pending s)) (d_http s) = (True, h')"
    and "d_phase s = Running" "d_workers s = [Checking]" "\<not> d_abort s" "d_pool s = None" "d_first_err s = None"
  shows "\<exists>t. (dl_step job)\<^sup>*\<^sup>* s t \<and> d_phase t = Running \<and> d_workers t = [Gone] \<and> d_first_err t = None"
  using assms
proof (induction "drop (d_cursor s) (d_pending s)" arbitrary: s)
  case Nil
  let ?s1 = "dl_set 0 Taking s" and ?s2 = "dl_set 0 Gone ((dl_set 0 Taking s)\<lparr> d_cursor := d_cursor s + 1 \<rparr>)"
  have "dl_step job s ?s1" using Nil by (intro dl_step.go_on) (simp_all add: at_worker_def)
  moreover have "dl_step job ?s1 ?s2" using Nil dl_step.no_item [of 0 ?s1 job] by (simp add: at_worker_def)
  ultimately have "(dl_step job)\<^sup>*\<^sup>* s ?s2" by (meson converse_rtranclp_into_rtranclp rtranclp.rtrancl_refl)
  then show ?case using Nil by (intro exI [of _ ?s2]) simp
next
  case (Cons item rest)
  obtain index extent where item: "item = (index, extent)" by (rule prod.exhaust)
  have next_item: "d_cursor s < length (d_pending s)" "d_pending s ! d_cursor s = (index, extent)" "drop (Suc (d_cursor s)) (d_pending s) = rest"
  proof -
    show c: "d_cursor s < length (d_pending s)" using Cons.hyps(2) by (metis drop_all leI list.distinct(1))
    show "d_pending s ! d_cursor s = (index, extent)" "drop (Suc (d_cursor s)) (d_pending s) = rest"
      using Cons_nth_drop_Suc [OF c] Cons.hyps(2) item by (metis list.inject)+
  qed
  obtain p h1 where f: "fetch_chunk job (d_url s) index extent None (d_http s) = (Inr p, None, h1)" "fetch_all job (d_url s) rest h1 = (True, h')"
    using Cons.prems(1) fetch_chunk_unpooled [of job "d_url s" index extent "d_http s"]
    by (auto simp: item simp flip: Cons.hyps(2) split: prod.splits sum.splits)
  let ?s1 = "dl_set 0 Taking s"
  let ?s2 = "dl_set 0 (Fetching index extent) (?s1\<lparr> d_cursor := d_cursor ?s1 + 1 \<rparr>)"
  let ?s3 = "dl_set 0 (Writing index p) (?s2\<lparr> d_pool := None, d_http := h1 \<rparr>)"
  let ?s4 = "dl_set 0 (Recording index (length p)) (?s3\<lparr> d_file := write_plaintext_at (d_file ?s3) p (chunk_offset job index) \<rparr>)"
  let ?s5 = "dl_set 0 Checking (?s4\<lparr> d_completed := (d_completed ?s4)[index := True], d_written := d_written ?s4 + of_nat (length p),
      d_done := d_done ?s4 + 1 \<rparr>)"
  have w: "d_workers s = [Checking]" "d_phase s = Running" "d_pool s = None" by (fact Cons.prems)+
  have "dl_step job s ?s1" using Cons.prems by (intro dl_step.go_on) (simp_all add: at_worker_def)
  moreover have "dl_step job ?s1 ?s2" using w next_item by (intro dl_step.take_item) (simp_all add: at_worker_def)
  moreover have "dl_step job ?s2 ?s3" using w f(1)
    by (intro dl_step.fetched [where index = index and extent = extent]) (simp_all add: at_worker_def)
  moreover have "dl_step job ?s3 ?s4" using w by (intro dl_step.wrote) (simp add: at_worker_def)
  moreover have "dl_step job ?s4 ?s5" using w by (intro dl_step.recorded) (simp add: at_worker_def)
  ultimately have steps: "(dl_step job)\<^sup>*\<^sup>* s ?s5" by (meson rtranclp.rtrancl_into_rtrancl rtranclp.rtrancl_refl)
  have "\<exists>t. (dl_step job)\<^sup>*\<^sup>* ?s5 t \<and> d_phase t = Running \<and> d_workers t = [Gone] \<and> d_first_err t = None"
    by (rule Cons.hyps(1)) (use Cons.prems next_item f(2) in simp_all)
  with steps show ?case by (meson rtranclp_trans)
qed

lemma one_worker_succeeds:
  assumes "fetch_all job url (enumerate 0 (j_ranges job)) h = (True, h')" "j_n job = 1" "j_ranges job \<noteq> []"
  shows "\<exists>s n. (dl_step job)\<^sup>*\<^sup>* (dl_start job url h) s \<and> d_phase s = Finished (Inr n)"
proof -
  let ?s = "dl_start job url h" and ?s1 = "start_generation job (dl_start job url h)"
  have all: "dl_pending job ?s = enumerate 0 (j_ranges job)"
    by (auto simp: dl_pending_def dl_start_def in_set_enumerate_eq intro!: filter_True)
  have some: "enumerate 0 (j_ranges job) \<noteq> []" using assms(3) by (metis length_0_conv length_enumerate)
  have "dl_step job ?s ?s1" by (rule dl_step.generation) (use some all in \<open>simp_all add: dl_start_def\<close>)
  moreover obtain t where t: "(dl_step job)\<^sup>*\<^sup>* ?s1 t" "d_phase t = Running" "d_workers t = [Gone]" "d_first_err t = None"
    using worker_runs [of job ?s1 h'] assms all by (auto simp: start_generation_def dl_start_def min_def Suc_le_eq)
  ultimately have run: "(dl_step job)\<^sup>*\<^sup>* ?s t" by (meson converse_rtranclp_into_rtranclp)
  note ok = dl_ok_reachable [OF run]
  have "d_done t = length (j_ranges job)" by (rule quiet_generation [OF ok t(2)]) (simp_all add: t)
  moreover have "dl_step job t (t\<lparr> d_phase := Ready \<rparr>)" using dl_step.join [of t job] t by (simp add: end_generation_def)
  moreover have "dl_pending job (t\<lparr> d_phase := Ready \<rparr>) = []"
    using all_completed [OF ok] calculation(1) dl_pending_empty [of job "t\<lparr> d_phase := Ready \<rparr>"] by simp
  then have "dl_step job (t\<lparr> d_phase := Ready \<rparr>) (end_loop job (t\<lparr> d_phase := Ready \<rparr>))" by (intro dl_step.complete) simp_all
  ultimately have "(dl_step job)\<^sup>*\<^sup>* ?s (end_loop job (t\<lparr> d_phase := Ready \<rparr>))"
      "d_phase (end_loop job (t\<lparr> d_phase := Ready \<rparr>)) = Finished (Inr (d_written t))"
    using run by (meson rtranclp.rtrancl_into_rtrancl, simp add: end_loop_def)
  then show ?thesis by blast
qed

subsection \<open>A concrete download\<close>

definition demo_part_head :: string where
  "demo_part_head = ''HTTP/1.1 206 OK'' @ [CHR 0x0D, CHR 0x0A] @ ''content-length:34'' @ [CHR 0x0D, CHR 0x0A, CHR 0x0D, CHR 0x0A]"

definition demo_envelope :: "nat \<Rightarrow> bytes" where
  "demo_envelope n = [2, 1, 0, 0, 0, of_nat n] @ replicate 28 0"

definition demo_parts_store :: "nat transport" where
  "demo_parts_store = (\<lambda>_ _. \<lparr> resolve = (\<lambda>_ _. Some [\<lparr> addr_text = ''s'', is_ipv6 = False, is_loopback = True \<rparr>]),
     connect_timeout = (\<lambda>_ n. (Some \<lparr> incoming = [Got (utf8 demo_part_head), Got (demo_envelope n)], outgoing = [Wrote 1000], calls = [], written = [] \<rparr>, Suc n)),
     tls_setup = (\<lambda>_ n. (None, n)) \<rparr>)"

definition demo_vault :: crypto_lib where
  "demo_vault = demo_lib\<lparr> gcm_decrypt := (\<lambda>k n c a.
     if a = multipart_aad (replicate 16 1) 0 False then Some [1, 2]
     else if a = multipart_aad (replicate 16 1) 1 True then Some [3] else None) \<rparr>"

definition demo_owner :: "unit keystore" where
  "demo_owner = demo_holder\<lparr> ks_sign := (\<lambda>_ _ _. Inr []), ks_exists := (\<lambda>_ _. Inr False) \<rparr>"

definition demo_answer :: "demo_json \<Rightarrow> demo_json" where
  "demo_answer v = DObj [(''wrapped_dek'', v), (''download_url'', DStr ''http://s/k''), (''size_bytes'', DInt 71),
     (''multipart_chunks'', DInt 2), (''chunk_size'', DInt 2)]"

definition demo_session :: "demo_json \<Rightarrow> (nat, demo_json, unit) session" where
  "demo_session v = \<lparr> ss_version = ''1'', ss_lib = demo_vault, ss_json = demo_docs (demo_answer v) ''d'',
     ss_agent = (\<lambda>_ n. (HttpOk (Some ''d''), n)), ss_keystore = demo_owner, ss_keys = (), ss_mint = (\<lambda>n. (Some n, [])),
     ss_signing = demo_kem, ss_kem = demo_kem, ss_url = [] \<rparr>"

definition demo_dl :: "demo_json \<Rightarrow> u64 \<Rightarrow> (nat, demo_json, unit) dl_job" where
  "demo_dl v stride = \<lparr> j_session = demo_session v, j_transport = demo_parts_store, j_dek = replicate 32 7, j_file_id = replicate 16 1,
     j_file_name = ''f'', j_chunk_count = 2, j_ranges = [(0, 35), (36, 70)], j_stride = stride, j_n = 1 \<rparr>"

lemma demo_part_parse:
  "parse_head (utf8 demo_part_head) = Inr \<lparr> h_status = 206, h_etag = None, content_length = Some 34,
     h_chunked = False, server_close = False \<rparr>"
proof -
  have "list_all (\<lambda>b. b < 0x80) (utf8 demo_part_head)" by (simp add: utf8_def demo_part_head_def)
  from lossy_ascii [OF this] have "from_utf8_lossy (utf8 demo_part_head) = demo_part_head" by (simp only: of_utf8_utf8)
  moreover have "split_crlf demo_part_head = [''HTTP/1.1 206 OK'', ''content-length:34'', [], []]" by (simp add: demo_part_head_def)
  moreover have "words ''HTTP/1.1 206 OK'' = [''HTTP/1.1'', ''206'', ''OK'']"
    using words_plain(1) [of "''HTTP/1.1''" "''206 OK''"] words_plain(1) [of "''206''" "''OK''"] words_plain(2) [of "''OK''"]
    by (simp add: plain_def)
  moreover have "trim ''34'' = ''34''" by (simp add: trim_plain plain_def)
  ultimately show ?thesis
    by (simp add: parse_head_def header_line_def parse_unsigned_def is_digit_def digit_value_def
        Let_def strip_prefix_def eq_ignore_ascii_case_def to_ascii_lowercase_def ascii_lower_def rbind_def ok_or_def)
qed

lemma demo_part_response:
  "read_response True [Got (utf8 demo_part_head), Got (demo_envelope n)] =
     Inr (\<lparr> status = 206, etag = None, resp_body = demo_envelope n, reusable = True \<rparr>, [])"
proof -
  have "find_headers_end (utf8 demo_part_head) = Some 38" "length (utf8 demo_part_head) = 38" "utf8 demo_part_head \<noteq> []"
    by (simp_all add: demo_part_head_def utf8_def)
  then have "read_head [] [Got (utf8 demo_part_head), Got (demo_envelope n)] = Inr (38, utf8 demo_part_head, [Got (demo_envelope n)])"
    by (simp add: read_head.simps)
  moreover have "length (demo_envelope n) = 34" "demo_envelope n \<noteq> []" by (simp_all add: demo_envelope_def)
  ultimately show ?thesis using \<open>length (utf8 demo_part_head) = 38\<close>
    by (simp add: read_response_def rbind_def demo_part_parse ok_or_def)
qed

lemma demo_part_get:
  assumes "start < 100" "stop < 100"
  shows "get_presigned_range demo_parts_store ''http://s/k'' start stop n = (Inr (demo_envelope n), Suc n)"
proof -
  let ?t = "\<lparr> t_host = ''s'', t_port = 80, t_authority = ''s'', request_target = ''/k'', t_tls = False \<rparr>"
  let ?S = "demo_parts_store (transport_bounds default_knobs) None"
  let ?c = "\<lparr> incoming = [Got (utf8 demo_part_head), Got (demo_envelope n)], outgoing = [Wrote 1000], calls = [], written = [] \<rparr>"
  have sh: "show_nat k = (if k < 10 then [digit k] else [digit (k div 10), digit (k mod 10)])" if "k < 100" for k
    using that less_mult_imp_div_less [of k 10 10] by (simp add: show_nat.simps)
  have hd: "utf8 (request_head ''GET'' ?t (range_header start stop) [] False) \<noteq> []"
      "length (utf8 (request_head ''GET'' ?t (range_header start stop) [] False)) \<le> 1000"
    using assms by (simp_all add: request_head_def utf8_def range_header_def sh)
  have "open_connection ?S ?t n = (Inr ?c, Suc n)"
    by (simp add: open_connection_def demo_parts_store_def prefer_ipv4_def in_turn_def arm_handshake_def arm_read_timeout_def
        arm_write_timeout_def socket_call_def ok_or_def)
  moreover have "fst (request_on ?c ''GET'' ?t (range_header start stop) [] True False) =
      Inr \<lparr> status = 206, etag = None, resp_body = demo_envelope n, reusable = True \<rparr>"
    using hd by (simp add: request_on_def in_turn_def arm_read_timeout_def arm_write_timeout_def socket_call_def
        write_all_gap_bounded_def write_loop_once demo_part_response)
  moreover from this obtain c2 where "request_on ?c ''GET'' ?t (range_header start stop) [] True False =
      (Inr \<lparr> status = 206, etag = None, resp_body = demo_envelope n, reusable = True \<rparr>, c2)"
    by (metis prod.collapse)
  ultimately have "get_range ?S ''http://s/k'' start stop n = (Inr \<lparr> tr_status = 206, tr_etag = None, tr_body = demo_envelope n \<rparr>, Suc n)"
    by (simp add: get_range_def request_with_pool_def demo_parse_url request_loop.simps finish_request_def)
  then show ?thesis
    by (simp add: get_presigned_range_def get_presigned_range_impl_def DOWNLOAD_ATTEMPTS_def numeral_eq_Suc pooled_attempt_def)
qed

lemma demo_fetch:
  assumes "net h = 0"
  shows "fetch_chunk (demo_dl v stride) ''http://s/k'' 0 (0, 35) None h = (Inr [1, 2], None, h\<lparr> net := 1 \<rparr>)"
    "fetch_chunk (demo_dl v stride) ''http://s/k'' (Suc 0) (36, 70) None (h\<lparr> net := 1 \<rparr>) = (Inr [3], None, h\<lparr> net := 2 \<rparr>)"
proof -
  have "be_value [0, 0, 0, 0] = 0" "be_value [0, 0, 0, 1] = 1" "\<not> (2 :: u32) \<le> 1" by code_simp+
  then show "fetch_chunk (demo_dl v stride) ''http://s/k'' 0 (0, 35) None h = (Inr [1, 2], None, h\<lparr> net := 1 \<rparr>)"
    "fetch_chunk (demo_dl v stride) ''http://s/k'' (Suc 0) (36, 70) None (h\<lparr> net := 1 \<rparr>) = (Inr [3], None, h\<lparr> net := 2 \<rparr>)"
    using assms
    by (simp_all add: fetch_chunk_def demo_dl_def demo_part_get demo_session_def open_chunk_def is_last_chunk_def
        demo_envelope_def layout_consts from_be32_def open_sealed_def demo_vault_def Let_def ok_or_def multipart_aad_inj)
qed

lemma demo_dl_run:
  assumes "net h = 0"
  shows "\<exists>s n. (dl_step (demo_dl v stride))\<^sup>*\<^sup>* (dl_start (demo_dl v stride) ''http://s/k'' h) s \<and> d_phase s = Finished (Inr n)"
proof (rule one_worker_succeeds)
  have "enumerate 0 (j_ranges (demo_dl v stride)) = [(0, 0, 35), (Suc 0, 36, 70)]" by (simp add: demo_dl_def)
  then show "fetch_all (demo_dl v stride) ''http://s/k'' (enumerate 0 (j_ranges (demo_dl v stride))) h = (True, h\<lparr> net := 2 \<rparr>)"
    using demo_fetch [OF assms] by simp
qed (simp_all add: demo_dl_def)

lemma demo_downloads: "unat stride < 100 \<Longrightarrow> downloads (demo_dl v stride) 2 [1, 2, 3]"
proof -
  assume stride: "unat stride < 100"
  have "chunk_count_of 2 (length [1, 2, 3 :: byte]) = 2" by (simp add: chunk_count_of_def)
  moreover have "file_chunks 2 [1, 2, 3 :: byte] = [[1, 2], [3]]" by (simp add: file_chunks_def chunk_count_of_def upt_rec)
  moreover have "sealed_only demo_vault (replicate 32 7) (replicate 16 1) [[1, 2], [3]]"
    by (auto simp: sealed_only_def demo_vault_def less_Suc_eq split: if_splits)
  ultimately show ?thesis using stride by (simp add: downloads_def demo_dl_def demo_session_def)
qed

lemma demo_client_net: "net demo_client = 0"
  by (simp add: demo_client_def)



theorem download_never_hangs_witness:
  "((\<exists>t. dl_step (demo_dl DNull 2) (start_generation (demo_dl DNull 2) (dl_start (demo_dl DNull 2) ''http://s/k'' demo_client)) t)
      \<or> (\<exists>r. d_phase (start_generation (demo_dl DNull 2) (dl_start (demo_dl DNull 2) ''http://s/k'' demo_client)) = Finished r))
    \<and> 1 \<le> (4 * length (j_ranges (demo_dl DNull 2)) + 4) * (7 * length (j_ranges (demo_dl DNull 2)) + 2)"
proof -
  have "dl_pending (demo_dl DNull 2) (dl_start (demo_dl DNull 2) ''http://s/k'' demo_client) \<noteq> []"
    by (simp add: dl_pending_def dl_start_def demo_dl_def)
  then have "(dl_step (demo_dl DNull 2) ^^ 1) (dl_start (demo_dl DNull 2) ''http://s/k'' demo_client)
      (start_generation (demo_dl DNull 2) (dl_start (demo_dl DNull 2) ''http://s/k'' demo_client))"
    unfolding relpowp_1 by (intro dl_step.generation) (simp_all add: dl_start_def)
  from download_never_hangs [OF this] show ?thesis .
qed


theorem ranges_cut_the_object_witness:
  "map (\<lambda>(start, stop). take (unat stop + 1 - unat start) (drop (unat start) (concat [replicate 35 7, replicate 34 8 :: bytes])))
     (chunk_ranges (of_nat 2) (of_nat 1) (of_nat (length (concat [replicate 35 7, replicate 34 8 :: bytes])))) = [replicate 35 7, replicate 34 8]"
  using ranges_cut_the_object [of "[replicate 35 7, replicate 34 8]" 1] by simp

lemma demo_api:
  "\<exists>h'. api_get (demo_session v) path h = (Inr (demo_answer v), h') \<and> net h' = net h"
proof -
  have "\<exists>req. signed_request ''1'' demo_vault demo_owner () mint demo_kem ''GET'' [] path None 0 = Inr req" if "fst (mint 0) \<noteq> None" for mint
    using that by (auto simp: signed_request_def auth_headers_def demo_owner_def demo_holder_def request_signature_def Let_def
        label_from_handle_def validate_handle_def demo_kem_def is_alnum_def strip_suffix_def strip_prefix_def)
  from this [of "next_mint (demo_session v) h"] obtain req
    where "signed_request ''1'' demo_vault demo_owner () (next_mint (demo_session v) h) demo_kem ''GET'' [] path None 0 = Inr req"
    by (auto simp: next_mint_def demo_session_def)
  then show ?thesis
    by (simp add: api_get_def get_json_signed_def signed_call_def demo_session_def call_loop.simps transmit_def settle_def parsed_def
        demo_docs_def)
qed

lemma demo_vault_correct: "b64_correct demo_vault" "kw_correct demo_vault" "p256_correct demo_vault"
  using demo_lib_correct(3,5) demo_p256_correct
  by (simp_all add: b64_correct_def kw_correct_def p256_correct_def demo_vault_def)

lemma demo_unwraps:
  "\<exists>v. unwrap_dek_value demo_vault (demo_docs (demo_answer v) ''d'') demo_owner () v demo_kem = Some (Inr (replicate 32 7))"
proof -
  have "\<exists>env. wrap_key_hybrid demo_vault demo_encaps (replicate 32 1, []) (p256_public demo_vault (replicate 32 5)) (replicate 1568 6)
      (replicate 32 7) [] = Inr env"
    by (simp add: wrap_key_hybrid_def encapsulate_def demo_encaps_def ecdh_p256_def validate_party_v_def
        wrap_from_secrets_def validate_recipient_keys_def content_wrap_kek_def
        hkdf_sha256_def keywrap_wrap_def hybrid_rfp_def MLKEM1024_EK_LEN_def MLKEM1024_CT_LEN_def demo_vault_def demo_lib_def)
  then obtain env where env: "wrap_key_hybrid demo_vault demo_encaps (replicate 32 1, []) (p256_public demo_vault (replicate 32 5))
      (replicate 1568 6) (replicate 32 7) [] = Inr env" by blast
  define v where "v = hybrid_to_value demo_jsons env"
  have v: "v = hybrid_to_value (demo_docs (demo_answer v) ''d'') env"
    by (simp add: v_def hybrid_to_value_def epk_to_value_def demo_docs_def demo_jsons_def)
  have holds: "holds demo_vault demo_encaps demo_owner () demo_kem (replicate 32 5) (replicate 1568 6)"
    using demo_holds by (simp add: holds_def demo_owner_def demo_vault_def ecdh_p256_def)
  have "unwrap_hybrid demo_vault (demo_docs (demo_answer v) ''d'') demo_owner () v demo_kem [] = Inr (replicate 32 7)"
    using unwrap_hybrid_recovers [OF demo_vault_correct demo_docs_correct _ _ _ holds env, of "demo_answer v" "''d''"] v
    by (simp add: demo_vault_def demo_lib_def)
  moreover have "wrap_alg_of (demo_docs (demo_answer v) ''d'') v = Inr Hybrid"
    using hybrid_value_alg [OF demo_docs_correct env, of "demo_answer v" "''d''"] v by simp
  ultimately show ?thesis by (intro exI [of _ v]) (simp add: unwrap_dek_value_def)
qed

lemma demo_plan:
  "dl_plan (demo_session v) demo_parts_store (replicate 32 7) (replicate 16 1) ''f'' (demo_answer v) = Inr (''http://s/k'', Some (demo_dl v 2))"
proof -
  have "[0..<2] = [0, Suc 0]" by (simp add: upt_rec)
  then have "chunk_ranges 2 2 71 = [(0, 35), (36, 70)]" by (simp add: chunk_ranges_def CHUNK_OVERHEAD_def Let_def)
  then show ?thesis
    by (simp add: dl_plan_def demo_session_def demo_dl_def demo_answer_def demo_docs_def demo_jsons_def get_str_def get_i64_def
        download_concurrency_def clamp_def CLI_MAX_DOWNLOAD_CONCURRENCY_def ok_or_def)
qed


theorem zero_chunks_give_empty_file_witness:
  "let du = DObj [(''download_url'', DStr ''http://s/k''), (''size_bytes'', DInt 71), (''multipart_chunks'', DInt 0), (''chunk_size'', DInt 2)] in
   \<exists>job. dl_plan (demo_session DNull) demo_parts_store [] [] ''f'' du = Inr (''http://s/k'', Some job) \<and>
     download_to (Some job) ''http://s/k'' [Normal ''o''] (\<lambda>_. None) demo_client
       (Inr 0, (\<lambda>_. None)(download_temp_path [Normal ''o''] := None, [Normal ''o''] := Some []), demo_client)"
proof -
  let ?du = "DObj [(''download_url'', DStr ''http://s/k''), (''size_bytes'', DInt 71), (''multipart_chunks'', DInt 0), (''chunk_size'', DInt 2)]"
  obtain job where job: "dl_plan (demo_session DNull) demo_parts_store [] [] ''f'' ?du = Inr (''http://s/k'', Some job)"
    by (simp add: dl_plan_def demo_session_def demo_docs_def demo_jsons_def get_str_def get_i64_def ok_or_def)
  have "get_i64 (ss_json (demo_session DNull)) ?du ''multipart_chunks'' = Some 0"
    by (simp add: demo_session_def demo_docs_def demo_jsons_def get_i64_def)
  from zero_chunks_give_empty_file [OF job this order_refl, of "[Normal ''o'']" "\<lambda>_. None" demo_client] job
  show ?thesis unfolding Let_def by blast
qed

end
