(* ===== verification/Spec2Isabelle.thy ===== *)
theory Spec2Isabelle
  imports Merkle_Proofs Translog Envelope Key_Wrap Garnet_Revocation X509 Broker Wire_Keystores Anchor_Cache Anchor_Entries
    Download_File
begin

text \<open>
  \<^bold>\<open>Signet Drive: a verification development\<close>

  Signet Drive is an end-to-end encrypted file store with an append-only log of public keys. The Rust sources under
  \<^verbatim>\<open>src/\<close> are three crates: \<^verbatim>\<open>crypto\<close> (formats and protocols over primitives), \<^verbatim>\<open>channel\<close> (a container's keystore
  operations carried out on its host) and \<^verbatim>\<open>cli\<close> (the client, its keystores, the host-signer and the broker). This development
  models them as HOL functions, records and step relations and proves what makes each part correct.

  \<^bold>\<open>How the parts interact.\<close> A file is cut into chunks that are sealed under a fresh key (\<open>Envelope\<close>); the parts go to object
  storage through pre-signed URLs (\<open>Bucket_Transport\<close>, \<open>Presigned\<close>, \<open>Upload_Parts\<close>) and come back the same way (\<open>Download\<close>). The
  file's key is wrapped for each reader (\<open>Key_Wrap\<close>, \<open>Wrap_Keys\<close>) whose public keys the client checks against the log
  (\<open>Translog\<close>, \<open>Merkle\<close>, \<open>Log_Anchors\<close>, \<open>Anchor_Entries\<close>). Private keys live in a keystore (\<open>Keystore_Labels\<close>): on this machine
  (\<open>Software_Keystore\<close>), on the host behind a shared folder (\<open>Channel_Auth\<close>, \<open>Channel_Transport\<close>, \<open>Host_Signer\<close>), or behind a broker
  that demands a token and a live grant (\<open>Garnet_Token\<close>, \<open>Garnet_Revocation\<close>, \<open>X509\<close>, \<open>Broker\<close>); \<open>Wire_Keystores\<close> is the client
  of both. Every call to the service is a signed request (\<open>Jcs\<close>, \<open>Http_Client\<close>, \<open>Session\<close>).

  \<^bold>\<open>Conventions.\<close> Bytes are lists of 8-bit words; fixed-width integers are words where wrap-around matters, otherwise
  \<open>nat\<close> or \<open>int\<close> with the truncating casts written out. A Rust \<^verbatim>\<open>Result\<close> is a sum with the error on the left, and a panic or an
  endless loop is \<open>None\<close> around it. The text of error messages is left out; an error of the client is its exit code, its machine
  code and the mark that the log's epoch moved. Code that is not under \<^verbatim>\<open>src/\<close> is an argument: the cipher, hash, signature and
  key-encapsulation crates (\<open>crypto_lib\<close>), the JSON codec (\<open>json_lib\<close>), CBOR, X.509, the file system, sockets, the HTTP agent,
  floating-point arithmetic, the clock and the random generator. What a theorem needs of them is a named hypothesis
  (\<open>gcm_correct\<close>, \<open>kw_correct\<close>, \<open>json_doc_correct\<close>, ...), and \<open>demo_lib\<close>, \<open>demo_jsons\<close> and similar instances show that the
  hypotheses can hold.

  \<^bold>\<open>Theories.\<close>
  \<^item> \<open>Prelude\<close>, \<open>Rust_Std\<close>, \<open>Crypto_Base\<close>, \<open>Cli_Error\<close>, \<open>Json_Values\<close>: machine types, the result type with its inversion rules
    (collection \<open>result_simps\<close>), big-endian and length-prefixed encodings (locale \<open>prefix_code\<close>), the string functions of the Rust
    library, the wrappers of \<^verbatim>\<open>crypto/src/{error,alg,hash,aead,kdf,keywrap,mac,ecdh,ecdsa,pubkey}.rs\<close>, \<^verbatim>\<open>cli/src/error.rs\<close> and
    the accessors of JSON values.
  \<^item> \<open>Merkle\<close>, \<open>Merkle_Paths\<close>, \<open>Merkle_Proofs\<close> (\<^verbatim>\<open>crypto/src/merkle.rs\<close>): the tree, both proofs and both verifiers. The verifiers'
    bit walk is shown to be the recursion on the tree; proofs are complete and, for a collision-free hash, sound (locale
    \<open>merkle_hashing\<close>, interpreted on the model's hashes).
  \<^item> \<open>Jcs\<close>, \<open>Translog\<close> (\<^verbatim>\<open>crypto/src/{jcs,attest,signing,translog,vrf}.rs\<close>): the bytes that are signed or hashed; the formats
    are disjoint and bind their fields, and the running hash binds the history.
  \<^item> \<open>Envelope\<close> (\<^verbatim>\<open>crypto/src/{envelope,encname}.rs\<close>): sealed files, chunks and names; truncation, reordering and replacement of
    chunks are refused; the length arithmetic of chunked files.
  \<^item> \<open>Key_Wrap\<close> (\<^verbatim>\<open>crypto/src/{concatkdf,wrap,hybrid_wrap,kem_wrap}.rs\<close>) and \<open>Wrap_Keys\<close> (\<^verbatim>\<open>cli/src/hybrid.rs\<close> and the
    wrapping functions of \<^verbatim>\<open>cli/src/commands.rs\<close>): round trips of both wraps, and that no key is written under the classical
    algorithm alone.
  \<^item> \<open>Garnet_Token\<close>, \<open>Garnet_Revocation\<close>, \<open>X509\<close>, \<open>Broker\<close> (\<^verbatim>\<open>crypto/src/{garnet_token,x509}.rs\<close>,
    \<^verbatim>\<open>cli/src/{garnet_revocation,broker,broker_wire}.rs\<close>): exactly when a token is accepted, the lease as a state machine with its runs
    (locale \<open>grant_gate\<close>, relations \<open>lease_run\<close> and \<open>broker_run\<close>), and that the broker works only under a verified token whose
    grant was confirmed within its budget.
  \<^item> \<open>Config\<close>, \<open>Keystore_Labels\<close>, \<open>Software_Keystore\<close>, \<open>Channel_Auth\<close>, \<open>Channel_Transport\<close>, \<open>Host_Signer\<close>, \<open>Wire_Keystores\<close>
    (\<^verbatim>\<open>cli/src/config.rs\<close>, \<^verbatim>\<open>cli/src/keystore/*.rs\<close>, \<^verbatim>\<open>channel/src/*.rs\<close>, \<^verbatim>\<open>cli/src/host_signer.rs\<close>): a keystore is a record of operations (locale
    \<open>keystore_scope\<close>), frames are authentic and bound to their request, replays are refused within the window (locale
    \<open>replay_filter\<close>), a channel stays within its handle, and a delegated operation is the native one.
  \<^item> \<open>Log_Anchors\<close>, \<open>Anchor_Cache\<close>, \<open>Anchor_Entries\<close> (\<^verbatim>\<open>cli/src/anchors.rs\<close>): the published anchor files, the judgement of an
    epoch, the client's memory and its cut-down cache, and what a served log entry binds.
  \<^item> \<open>Http_Client\<close>, \<open>Session\<close> (\<^verbatim>\<open>cli/src/http.rs\<close>): requests, retries, signatures, the read-only guard; a retry is never a replay.
  \<^item> \<open>Bucket_Transport\<close>, \<open>Presigned\<close> (\<^verbatim>\<open>cli/src/{bucket_transport,transfer_governor}.rs\<close> and the second half of \<^verbatim>\<open>cli/src/http.rs\<close>): one request over
    scripts of socket events, the pool of connections, the retry loops and the governor; an answer is read exactly, however the
    network cuts it, and only after the whole request was written.
  \<^item> \<open>Upload_Parts\<close> (\<^verbatim>\<open>chunk_plan\<close> to \<^verbatim>\<open>upload_parts\<close> of \<^verbatim>\<open>cli/src/commands.rs\<close>): the sealing thread, the bounded channel and the
    workers are the steps of \<open>fan_step\<close>; the threads never hang and a reported upload is the plan.
  \<^item> \<open>Download\<close>, \<open>Download_File\<close> (\<^verbatim>\<open>download\<close> of \<^verbatim>\<open>cli/src/commands.rs\<close>): the generations of workers are the steps of \<open>dl_step\<close>; they end,
    and a successful download is the sealed file, under its name only when whole.

  \<^bold>\<open>Bounds.\<close> Every loop of the model is total: structural, by a measure, or a step relation with a bound on its runs
  (\<open>5 * parts + 6\<close> steps and one per worker for an upload, \<open>(4 * n + 4) * (7 * n + 2)\<close> steps for a download of \<open>n\<close> chunks). No fuel is used.
  A blocked or late socket is an event of its script, and a script that is used up is a closed connection.

  \<^bold>\<open>Not modelled.\<close> The browser client \<^verbatim>\<open>web/\<close> (TypeScript and Svelte, a second implementation of the same formats) and
  \<^verbatim>\<open>crypto-wasm\<close> (bindings); shell scripts under \<^verbatim>\<open>infrastructure/\<close> and \<^verbatim>\<open>verify/\<close>; argument parsing, printing, installation,
  updates, power management and the menu bar (\<^verbatim>\<open>main.rs\<close>, \<^verbatim>\<open>output.rs\<close>, \<^verbatim>\<open>install.rs\<close>, \<^verbatim>\<open>uninstall.rs\<close>, \<^verbatim>\<open>update.rs\<close>, \<^verbatim>\<open>power.rs\<close>,
  \<^verbatim>\<open>menubar.rs\<close>), which are input and output around library calls; the Secure Enclave backend, a foreign-function interface; TLS,
  whose stack is a library; the enrolment, provisioning and sharing commands, and of \<^verbatim>\<open>commands.rs\<close> everything but the parts named
  above.
\<close>

end
